(* ===== verification/Prelude.thy ===== *)
theory Prelude imports Main "HOL-Library.Word" begin

text \<open>
  The vocabulary every component of the model shares.

  \<^item> \<open>error\<close>: the values of \<open>anyhow::Error\<close>. An error of another crate that a \<open>?\<close> converts
    is wrapped by \<open>Io\<close>, \<open>SshAgent\<close> and the like, so that \<open>downcast_ref\<close> is a \<open>case\<close>;
    an \<open>anyhow!\<close> is \<open>Anyhow\<close> with its format string and the values it prints.
  \<^item> \<open>result\<close>: a Rust \<open>Result\<close>, with \<open>and_then\<close> for the \<open>?\<close> operator.
  \<^item> generic lemmas on lists and options used by more than one component.
\<close>

unbundle bit_operations_syntax

named_theorems result_simps \<open>how a sequence of fallible steps can succeed or fail\<close>
named_theorems io_simps \<open>how a sequence of effectful steps can return\<close>

section \<open>Errors\<close>

text \<open>\<open>std::io::ErrorKind\<close>, the kinds the sources name.\<close>

datatype io_kind = KNotFound | KPermissionDenied | KWouldBlock | KInterrupted | KTimedOut
  | KInvalidInput | KInvalidData | KInProgress | KOther

text \<open>\<open>errno\<close> values by name: the numbers differ between Linux and macOS.\<close>

datatype errno = ENOENT | EPERM | EACCES | EINTR | EAGAIN | ETIMEDOUT | EINPROGRESS | EINVAL
  | Errno int

text \<open>
  A \<open>std::io::Error\<close> is either an operating-system error (\<open>last_os_error\<close>,
  \<open>from_raw_os_error\<close>) or one made by \<open>Error::new\<close> from a kind and a message.
\<close>

datatype io_error = OsError errno | IoNew io_kind string

fun errno_kind :: "errno \<Rightarrow> io_kind" where
  "errno_kind ENOENT = KNotFound"
| "errno_kind EPERM = KPermissionDenied"
| "errno_kind EACCES = KPermissionDenied"
| "errno_kind EINTR = KInterrupted"
| "errno_kind EAGAIN = KWouldBlock"
| "errno_kind ETIMEDOUT = KTimedOut"
| "errno_kind EINPROGRESS = KInProgress"
| "errno_kind EINVAL = KInvalidInput"
| "errno_kind (Errno _) = KOther"

fun io_kind_of :: "io_error \<Rightarrow> io_kind" where
  "io_kind_of (OsError n) = errno_kind n"
| "io_kind_of (IoNew k _) = k"

text \<open>\<open>ssh_agent_client_rs::Error\<close>: the one variant the sources look at, and the rest.\<close>

datatype sac_error = RemoteFailure | OtherAgentError string

text \<open>
  An \<open>anyhow!\<close> is kept as its format string and the values it prints; a log line or a message
  is never parsed back, so the arguments are not rendered.
\<close>

datatype fmt_arg = Str string | Num int | IoArg io_error

datatype error =
    Io io_error
  | SshAgent sac_error
  | SignatureError
  | Utf8Error
  | ParseIntError
  | Anyhow string "fmt_arg list"

text \<open>\<open>error.downcast_ref::<std::io::Error>()\<close> and \<open>downcast_ref::<SACError>()\<close>.\<close>

fun downcast_io :: "error \<Rightarrow> io_error option" where
  "downcast_io (Io e) = Some e"
| "downcast_io _ = None"

fun downcast_sac :: "error \<Rightarrow> sac_error option" where
  "downcast_sac (SshAgent e) = Some e"
| "downcast_sac _ = None"

lemma downcast_io_Some [simp]: "downcast_io e = Some i \<longleftrightarrow> e = Io i"
  by (cases e) auto

lemma downcast_sac_Some [simp]: "downcast_sac e = Some s \<longleftrightarrow> e = SshAgent s"
  by (cases e) auto

section \<open>Results\<close>

type_synonym 'a result = "error + 'a"

definition and_then :: "'a result \<Rightarrow> ('a \<Rightarrow> 'b result) \<Rightarrow> 'b result" where
  "and_then r k = (case r of Inl e \<Rightarrow> Inl e | Inr x \<Rightarrow> k x)"

definition ok_or :: "error \<Rightarrow> 'a option \<Rightarrow> 'a result" where
  "ok_or e x = (case x of None \<Rightarrow> Inl e | Some y \<Rightarrow> Inr y)"

definition map_err :: "('e \<Rightarrow> error) \<Rightarrow> 'e + 'a \<Rightarrow> 'a result" where
  "map_err f r = (case r of Inl e \<Rightarrow> Inl (f e) | Inr x \<Rightarrow> Inr x)"

definition is_ok :: "'e + 'a \<Rightarrow> bool" where
  "is_ok r = (case r of Inl _ \<Rightarrow> False | Inr _ \<Rightarrow> True)"

lemma and_then_simps [simp]: "and_then (Inl e) k = Inl e" "and_then (Inr x) k = k x"
  by (simp_all add: and_then_def)

lemma and_then_Inr [result_simps]:
  "and_then r k = Inr y \<longleftrightarrow> (\<exists>x. r = Inr x \<and> k x = Inr y)"
  by (cases r) auto

lemma and_then_Inl [result_simps]:
  "and_then r k = Inl e \<longleftrightarrow> r = Inl e \<or> (\<exists>x. r = Inr x \<and> k x = Inl e)"
  by (cases r) auto

lemma and_then_return [simp]: "and_then r Inr = r"
  by (cases r) auto

lemma and_then_assoc: "and_then (and_then r k) l = and_then r (\<lambda>x. and_then (k x) l)"
  by (cases r) auto

lemma and_then_cong [fundef_cong]:
  "r = r' \<Longrightarrow> (\<And>x. r' = Inr x \<Longrightarrow> k x = k' x) \<Longrightarrow> and_then r k = and_then r' k'"
  by (cases r') auto

lemma ok_or_simps [simp]: "ok_or e None = Inl e" "ok_or e (Some x) = Inr x"
  by (simp_all add: ok_or_def)

lemma ok_or_Inr [result_simps]: "ok_or e x = Inr y \<longleftrightarrow> x = Some y"
  by (cases x) auto

lemma ok_or_Inl [result_simps]: "ok_or e x = Inl e' \<longleftrightarrow> x = None \<and> e' = e"
  by (cases x) auto

lemma map_err_simps [simp]: "map_err f (Inl e) = Inl (f e)" "map_err f (Inr x) = Inr x"
  by (simp_all add: map_err_def)

lemma map_err_Inr [result_simps]: "map_err f r = Inr y \<longleftrightarrow> r = Inr y"
  by (cases r) auto

lemma map_err_Inl [result_simps]: "map_err f r = Inl e \<longleftrightarrow> (\<exists>d. r = Inl d \<and> e = f d)"
  by (cases r) auto

lemma is_ok_simps [simp]: "\<not> is_ok (Inl e)" "is_ok (Inr x)"
  by (simp_all add: is_ok_def)

lemma is_ok_iff: "is_ok r \<longleftrightarrow> (\<exists>x. r = Inr x)"
  by (cases r) auto

text \<open>A guard that returns early with an error.\<close>

definition fail_if :: "bool \<Rightarrow> error \<Rightarrow> unit result" where
  "fail_if b e = (if b then Inl e else Inr ())"

lemma fail_if_simps [simp]: "fail_if True e = Inl e" "fail_if False e = Inr ()"
  by (simp_all add: fail_if_def)

lemma fail_if_Inr [result_simps]: "fail_if b e = Inr u \<longleftrightarrow> \<not> b"
  by (cases b) auto

lemma fail_if_Inl [result_simps]: "fail_if b e = Inl e' \<longleftrightarrow> b \<and> e' = e"
  by (cases b) auto

section \<open>Lists\<close>

lemma takeWhile_append_stop: "\<not> P x \<Longrightarrow> \<forall>y\<in>set xs. P y \<Longrightarrow> takeWhile P (xs @ x # ys) = xs"
  by (induction xs) auto

lemma dropWhile_append_stop: "\<not> P x \<Longrightarrow> \<forall>y\<in>set xs. P y \<Longrightarrow> dropWhile P (xs @ x # ys) = x # ys"
  by (induction xs) auto

lemma length_induct_suffix:
  assumes "\<And>xs. (\<And>ys. length ys < length xs \<Longrightarrow> P ys) \<Longrightarrow> P xs"
  shows "P xs"
  using assms by (rule length_induct [of P xs]) blast

end
