(* ===== verification/Utf8.thy ===== *)
theory Utf8 imports Prelude begin

text \<open>
  UTF-8 as \<open>std\<close> decodes it, on byte values: \<open>from_utf8\<close>, \<open>str::chars\<close>, \<open>to_string_lossy\<close>.

  A Rust \<open>String\<close> is modelled by its bytes, a HOL \<open>string\<close>; a Rust \<open>char\<close> by its code point.
  Searching, splitting and slicing work on the bytes, as they do in Rust; a component that looks
  at characters decodes first. The codec is a bijection between valid byte strings and lists of
  scalar values (\<open>utf8_encode_decode\<close>, \<open>utf8_decode_encode\<close>), stated once as the locale
  \<open>codec\<close> and interpreted on this codec.
\<close>

section \<open>Decoding one character\<close>

definition is_cont :: "nat \<Rightarrow> bool" where
  "is_cont b \<longleftrightarrow> 128 \<le> b \<and> b < 192"

text \<open>The second byte after the lead byte \<open>b\<close>: no overlong form, no surrogate, no value above 0x10FFFF.\<close>

definition second_ok :: "nat \<Rightarrow> nat \<Rightarrow> bool" where
  "second_ok b c \<longleftrightarrow> is_cont c \<and> (b = 224 \<longrightarrow> 160 \<le> c) \<and> (b = 237 \<longrightarrow> c < 160)
     \<and> (b = 240 \<longrightarrow> 144 \<le> c) \<and> (b = 244 \<longrightarrow> c < 144)"

text \<open>
  \<open>utf8_next\<close> reads one character off the front: \<open>Some\<close> its code point, or \<open>None\<close> when the front
  is the maximal part of an ill-formed sequence, and the bytes after it.
\<close>

fun utf8_next :: "nat list \<Rightarrow> nat option \<times> nat list" where
  "utf8_next [] = (None, [])"
| "utf8_next (b # bs) =
    (if b < 128 then (Some b, bs)
     else if 194 \<le> b \<and> b < 224 then
       (case bs of
          c # cs \<Rightarrow> if is_cont c then (Some ((b - 192) * 64 + (c - 128)), cs) else (None, bs)
        | [] \<Rightarrow> (None, bs))
     else if 224 \<le> b \<and> b < 240 then
       (case bs of
          c # cs \<Rightarrow> if second_ok b c then
            (case cs of
               d # ds \<Rightarrow> if is_cont d
                 then (Some ((b - 224) * 4096 + (c - 128) * 64 + (d - 128)), ds) else (None, cs)
             | [] \<Rightarrow> (None, cs))
            else (None, bs)
        | [] \<Rightarrow> (None, bs))
     else if 240 \<le> b \<and> b < 245 then
       (case bs of
          c # cs \<Rightarrow> if second_ok b c then
            (case cs of
               d # ds \<Rightarrow> if is_cont d then
                 (case ds of
                    e # es \<Rightarrow> if is_cont e
                      then (Some ((b - 240) * 262144 + (c - 128) * 4096 + (d - 128) * 64 + (e - 128)), es)
                      else (None, ds)
                  | [] \<Rightarrow> (None, ds))
                 else (None, cs)
             | [] \<Rightarrow> (None, cs))
            else (None, bs)
        | [] \<Rightarrow> (None, bs))
     else (None, bs))"

lemma utf8_next_shorter: "bs \<noteq> [] \<Longrightarrow> length (snd (utf8_next bs)) < length bs"
  by (cases bs) (auto split: list.splits)

section \<open>Encoding one character\<close>

definition scalar_value :: "nat \<Rightarrow> bool" where
  "scalar_value c \<longleftrightarrow> c < 55296 \<or> (57344 \<le> c \<and> c < 1114112)"

definition encode_char :: "nat \<Rightarrow> nat list" where
  "encode_char c =
    (if c < 128 then [c]
     else if c < 2048 then [192 + c div 64, 128 + c mod 64]
     else if c < 65536 then [224 + c div 4096, 128 + c div 64 mod 64, 128 + c mod 64]
     else [240 + c div 262144, 128 + c div 4096 mod 64, 128 + c div 64 mod 64, 128 + c mod 64])"

text \<open>The base-64 digits of a code point.\<close>

lemma div_4096: "(c::nat) div 4096 = c div 64 div 64"
  by (simp add: div_mult2_eq [symmetric])

lemma div_262144: "(c::nat) div 262144 = c div 64 div 64 div 64"
  by (simp add: div_mult2_eq [symmetric])

lemma digits64:
  fixes c :: nat
  obtains r q where "c = 64 * q + r" and "r < 64" and "c div 64 = q" and "c mod 64 = r"
  by (rule that [of "c div 64" "c mod 64"]) simp_all

lemma digit_div_mod: "(r::nat) < 64 \<Longrightarrow> (64 * q + r) div 64 = q" "(r::nat) < 64 \<Longrightarrow> (64 * q + r) mod 64 = r"
  by simp_all

lemma utf8_next_encode:
  assumes "scalar_value c"
  shows "utf8_next (encode_char c @ rest) = (Some c, rest)"
proof -
  obtain r q where c: "c = 64 * q + r" "r < 64" "c div 64 = q" "c mod 64 = r"
    by (rule digits64)
  obtain r1 q1 where q: "q = 64 * q1 + r1" "r1 < 64" "q div 64 = q1" "q mod 64 = r1"
    by (rule digits64)
  obtain r2 q2 where q1: "q1 = 64 * q2 + r2" "r2 < 64" "q1 div 64 = q2" "q1 mod 64 = r2"
    by (rule digits64)
  note digits = div_4096 div_262144 c(3,4) q(3,4) q1(3,4)
  consider "c < 128" | "128 \<le> c" "c < 2048" | "2048 \<le> c" "c < 65536" | "65536 \<le> c" "c < 1114112"
    using assms unfolding scalar_value_def by linarith
  then show ?thesis
  proof cases
    case 1
    then show ?thesis by (simp add: encode_char_def)
  next
    case 2
    then have e: "encode_char c = [192 + q, 128 + r]" by (simp add: encode_char_def digits)
    from 2 c(1,2) have "2 \<le> q" "q < 32" by linarith+
    with c(1,2) show ?thesis unfolding e by (simp add: is_cont_def)
  next
    case 3
    then have e: "encode_char c = [224 + q1, 128 + r1, 128 + r]"
      by (simp add: encode_char_def digits)
    from 3 c(1,2) q(1,2) have "q1 < 16" "1 \<le> q1 \<or> 32 \<le> r1" by linarith+
    moreover have "q1 \<noteq> 13 \<or> r1 < 32"
      using assms c(1,2) q(1,2) unfolding scalar_value_def by linarith
    ultimately have "second_ok (224 + q1) (128 + r1)"
      using q(2) by (auto simp: second_ok_def is_cont_def)
    with \<open>q1 < 16\<close> c(1,2) q(1,2) show ?thesis unfolding e by (simp add: is_cont_def)
  next
    case 4
    then have e: "encode_char c = [240 + q2, 128 + r2, 128 + r1, 128 + r]"
      by (simp add: encode_char_def digits)
    from 4 c(1,2) q(1,2) q1(1,2) have "q2 < 5" "1 \<le> q2 \<or> 16 \<le> r2" "q2 \<noteq> 4 \<or> r2 < 16"
      by linarith+
    then have "second_ok (240 + q2) (128 + r2)"
      using q1(2) by (auto simp: second_ok_def is_cont_def)
    with \<open>q2 < 5\<close> c(1,2) q(1,2) q1(1,2) show ?thesis unfolding e by (simp add: is_cont_def)
  qed
qed

text \<open>Conversely, a character that was read is a scalar value, written as it is encoded.\<close>

lemma encode_two:
  assumes "194 \<le> b" "b < 224" "is_cont c"
  shows "encode_char ((b - 192) * 64 + (c - 128)) = [b, c]"
    and "scalar_value ((b - 192) * 64 + (c - 128))"
proof -
  define q r where "q = b - 192" and "r = c - 128"
  have "b = 192 + q" "c = 128 + r" "2 \<le> q" "q < 32" "r < 64"
    using assms by (auto simp: q_def r_def is_cont_def)
  then show "encode_char ((b - 192) * 64 + (c - 128)) = [b, c]"
    and "scalar_value ((b - 192) * 64 + (c - 128))"
    by (auto simp: encode_char_def scalar_value_def)
qed

lemma encode_three:
  assumes "224 \<le> b" "b < 240" "second_ok b c" "is_cont d"
  shows "encode_char ((b - 224) * 4096 + (c - 128) * 64 + (d - 128)) = [b, c, d]"
    and "scalar_value ((b - 224) * 4096 + (c - 128) * 64 + (d - 128))"
proof -
  define q r s where "q = b - 224" and "r = c - 128" and "s = d - 128"
  have b: "b = 224 + q" "c = 128 + r" "d = 128 + s" "q < 16" "r < 64" "s < 64"
    using assms by (auto simp: q_def r_def s_def is_cont_def second_ok_def)
  have *: "1 \<le> q \<or> 32 \<le> r" "q \<noteq> 13 \<or> r < 32"
    using assms b by (auto simp: second_ok_def)
  have n: "(b - 224) * 4096 + (c - 128) * 64 + (d - 128) = 64 * (64 * q + r) + s"
    by (simp add: q_def r_def s_def)
  have ge: "2048 \<le> 64 * (64 * q + r) + s"
    using *(1) b(4-6) by auto
  have lt: "64 * (64 * q + r) + s < 65536"
    using b(4-6) by auto
  have "(64 * (64 * q + r) + s) div 64 = 64 * q + r" "(64 * q + r) div 64 = q"
    "(64 * (64 * q + r) + s) mod 64 = s" "(64 * q + r) mod 64 = r"
    using b by (simp_all only: digit_div_mod)
  with ge lt b show "encode_char ((b - 224) * 4096 + (c - 128) * 64 + (d - 128)) = [b, c, d]"
    unfolding n by (simp add: encode_char_def div_4096)
  have "q \<le> 12 \<or> q = 13 \<and> r < 32 \<or> 14 \<le> q"
    using *(2) by linarith
  then show "scalar_value ((b - 224) * 4096 + (c - 128) * 64 + (d - 128))"
    unfolding n scalar_value_def using b(4-6) by auto
qed

lemma encode_four:
  assumes "240 \<le> b" "b < 245" "second_ok b c" "is_cont d" "is_cont e"
  shows "encode_char ((b - 240) * 262144 + (c - 128) * 4096 + (d - 128) * 64 + (e - 128)) = [b, c, d, e]"
    and "scalar_value ((b - 240) * 262144 + (c - 128) * 4096 + (d - 128) * 64 + (e - 128))"
proof -
  define q r s t where "q = b - 240" and "r = c - 128" and "s = d - 128" and "t = e - 128"
  have b: "b = 240 + q" "c = 128 + r" "d = 128 + s" "e = 128 + t" "q < 5" "r < 64" "s < 64" "t < 64"
    using assms by (auto simp: q_def r_def s_def t_def is_cont_def second_ok_def)
  have *: "1 \<le> q \<or> 16 \<le> r" "q \<noteq> 4 \<or> r < 16"
    using assms b by (auto simp: second_ok_def)
  have n: "(b - 240) * 262144 + (c - 128) * 4096 + (d - 128) * 64 + (e - 128)
      = 64 * (64 * (64 * q + r) + s) + t"
    by (simp add: q_def r_def s_def t_def)
  have ge: "65536 \<le> 64 * (64 * (64 * q + r) + s) + t"
    using *(1) b(5-8) by auto
  have "q \<le> 3 \<or> q = 4 \<and> r < 16"
    using *(2) b(5) by linarith
  then have lt: "64 * (64 * (64 * q + r) + s) + t < 1114112"
    using b(5-8) by auto
  have "(64 * (64 * (64 * q + r) + s) + t) div 64 = 64 * (64 * q + r) + s"
    "(64 * (64 * q + r) + s) div 64 = 64 * q + r" "(64 * q + r) div 64 = q"
    "(64 * (64 * (64 * q + r) + s) + t) mod 64 = t" "(64 * (64 * q + r) + s) mod 64 = s"
    "(64 * q + r) mod 64 = r"
    using b by (simp_all only: digit_div_mod)
  with ge lt b show
    "encode_char ((b - 240) * 262144 + (c - 128) * 4096 + (d - 128) * 64 + (e - 128)) = [b, c, d, e]"
    unfolding n by (simp add: encode_char_def div_4096 div_262144)
  show "scalar_value ((b - 240) * 262144 + (c - 128) * 4096 + (d - 128) * 64 + (e - 128))"
    unfolding n scalar_value_def using ge lt by linarith
qed

lemma encode_next:
  assumes "utf8_next bs = (Some c, rest)"
  shows "bs = encode_char c @ rest \<and> scalar_value c"
proof (cases bs)
  case Nil
  with assms show ?thesis by simp
next
  case (Cons b bs')
  show ?thesis
    using assms unfolding Cons
    by (auto split: if_splits list.splits simp: encode_two encode_three encode_four)
      (auto simp: encode_char_def scalar_value_def)
qed

section \<open>Whole strings\<close>

declare utf8_next.simps(2) [simp del]

lemma utf8_next_rest_shorter: "(r, cs) = utf8_next (b # bs) \<Longrightarrow> length cs < Suc (length bs)"
  using utf8_next_shorter [of "b # bs"] by (cases "utf8_next (b # bs)") simp

definition utf8_encode :: "nat list \<Rightarrow> nat list" where
  "utf8_encode cs = concat (map encode_char cs)"

function utf8_decode :: "nat list \<Rightarrow> nat list option" where
  "utf8_decode [] = Some []"
| "utf8_decode (b # bs) =
    (case utf8_next (b # bs) of
       (None, _) \<Rightarrow> None
     | (Some c, rest) \<Rightarrow> map_option (\<lambda>cs. c # cs) (utf8_decode rest))"
  by pat_completeness auto
termination
  by (relation "measure length") (auto dest: utf8_next_rest_shorter)

text \<open>Each maximal ill-formed part becomes one U+FFFD.\<close>

function utf8_lossy :: "nat list \<Rightarrow> nat list" where
  "utf8_lossy [] = []"
| "utf8_lossy (b # bs) =
    (case utf8_next (b # bs) of
       (None, rest) \<Rightarrow> 65533 # utf8_lossy rest
     | (Some c, rest) \<Rightarrow> c # utf8_lossy rest)"
  by pat_completeness auto
termination
  by (relation "measure length") (auto dest: utf8_next_rest_shorter)

lemma encode_char_not_Nil [simp]: "encode_char c \<noteq> []"
  by (simp add: encode_char_def)

lemma utf8_encode_simps [simp]:
  "utf8_encode [] = []" "utf8_encode (c # cs) = encode_char c @ utf8_encode cs"
  "utf8_encode (xs @ ys) = utf8_encode xs @ utf8_encode ys"
  by (simp_all add: utf8_encode_def)

lemma utf8_decode_step:
  assumes "utf8_next bs = (Some c, rest)"
  shows "utf8_decode bs = map_option (\<lambda>cs. c # cs) (utf8_decode rest)"
  using assms by (cases bs) simp_all

lemma utf8_decode_encode: "list_all scalar_value cs \<Longrightarrow> utf8_decode (utf8_encode cs) = Some cs"
  by (induction cs) (simp_all add: utf8_decode_step [OF utf8_next_encode])

lemma utf8_encode_decode:
  "utf8_decode bs = Some cs \<Longrightarrow> utf8_encode cs = bs \<and> list_all scalar_value cs"
proof (induction bs arbitrary: cs rule: utf8_decode.induct)
  case (2 b bs)
  from "2.prems" obtain c rest cs' where
    n: "utf8_next (b # bs) = (Some c, rest)" and d: "utf8_decode rest = Some cs'" and cs: "cs = c # cs'"
    by (auto split: prod.splits option.splits)
  from "2.IH" [OF n [symmetric] refl d] encode_next [OF n] show ?case
    by (simp add: cs)
qed simp

lemma utf8_decode_lossy: "utf8_decode bs = Some cs \<Longrightarrow> utf8_lossy bs = cs"
  by (induction bs arbitrary: cs rule: utf8_decode.induct) (auto split: prod.splits option.splits)

lemma utf8_lossy_scalar: "list_all scalar_value (utf8_lossy bs)"
proof (induction bs rule: utf8_lossy.induct)
  case (2 b bs)
  then show ?case
    by (auto split: prod.splits option.splits dest: encode_next) (simp add: scalar_value_def)
qed simp

section \<open>Codecs\<close>

text \<open>
  An encoding that can be read back. \<open>codec\<close> adds that nothing else is read: the decoder accepts
  exactly the encoder's output.
\<close>

locale decodable =
  fixes enc :: "'a list \<Rightarrow> 'b list" and dec :: "'b list \<Rightarrow> 'a list option" and ok :: "'a \<Rightarrow> bool"
  assumes enc_append: "enc (xs @ ys) = enc xs @ enc ys"
    and dec_enc: "list_all ok xs \<Longrightarrow> dec (enc xs) = Some xs"
begin

lemma enc_inject: "list_all ok xs \<Longrightarrow> list_all ok ys \<Longrightarrow> enc xs = enc ys \<longleftrightarrow> xs = ys"
  by (metis dec_enc option.inject)

lemma dec_enc_append: "list_all ok xs \<Longrightarrow> list_all ok ys \<Longrightarrow> dec (enc xs @ enc ys) = Some (xs @ ys)"
  using dec_enc [of "xs @ ys"] by (simp add: enc_append)

end

locale codec = decodable +
  assumes enc_dec: "dec bs = Some xs \<Longrightarrow> enc xs = bs \<and> list_all ok xs"
begin

lemma dec_Some_iff: "dec bs = Some xs \<longleftrightarrow> list_all ok xs \<and> enc xs = bs"
  using enc_dec dec_enc by blast

lemma dec_inject: "dec bs = Some xs \<Longrightarrow> dec cs = Some xs \<Longrightarrow> bs = cs"
  using enc_dec by blast

lemma dec_append: "dec bs = Some xs \<Longrightarrow> dec cs = Some ys \<Longrightarrow> dec (bs @ cs) = Some (xs @ ys)"
  by (simp add: dec_Some_iff enc_append)

end

interpretation utf8: codec utf8_encode utf8_decode scalar_value
  by unfold_locales (simp_all add: utf8_decode_encode utf8_encode_decode)

section \<open>Rust strings\<close>

definition byte_values :: "string \<Rightarrow> nat list" where
  "byte_values s = map of_char s"

definition utf8_valid :: "string \<Rightarrow> bool" where
  "utf8_valid s \<longleftrightarrow> utf8_decode (byte_values s) \<noteq> None"

definition from_utf8 :: "string \<Rightarrow> string result" where
  "from_utf8 s = (if utf8_valid s then Inr s else Inl Utf8Error)"

definition chars :: "string \<Rightarrow> nat list" where
  "chars s = (case utf8_decode (byte_values s) of Some cs \<Rightarrow> cs | None \<Rightarrow> [])"

definition of_chars :: "nat list \<Rightarrow> string" where
  "of_chars cs = map char_of (utf8_encode cs)"

definition to_string_lossy :: "string \<Rightarrow> string" where
  "to_string_lossy s = of_chars (utf8_lossy (byte_values s))"

lemma utf8_validE:
  assumes "utf8_valid s"
  obtains cs where "utf8_decode (byte_values s) = Some cs" and "chars s = cs"
  using assms by (auto simp: utf8_valid_def chars_def)

lemma from_utf8_Inr [result_simps]: "from_utf8 s = Inr t \<longleftrightarrow> utf8_valid s \<and> t = s"
  by (auto simp: from_utf8_def)

lemma from_utf8_Inl [result_simps]: "from_utf8 s = Inl e \<longleftrightarrow> \<not> utf8_valid s \<and> e = Utf8Error"
  by (auto simp: from_utf8_def)

lemma byte_values_simps [simp]:
  "byte_values [] = []" "byte_values (c # s) = of_char c # byte_values s"
  "byte_values (s @ t) = byte_values s @ byte_values t" "length (byte_values s) = length s"
  by (simp_all add: byte_values_def)

lemma encode_char_byte: "scalar_value c \<Longrightarrow> \<forall>b\<in>set (encode_char c). b < 256"
  by (auto simp: encode_char_def scalar_value_def div_4096 div_262144)

lemma utf8_encode_byte: "list_all scalar_value cs \<Longrightarrow> \<forall>b\<in>set (utf8_encode cs). b < 256"
  by (induction cs) (auto dest: encode_char_byte)

lemma byte_values_of_chars: "list_all scalar_value cs \<Longrightarrow> byte_values (of_chars cs) = utf8_encode cs"
  using utf8_encode_byte [of cs]
  by (auto simp: byte_values_def of_chars_def comp_def intro!: map_idI)

lemma map_char_of_byte_values [simp]: "map char_of (byte_values s) = s"
  by (simp add: byte_values_def comp_def)

lemma byte_values_inject [simp]: "byte_values s = byte_values t \<longleftrightarrow> s = t"
  by (metis map_char_of_byte_values)

lemma chars_of_chars: "list_all scalar_value cs \<Longrightarrow> chars (of_chars cs) = cs"
  by (simp add: chars_def byte_values_of_chars utf8_decode_encode)

lemma utf8_valid_of_chars: "list_all scalar_value cs \<Longrightarrow> utf8_valid (of_chars cs)"
  by (simp add: utf8_valid_def byte_values_of_chars utf8_decode_encode)

lemma of_chars_chars: "utf8_valid s \<Longrightarrow> of_chars (chars s) = s"
  by (erule utf8_validE) (simp add: of_chars_def utf8_encode_decode)

lemma chars_scalar: "list_all scalar_value (chars s)"
  by (auto simp: chars_def split: option.splits dest: utf8_encode_decode)

lemma to_string_lossy_valid: "utf8_valid (to_string_lossy s)"
  by (simp add: to_string_lossy_def utf8_valid_of_chars utf8_lossy_scalar)

lemma to_string_lossy_id: "utf8_valid s \<Longrightarrow> to_string_lossy s = s"
  by (erule utf8_validE) (simp add: to_string_lossy_def of_chars_def utf8_decode_lossy utf8_encode_decode)

lemma utf8_decode_append:
  assumes "utf8_valid s" and "utf8_valid t"
  shows "utf8_decode (byte_values (s @ t)) = Some (chars s @ chars t)"
  using assms by (elim utf8_validE) (simp add: utf8.dec_append)

lemma utf8_valid_append: "utf8_valid s \<Longrightarrow> utf8_valid t \<Longrightarrow> utf8_valid (s @ t)"
  unfolding utf8_valid_def [of "s @ t"] by (simp only: utf8_decode_append) simp

lemma chars_append: "utf8_valid s \<Longrightarrow> utf8_valid t \<Longrightarrow> chars (s @ t) = chars s @ chars t"
  unfolding chars_def [of "s @ t"] by (simp only: utf8_decode_append) simp

text \<open>ASCII text is its own decoding.\<close>

definition ascii :: "string \<Rightarrow> bool" where
  "ascii s \<longleftrightarrow> list_all (\<lambda>c. (of_char c :: nat) < 128) s"

lemma utf8_decode_ascii: "ascii s \<Longrightarrow> utf8_decode (byte_values s) = Some (byte_values s)"
  by (induction s) (simp_all add: ascii_def utf8_next.simps)

lemma ascii_utf8_valid: "ascii s \<Longrightarrow> utf8_valid s"
  by (simp add: utf8_valid_def utf8_decode_ascii)

lemma chars_ascii: "ascii s \<Longrightarrow> chars s = byte_values s"
  by (simp add: chars_def utf8_decode_ascii)

lemma of_chars_byte_values: "ascii s \<Longrightarrow> of_chars (byte_values s) = s"
  using of_chars_chars [OF ascii_utf8_valid] by (metis chars_ascii)

section \<open>Cutting a string at an ASCII character\<close>

lemma encode_char_ascii: "encode_char c = xs @ b # ys \<Longrightarrow> b < 128 \<Longrightarrow> b = c \<and> xs = [] \<and> ys = []"
  by (cases xs) (auto simp: encode_char_def Cons_eq_append_conv split: if_splits)

lemma encode_char_high: "c \<ge> 128 \<Longrightarrow> b \<in> set (encode_char c) \<Longrightarrow> b \<ge> 128"
  by (auto simp: encode_char_def split: if_splits)

lemma utf8_encode_split_ascii:
  assumes "utf8_encode cs = xs @ b # ys" and "b < 128"
  obtains cs1 cs2 where "cs = cs1 @ b # cs2" "utf8_encode cs1 = xs" "utf8_encode cs2 = ys"
  using assms(1)
proof (induction cs arbitrary: xs thesis)
  case (Cons c cs)
  show ?case
  proof (cases "c < 128")
    case True
    then have enc: "encode_char c = [c]" by (simp add: encode_char_def)
    show ?thesis
    proof (cases xs)
      case Nil
      then show ?thesis using Cons.prems enc by (intro Cons.prems(1) [of "[]" cs]) auto
    next
      case (Cons x xs')
      then have "utf8_encode cs = xs' @ b # ys" "x = c" using Cons.prems(2) enc by auto
      then show ?thesis using Cons.IH Cons.prems(1) enc Cons
        by (metis append_Cons utf8_encode_simps(2) append_Nil)
    qed
  next
    case False
    then have high: "b \<notin> set (encode_char c)" using encode_char_high [of c b] assms(2) by auto
    from Cons.prems(2) have "encode_char c @ utf8_encode cs = xs @ b # ys" by simp
    with high obtain zs where zs: "xs = encode_char c @ zs" "utf8_encode cs = zs @ b # ys"
      by (auto simp: append_eq_append_conv2 append_eq_Cons_conv)
    from Cons.IH [OF _ zs(2)] obtain cs1 cs2 where "cs = cs1 @ b # cs2" "utf8_encode cs1 = zs" "utf8_encode cs2 = ys"
      by blast
    then show ?thesis using zs(1) by (intro Cons.prems(1) [of "c # cs1" cs2]) simp_all
  qed
qed simp

lemma utf8_valid_encode: "utf8_valid s \<longleftrightarrow> (\<exists>cs. list_all scalar_value cs \<and> byte_values s = utf8_encode cs)"
  by (metis not_None_eq utf8.dec_Some_iff utf8_valid_def)

lemma utf8_valid_split_ascii:
  assumes "utf8_valid (a @ c # b)" and "(of_char c :: nat) < 128"
  shows "utf8_valid a" and "utf8_valid b"
proof -
  obtain cs where cs: "list_all scalar_value cs" "utf8_encode cs = byte_values a @ of_char c # byte_values b"
    using assms(1) unfolding utf8_valid_encode by auto
  from cs(2) assms(2) obtain cs1 cs2 where "cs = cs1 @ of_char c # cs2"
      "utf8_encode cs1 = byte_values a" "utf8_encode cs2 = byte_values b"
    by (rule utf8_encode_split_ascii)
  with cs(1) show "utf8_valid a" "utf8_valid b"
    unfolding utf8_valid_encode by (metis list.pred_inject(2) list_all_append)+
qed

lemma utf8_valid_Cons_ascii: "(of_char c :: nat) < 128 \<Longrightarrow> utf8_valid (c # s) \<longleftrightarrow> utf8_valid s"
  using utf8_valid_split_ascii [of "[]" c s] utf8_valid_append [of "[c]" s] ascii_utf8_valid [of "[c]"]
  by (auto simp: ascii_def)

text \<open>\<open>str::is_char_boundary\<close>; a slice at another index panics.\<close>

definition is_char_boundary :: "string \<Rightarrow> nat \<Rightarrow> bool" where
  "is_char_boundary s i \<longleftrightarrow> i = 0 \<or> i = length s \<or> i < length s \<and> \<not> is_cont (of_char (s ! i))"

lemma utf8_encode_no_cont: "cs \<noteq> [] \<Longrightarrow> list_all scalar_value cs \<Longrightarrow> \<not> is_cont (hd (utf8_encode cs))"
  by (cases cs) (auto simp: encode_char_def is_cont_def scalar_value_def div_4096 div_262144)

lemma char_boundary_append:
  assumes "utf8_valid b"
  shows "is_char_boundary (a @ b) (length a)"
proof (cases b)
  case (Cons c d)
  obtain cs where cs: "list_all scalar_value cs" "byte_values b = utf8_encode cs"
    using assms unfolding utf8_valid_encode by blast
  then have "cs \<noteq> []" using Cons by auto
  then have "\<not> is_cont (hd (byte_values b))" using utf8_encode_no_cont cs by simp
  then show ?thesis using Cons by (simp add: is_char_boundary_def nth_append)
qed (simp add: is_char_boundary_def)

end
