(* ===== verification/RustStr.thy ===== *)
theory RustStr imports Utf8 begin

text \<open>
  The methods of \<open>str\<close> that the sources call, on the bytes of the string: \<open>starts_with\<close>,
  \<open>strip_prefix\<close>, \<open>find\<close>, \<open>contains\<close>, \<open>split_once\<close>, \<open>splitn(2, _)\<close>, \<open>parse::<u64>\<close>,
  \<open>to_string\<close> of an integer, \<open>trim_end\<close> and \<open>char::is_control\<close>. A search for valid UTF-8 in valid
  UTF-8 finds the same place on bytes as on characters.
\<close>

section \<open>Prefixes and searching\<close>

fun starts_with :: "string \<Rightarrow> string \<Rightarrow> bool" where
  "starts_with [] s = True"
| "starts_with (p # ps) [] = False"
| "starts_with (p # ps) (c # cs) = (p = c \<and> starts_with ps cs)"

definition strip_prefix :: "string \<Rightarrow> string \<Rightarrow> string option" where
  "strip_prefix p s = (if starts_with p s then Some (drop (length p) s) else None)"

text \<open>\<open>str::find\<close>: the offset of the first occurrence.\<close>

fun find_sub :: "string \<Rightarrow> string \<Rightarrow> nat option" where
  "find_sub p [] = (if p = [] then Some 0 else None)"
| "find_sub p (c # cs) =
    (if starts_with p (c # cs) then Some 0 else map_option Suc (find_sub p cs))"

definition contains :: "string \<Rightarrow> string \<Rightarrow> bool" where
  "contains p s \<longleftrightarrow> find_sub p s \<noteq> None"

lemma starts_with_iff: "starts_with p s \<longleftrightarrow> (\<exists>t. s = p @ t)"
  by (induction p s rule: starts_with.induct) auto

lemma starts_with_append [simp]: "starts_with p (p @ s)"
  by (auto simp: starts_with_iff)

lemma strip_prefix_Some: "strip_prefix p s = Some t \<longleftrightarrow> s = p @ t"
  by (auto simp: strip_prefix_def starts_with_iff)

lemma strip_prefix_append [simp]: "strip_prefix p (p @ s) = Some s"
  by (simp add: strip_prefix_Some)

lemma find_sub_Some: "find_sub p s = Some i \<Longrightarrow> \<exists>a b. s = a @ p @ b \<and> length a = i"
proof (induction s arbitrary: i)
  case Nil
  then show ?case by (auto split: if_splits)
next
  case (Cons c cs)
  show ?case
  proof (cases "starts_with p (c # cs)")
    case True
    with Cons.prems show ?thesis by (auto simp: starts_with_iff)
  next
    case False
    with Cons.prems obtain j where "find_sub p cs = Some j" and "i = Suc j" by auto
    with Cons.IH obtain a b where "cs = a @ p @ b" and "length a = j" by blast
    with \<open>i = Suc j\<close> have "c # cs = (c # a) @ p @ b \<and> length (c # a) = i" by simp
    then show ?thesis by blast
  qed
qed

lemma find_sub_None: "find_sub p s = None \<longleftrightarrow> (\<nexists>a b. s = a @ p @ b)"
proof (induction s)
  case (Cons c cs)
  have "(\<exists>a b. c # cs = a @ p @ b) \<longleftrightarrow> starts_with p (c # cs) \<or> (\<exists>a b. cs = a @ p @ b)"
    by (auto simp: starts_with_iff Cons_eq_append_conv)
  with Cons.IH show ?case by auto
qed auto

lemma contains_iff: "contains p s \<longleftrightarrow> (\<exists>a b. s = a @ p @ b)"
  using find_sub_None [of p s] by (simp add: contains_def)

text \<open>The first occurrence: no earlier position matches.\<close>

lemma find_sub_least: "find_sub p s = Some i \<Longrightarrow> j < i \<Longrightarrow> \<not> starts_with p (drop j s)"
proof (induction s arbitrary: i j)
  case (Cons c cs)
  then show ?case by (cases j) (auto split: if_splits)
qed (auto split: if_splits)

lemma find_sub_skip:
  "p \<noteq> [] \<Longrightarrow> hd p \<notin> set pre \<Longrightarrow>
     find_sub p (pre @ s) = map_option (\<lambda>i. length pre + i) (find_sub p s)"
proof (induction pre)
  case (Cons c pre)
  then have "\<not> starts_with p (c # pre @ s)" by (cases p) auto
  with Cons show ?case by (cases "find_sub p s") auto
next
  case Nil
  then show ?case by (cases "find_sub p s") auto
qed

lemma find_sub_char:
  "find_sub [c] s = (if c \<in> set s then Some (length (takeWhile (\<lambda>d. d \<noteq> c) s)) else None)"
  by (induction s) auto

lemma contains_char: "contains [c] s \<longleftrightarrow> c \<in> set s"
  by (simp add: contains_def find_sub_char)

section \<open>Splitting\<close>

text \<open>\<open>s.split_once(c)\<close> and \<open>s.splitn(2, c).collect()\<close>.\<close>

definition split_once :: "char \<Rightarrow> string \<Rightarrow> (string \<times> string) option" where
  "split_once c s = (case find_sub [c] s of None \<Rightarrow> None | Some i \<Rightarrow> Some (take i s, drop (Suc i) s))"

definition splitn2 :: "char \<Rightarrow> string \<Rightarrow> string list" where
  "splitn2 c s = (case split_once c s of None \<Rightarrow> [s] | Some (k, v) \<Rightarrow> [k, v])"

lemma split_once_append: "c \<notin> set k \<Longrightarrow> split_once c (k @ c # v) = Some (k, v)"
proof -
  assume "c \<notin> set k"
  then have "\<forall>d\<in>set k. d \<noteq> c" by auto
  then have "find_sub [c] (k @ c # v) = Some (length k)"
    by (simp add: find_sub_char takeWhile_append_stop)
  then show ?thesis by (simp add: split_once_def)
qed

lemma split_once_None: "split_once c s = None \<longleftrightarrow> c \<notin> set s"
  by (auto simp: split_once_def find_sub_char)

lemma split_once_Some: "split_once c s = Some (k, v) \<longleftrightarrow> c \<notin> set k \<and> s = k @ c # v"
proof
  assume some: "split_once c s = Some (k, v)"
  then have "c \<in> set s" using split_once_None [of c s] by auto
  then obtain k' v' where "s = k' @ c # v'" and "c \<notin> set k'"
    by (auto dest: split_list_first)
  with some show "c \<notin> set k \<and> s = k @ c # v" by (auto simp: split_once_append)
qed (auto simp: split_once_append)

section \<open>Numbers\<close>

definition digit_value :: "char \<Rightarrow> nat option" where
  "digit_value c = (let n = of_char c in if 48 \<le> n \<and> n < 58 then Some (n - 48) else None)"

text \<open>\<open>from_str_radix(10)\<close>: the accumulator is checked against overflow at each digit.\<close>

fun parse_digits :: "nat \<Rightarrow> string \<Rightarrow> nat option" where
  "parse_digits acc [] = Some acc"
| "parse_digits acc (c # cs) =
    (case digit_value c of
       None \<Rightarrow> None
     | Some d \<Rightarrow> if acc * 10 + d < 2 ^ 64 then parse_digits (acc * 10 + d) cs else None)"

definition parse_u64 :: "string \<Rightarrow> nat result" where
  "parse_u64 s =
    (case s of
       [] \<Rightarrow> Inl ParseIntError
     | c # cs \<Rightarrow>
        if c = CHR ''+'' then (if cs = [] then Inl ParseIntError else ok_or ParseIntError (parse_digits 0 cs))
        else ok_or ParseIntError (parse_digits 0 s))"

text \<open>For evaluation, the bound as a binary number.\<close>

lemma parse_digits_code [code]:
  "parse_digits acc [] = Some acc"
  "parse_digits acc (c # cs) =
    (case digit_value c of
       None \<Rightarrow> None
     | Some d \<Rightarrow> if int acc * 10 + int d < 18446744073709551616 then parse_digits (acc * 10 + d) cs else None)"
proof -
  have "acc * 10 + d < 2 ^ 64 \<longleftrightarrow> int acc * 10 + int d < 18446744073709551616" for d
    by simp linarith
  then show "parse_digits acc (c # cs) =
    (case digit_value c of
       None \<Rightarrow> None
     | Some d \<Rightarrow> if int acc * 10 + int d < 18446744073709551616 then parse_digits (acc * 10 + d) cs else None)"
    by (simp split: option.split)
qed simp

definition digit_char :: "nat \<Rightarrow> char" where
  "digit_char d = char_of (48 + d)"

fun show_nat :: "nat \<Rightarrow> string" where
  "show_nat n = (if n < 10 then [digit_char n] else show_nat (n div 10) @ [digit_char (n mod 10)])"

declare show_nat.simps [simp del]

lemma digit_value_char: "d < 10 \<Longrightarrow> digit_value (digit_char d) = Some d"
  by (simp add: digit_value_def digit_char_def Let_def)

lemma digit_char_not_plus: "d < 10 \<Longrightarrow> digit_char d \<noteq> CHR ''+''"
proof
  assume "d < 10" and "digit_char d = CHR ''+''"
  then have "of_char (digit_char d) = (43::nat)" by simp
  with \<open>d < 10\<close> show False by (simp add: digit_char_def)
qed

lemma parse_digits_append:
  "parse_digits acc (s @ t) = Option.bind (parse_digits acc s) (\<lambda>n. parse_digits n t)"
  by (induction s arbitrary: acc) (auto split: option.splits)

lemma show_nat_digits: "\<exists>d ds. show_nat n = digit_char d # ds \<and> d < 10"
proof (induction n rule: show_nat.induct)
  case (1 n)
  show ?case
  proof (cases "n < 10")
    case True
    then show ?thesis by (auto simp: show_nat.simps [of n])
  next
    case False
    with 1 obtain d ds where "show_nat (n div 10) = digit_char d # ds" and "d < 10" by blast
    with False have "show_nat n = digit_char d # ds @ [digit_char (n mod 10)]"
      by (simp add: show_nat.simps [of n])
    with \<open>d < 10\<close> show ?thesis by blast
  qed
qed

lemma parse_show_digits: "n < 2 ^ 64 \<Longrightarrow> parse_digits 0 (show_nat n) = Some n"
proof (induction n rule: show_nat.induct)
  case (1 n)
  show ?case
  proof (cases "n < 10")
    case True
    then show ?thesis by (simp add: show_nat.simps [of n] digit_value_char)
  next
    case False
    with 1 have "parse_digits 0 (show_nat (n div 10)) = Some (n div 10)" by simp
    moreover have "n div 10 * 10 + n mod 10 < 2 ^ 64" using 1 by simp
    ultimately show ?thesis
      using False by (simp add: show_nat.simps [of n] parse_digits_append digit_value_char)
  qed
qed

lemma parse_u64_show_nat: "n < 2 ^ 64 \<Longrightarrow> parse_u64 (show_nat n) = Inr n"
  using parse_show_digits [of n] show_nat_digits [of n] digit_char_not_plus
  by (auto simp: parse_u64_def)

lemma parse_digits_bound: "acc < 2 ^ 64 \<Longrightarrow> parse_digits acc s = Some n \<Longrightarrow> n < 2 ^ 64"
  by (induction s arbitrary: acc) (auto split: option.splits if_splits)

lemma parse_u64_bound: "parse_u64 s = Inr n \<Longrightarrow> n < 2 ^ 64"
  by (auto simp: parse_u64_def result_simps simp del: parse_digits.simps
      split: list.splits if_splits dest!: parse_digits_bound [rotated])

section \<open>Character classes\<close>

definition is_control :: "nat \<Rightarrow> bool" where
  "is_control c \<longleftrightarrow> c < 32 \<or> (127 \<le> c \<and> c < 160)"

text \<open>The Unicode \<open>White_Space\<close> characters.\<close>

definition is_whitespace :: "nat \<Rightarrow> bool" where
  "is_whitespace c \<longleftrightarrow> (9 \<le> c \<and> c \<le> 13) \<or> c \<in> {32, 133, 160, 5760, 8232, 8233, 8239, 8287, 12288}
     \<or> (8192 \<le> c \<and> c \<le> 8202)"

definition trim_end :: "string \<Rightarrow> string" where
  "trim_end s = of_chars (rev (dropWhile is_whitespace (rev (chars s))))"

definition is_ascii_alphanumeric :: "char \<Rightarrow> bool" where
  "is_ascii_alphanumeric c = (let n = of_char c :: nat in
     (48 \<le> n \<and> n < 58) \<or> (65 \<le> n \<and> n < 91) \<or> (97 \<le> n \<and> n < 123))"

lemma trim_end_decomp:
  assumes "utf8_valid s"
  shows "\<exists>ws. list_all is_whitespace ws \<and> list_all scalar_value ws \<and> s = trim_end s @ of_chars ws"
proof -
  let ?r = "rev (chars s)"
  let ?ws = "rev (takeWhile is_whitespace ?r)"
  have split: "chars s = rev (dropWhile is_whitespace ?r) @ ?ws"
    by (metis rev_append rev_rev_ident takeWhile_dropWhile_id)
  have "list_all scalar_value (rev (dropWhile is_whitespace ?r) @ ?ws)"
    using chars_scalar [of s] split by simp
  then have "list_all scalar_value ?ws" by simp
  moreover have "list_all is_whitespace ?ws"
    by (auto simp: list_all_iff dest: set_takeWhileD)
  moreover have "s = trim_end s @ of_chars ?ws"
    using of_chars_chars [OF assms] split by (metis map_append of_chars_def trim_end_def utf8_encode_simps(3))
  ultimately show ?thesis by blast
qed

lemma trim_end_length: "utf8_valid s \<Longrightarrow> length (trim_end s) \<le> length s"
  using trim_end_decomp [of s] by (metis le_add1 length_append)

lemma trim_end_valid: "utf8_valid (trim_end s)"
proof -
  have "set (dropWhile is_whitespace (rev (chars s))) \<subseteq> set (chars s)"
    using set_dropWhileD by fastforce
  then have "list_all scalar_value (rev (dropWhile is_whitespace (rev (chars s))))"
    using chars_scalar [of s] by (auto simp: list_all_iff)
  then show ?thesis by (simp add: trim_end_def utf8_valid_of_chars)
qed

lemma trim_end_ascii:
  assumes "ascii s" and "c = CHR '' '' \<or> s = t" and "s = t @ (if s = t then [] else [c])"
    and "t = [] \<or> \<not> is_whitespace (of_char (last t))"
  shows "trim_end s = t"
proof -
  have t: "ascii t" using assms(1,3) by (metis append_Nil2 ascii_def list_all_append)
  have "dropWhile is_whitespace (rev (byte_values t)) = rev (byte_values t)"
    using assms(4) by (cases t rule: rev_cases) auto
  moreover have "is_whitespace (of_char (CHR '' ''))" by (simp add: is_whitespace_def)
  ultimately have "rev (dropWhile is_whitespace (rev (byte_values s))) = byte_values t"
    using assms(2,3) by (cases "s = t") auto
  then show ?thesis
    using assms(1) t by (simp add: trim_end_def chars_ascii of_chars_byte_values)
qed

end
