(* ===== verification/Environment.thy ===== *)
theory Environment imports RustStr begin

text \<open>
  \<open>environment.rs\<close>: the \<open>Environment\<close> trait and its one implementation outside the tests,
  \<open>UnixEnvironment\<close>. A trait object is a record of its methods. What the implementation reads of
  the machine (the user database of the crate \<open>uzers\<close>, the host name of the crate \<open>hostname\<close>, the
  environment of the process) is the record \<open>host\<close>; it is taken not to change during one call of
  the module. An \<open>OsStr\<close> is a byte string that need not be UTF-8.
\<close>

section \<open>The machine\<close>

type_synonym uid = "32 word"

record user =
  user_name :: string
  user_uid :: uid
  user_primary_gid :: "32 word"
  user_home_dir :: string

record host =
  get_user_by_name :: "string \<Rightarrow> user option"
  hostname_get :: "io_error + string"
  environ :: "string \<Rightarrow> string option"

text \<open>\<open>std::env::var\<close>.\<close>

datatype var_error = NotPresent | NotUnicode

definition env_var :: "host \<Rightarrow> string \<Rightarrow> var_error + string" where
  "env_var hst name = (case environ hst name of
     None \<Rightarrow> Inl NotPresent
   | Some v \<Rightarrow> (if utf8_valid v then Inr v else Inl NotUnicode))"

lemma env_var_Inr: "env_var hst name = Inr v \<longleftrightarrow> environ hst name = Some v \<and> utf8_valid v"
  by (auto simp: env_var_def split: option.splits)

section \<open>The trait\<close>

record environment =
  env_get_homedir :: "string \<Rightarrow> string result"
  env_get_hostname :: "string result"
  env_get_fqdn :: "string result"
  env_get_uid :: "string \<Rightarrow> uid result"
  env_get_env :: "string \<Rightarrow> string option"

section \<open>\<open>UnixEnvironment\<close>\<close>

definition get_uid :: "host \<Rightarrow> string \<Rightarrow> uid result" where
  "get_uid hst user =
     and_then (ok_or (Anyhow ''Failed to look up user with username {}'' [Str user])
       (get_user_by_name hst user)) (\<lambda>u. Inr (user_uid u))"

definition get_hostname :: "host \<Rightarrow> string result" where
  "get_hostname hst =
     and_then (map_err (\<lambda>e. Anyhow ''Failed to obtain hostname: {}'' [IoArg e]) (hostname_get hst))
       (\<lambda>name. Inr (to_string_lossy name))"

definition unix_get_homedir :: "host \<Rightarrow> string \<Rightarrow> string result" where
  "unix_get_homedir hst user = (case get_user_by_name hst user of
     Some u \<Rightarrow> Inr (to_string_lossy (user_home_dir u))
   | None \<Rightarrow> Inl (Anyhow ''homedir for {} not found'' [Str user]))"

text \<open>\<open>hostname.split('.').next()\<close>: the first piece always exists.\<close>

definition unix_get_hostname :: "host \<Rightarrow> string result" where
  "unix_get_hostname hst =
     and_then (get_hostname hst) (\<lambda>name. Inr (takeWhile (\<lambda>c. c \<noteq> CHR ''.'') name))"

definition unix_get_env :: "host \<Rightarrow> string \<Rightarrow> string option" where
  "unix_get_env hst name = (case env_var hst name of Inr v \<Rightarrow> Some v | Inl _ \<Rightarrow> None)"

definition unix_environment :: "host \<Rightarrow> environment" where
  "unix_environment hst = \<lparr>
     env_get_homedir = unix_get_homedir hst,
     env_get_hostname = unix_get_hostname hst,
     env_get_fqdn = get_hostname hst,
     env_get_uid = get_uid hst,
     env_get_env = unix_get_env hst \<rparr>"

lemma unix_environment_simps [simp]:
  "env_get_homedir (unix_environment hst) = unix_get_homedir hst"
  "env_get_hostname (unix_environment hst) = unix_get_hostname hst"
  "env_get_fqdn (unix_environment hst) = get_hostname hst"
  "env_get_uid (unix_environment hst) = get_uid hst"
  "env_get_env (unix_environment hst) = unix_get_env hst"
  by (simp_all add: unix_environment_def)

section \<open>What the values look like\<close>

text \<open>The host name is the label of the fully qualified name before its first dot.\<close>

lemma unix_get_hostname_label:
  assumes "get_hostname hst = Inr fqdn"
  obtains label where "unix_get_hostname hst = Inr label" and "CHR ''.'' \<notin> set label"
    and "fqdn = label \<or> (\<exists>domain. fqdn = label @ ''.'' @ domain)"
proof
  let ?label = "takeWhile (\<lambda>c. c \<noteq> CHR ''.'') fqdn"
  show "unix_get_hostname hst = Inr ?label"
    using assms by (simp add: unix_get_hostname_def)
  show "CHR ''.'' \<notin> set ?label"
    by (auto dest: set_takeWhileD)
  show "fqdn = ?label \<or> (\<exists>domain. fqdn = ?label @ ''.'' @ domain)"
  proof (cases "dropWhile (\<lambda>c. c \<noteq> CHR ''.'') fqdn")
    case Nil
    then show ?thesis by (metis append.right_neutral takeWhile_dropWhile_id)
  next
    case (Cons c domain)
    then have "c = CHR ''.''"
      using hd_dropWhile [of "\<lambda>c. c \<noteq> CHR ''.''" fqdn] by auto
    with Cons show ?thesis
      by (metis append_Cons append_Nil takeWhile_dropWhile_id)
  qed
qed

text \<open>Home directories and names with bytes that are not UTF-8 are repaired, never rejected.\<close>

lemma utf8_valid_homedir: "unix_get_homedir hst u = Inr d \<Longrightarrow> utf8_valid d"
  by (auto simp: unix_get_homedir_def to_string_lossy_valid split: option.splits)

lemma utf8_valid_fqdn: "get_hostname hst = Inr d \<Longrightarrow> utf8_valid d"
  by (auto simp: get_hostname_def to_string_lossy_valid result_simps)

lemma unix_get_env_Some:
  "unix_get_env hst name = Some v \<longleftrightarrow> environ hst name = Some v \<and> utf8_valid v"
  by (auto simp: unix_get_env_def env_var_def split: option.splits)

text \<open>A user \<open>ann\<close> on the host \<open>web.example.org\<close>, for the concrete instances of the properties.\<close>

definition example_user :: user where
  "example_user = \<lparr>user_name = ''ann'', user_uid = 1000, user_primary_gid = 100, user_home_dir = ''/home/ann''\<rparr>"

definition example_host :: host where
  "example_host = \<lparr>get_user_by_name = (\<lambda>n. if n = ''ann'' then Some example_user else None),
     hostname_get = Inr ''web.example.org'', environ = (\<lambda>_. None)\<rparr>"

end
