(* ===== verification/PamConstants.thy ===== *)
theory PamConstants imports Prelude begin

text \<open>
  The platform constants of \<open>vendor/pam-bindings\<close> (\<open>linux_constants.rs\<close>, \<open>macos_constants.rs\<close>,
  \<open>items.rs\<close>): the enums and the conversion of a raw \<open>c_int\<close> to a \<open>PamResultCode\<close>. The source
  compiles one of the two platform files; the model has both, selected by a \<open>platform\<close>, over one
  datatype with the variants of either. An enum is the table of its discriminants, a \<open>match\<close> the
  table of its arms, each in the order of the source.
\<close>

datatype platform = Linux | MacOS

section \<open>Result codes\<close>

datatype pam_result_code =
    PAM_SUCCESS | PAM_OPEN_ERR | PAM_SYMBOL_ERR | PAM_SERVICE_ERR | PAM_SYSTEM_ERR |
    PAM_BUF_ERR | PAM_PERM_DENIED | PAM_AUTH_ERR | PAM_CRED_INSUFFICIENT |
    PAM_AUTHINFO_UNAVAIL | PAM_USER_UNKNOWN | PAM_MAXTRIES | PAM_NEW_AUTHTOK_REQD |
    PAM_ACCT_EXPIRED | PAM_SESSION_ERR | PAM_CRED_UNAVAIL | PAM_CRED_EXPIRED | PAM_CRED_ERR |
    PAM_NO_MODULE_DATA | PAM_CONV_ERR | PAM_AUTHTOK_ERR | PAM_AUTHTOK_RECOVERY_ERR |
    PAM_AUTHTOK_LOCK_BUSY | PAM_AUTHTOK_DISABLE_AGING | PAM_TRY_AGAIN | PAM_IGNORE |
    PAM_ABORT | PAM_AUTHTOK_EXPIRED | PAM_MODULE_UNKNOWN | PAM_BAD_ITEM | PAM_CONV_AGAIN |
    PAM_INCOMPLETE | PAM_DOMAIN_UNKNOWN | PAM_APPLE_ACCT_TEMP_LOCK | PAM_APPLE_ACCT_LOCKED |
    PAM_APPLE_KEK_ERROR | PAM_APPLE_WRONG_CARD

definition linux_result_codes :: "(pam_result_code \<times> int) list" where
  "linux_result_codes = [
     (PAM_SUCCESS, 0), (PAM_OPEN_ERR, 1), (PAM_SYMBOL_ERR, 2), (PAM_SERVICE_ERR, 3),
     (PAM_SYSTEM_ERR, 4), (PAM_BUF_ERR, 5), (PAM_PERM_DENIED, 6), (PAM_AUTH_ERR, 7),
     (PAM_CRED_INSUFFICIENT, 8), (PAM_AUTHINFO_UNAVAIL, 9), (PAM_USER_UNKNOWN, 10),
     (PAM_MAXTRIES, 11), (PAM_NEW_AUTHTOK_REQD, 12), (PAM_ACCT_EXPIRED, 13),
     (PAM_SESSION_ERR, 14), (PAM_CRED_UNAVAIL, 15), (PAM_CRED_EXPIRED, 16),
     (PAM_CRED_ERR, 17), (PAM_NO_MODULE_DATA, 18), (PAM_CONV_ERR, 19), (PAM_AUTHTOK_ERR, 20),
     (PAM_AUTHTOK_RECOVERY_ERR, 21), (PAM_AUTHTOK_LOCK_BUSY, 22),
     (PAM_AUTHTOK_DISABLE_AGING, 23), (PAM_TRY_AGAIN, 24), (PAM_IGNORE, 25), (PAM_ABORT, 26),
     (PAM_AUTHTOK_EXPIRED, 27), (PAM_MODULE_UNKNOWN, 28), (PAM_BAD_ITEM, 29),
     (PAM_CONV_AGAIN, 30), (PAM_INCOMPLETE, 31)]"

definition linux_try_from_arms :: "(int \<times> pam_result_code) list" where
  "linux_try_from_arms = [
     (0, PAM_SUCCESS), (1, PAM_OPEN_ERR), (2, PAM_SYMBOL_ERR), (3, PAM_SERVICE_ERR),
     (4, PAM_SYSTEM_ERR), (5, PAM_BUF_ERR), (6, PAM_PERM_DENIED), (7, PAM_AUTH_ERR),
     (8, PAM_CRED_INSUFFICIENT), (9, PAM_AUTHINFO_UNAVAIL), (10, PAM_USER_UNKNOWN),
     (11, PAM_MAXTRIES), (12, PAM_NEW_AUTHTOK_REQD), (13, PAM_ACCT_EXPIRED),
     (14, PAM_SESSION_ERR), (15, PAM_CRED_UNAVAIL), (16, PAM_CRED_EXPIRED),
     (17, PAM_CRED_ERR), (18, PAM_NO_MODULE_DATA), (19, PAM_CONV_ERR), (20, PAM_AUTHTOK_ERR),
     (21, PAM_AUTHTOK_RECOVERY_ERR), (22, PAM_AUTHTOK_LOCK_BUSY),
     (23, PAM_AUTHTOK_DISABLE_AGING), (24, PAM_TRY_AGAIN), (25, PAM_IGNORE), (26, PAM_ABORT),
     (27, PAM_AUTHTOK_EXPIRED), (28, PAM_MODULE_UNKNOWN), (29, PAM_BAD_ITEM),
     (30, PAM_CONV_AGAIN), (31, PAM_INCOMPLETE)]"

definition macos_result_codes :: "(pam_result_code \<times> int) list" where
  "macos_result_codes = [
     (PAM_SUCCESS, 0), (PAM_OPEN_ERR, 1), (PAM_SYMBOL_ERR, 2), (PAM_SERVICE_ERR, 3),
     (PAM_SYSTEM_ERR, 4), (PAM_BUF_ERR, 5), (PAM_CONV_ERR, 6), (PAM_PERM_DENIED, 7),
     (PAM_MAXTRIES, 8), (PAM_AUTH_ERR, 9), (PAM_NEW_AUTHTOK_REQD, 10),
     (PAM_CRED_INSUFFICIENT, 11), (PAM_AUTHINFO_UNAVAIL, 12), (PAM_USER_UNKNOWN, 13),
     (PAM_CRED_UNAVAIL, 14), (PAM_CRED_EXPIRED, 15), (PAM_CRED_ERR, 16),
     (PAM_ACCT_EXPIRED, 17), (PAM_AUTHTOK_EXPIRED, 18), (PAM_SESSION_ERR, 19),
     (PAM_AUTHTOK_ERR, 20), (PAM_AUTHTOK_RECOVERY_ERR, 21), (PAM_AUTHTOK_LOCK_BUSY, 22),
     (PAM_AUTHTOK_DISABLE_AGING, 23), (PAM_NO_MODULE_DATA, 24), (PAM_IGNORE, 25),
     (PAM_ABORT, 26), (PAM_TRY_AGAIN, 27), (PAM_MODULE_UNKNOWN, 28), (PAM_DOMAIN_UNKNOWN, 29),
     (PAM_APPLE_ACCT_TEMP_LOCK, 1024), (PAM_APPLE_ACCT_LOCKED, 1025),
     (PAM_APPLE_KEK_ERROR, 1026), (PAM_APPLE_WRONG_CARD, 1027)]"

definition macos_try_from_arms :: "(int \<times> pam_result_code) list" where
  "macos_try_from_arms = [
     (0, PAM_SUCCESS), (1, PAM_OPEN_ERR), (2, PAM_SYMBOL_ERR), (3, PAM_SERVICE_ERR),
     (4, PAM_SYSTEM_ERR), (5, PAM_BUF_ERR), (6, PAM_CONV_ERR), (7, PAM_PERM_DENIED),
     (8, PAM_MAXTRIES), (9, PAM_AUTH_ERR), (10, PAM_NEW_AUTHTOK_REQD),
     (11, PAM_CRED_INSUFFICIENT), (12, PAM_AUTHINFO_UNAVAIL), (13, PAM_USER_UNKNOWN),
     (14, PAM_CRED_UNAVAIL), (15, PAM_CRED_EXPIRED), (16, PAM_CRED_ERR),
     (17, PAM_ACCT_EXPIRED), (18, PAM_AUTHTOK_EXPIRED), (19, PAM_SESSION_ERR),
     (20, PAM_AUTHTOK_ERR), (21, PAM_AUTHTOK_RECOVERY_ERR), (22, PAM_AUTHTOK_LOCK_BUSY),
     (23, PAM_AUTHTOK_DISABLE_AGING), (24, PAM_NO_MODULE_DATA), (25, PAM_IGNORE),
     (26, PAM_ABORT), (27, PAM_TRY_AGAIN), (28, PAM_MODULE_UNKNOWN), (29, PAM_DOMAIN_UNKNOWN),
     (1024, PAM_APPLE_ACCT_TEMP_LOCK), (1025, PAM_APPLE_ACCT_LOCKED),
     (1026, PAM_APPLE_KEK_ERROR), (1027, PAM_APPLE_WRONG_CARD)]"

definition linux_try_from :: "int \<Rightarrow> int + pam_result_code" where
  "linux_try_from value = (case map_of linux_try_from_arms value of
     Some c \<Rightarrow> Inr c | None \<Rightarrow> Inl value)"

definition macos_try_from :: "int \<Rightarrow> int + pam_result_code" where
  "macos_try_from value = (case map_of macos_try_from_arms value of
     Some c \<Rightarrow> Inr c | None \<Rightarrow> Inl value)"

fun try_from :: "platform \<Rightarrow> int \<Rightarrow> int + pam_result_code" where
  "try_from Linux value = linux_try_from value"
| "try_from MacOS value = macos_try_from value"

text \<open>\<open>PamResultCode::from_raw\<close>: the same text in both platform files.\<close>

definition from_raw :: "platform \<Rightarrow> int \<Rightarrow> pam_result_code" where
  "from_raw os value = (case try_from os value of Inr c \<Rightarrow> c | Inl _ \<Rightarrow> PAM_SYSTEM_ERR)"

text \<open>\<open>code as c_int\<close>: defined for the variants of the platform.\<close>

fun discriminant :: "platform \<Rightarrow> pam_result_code \<Rightarrow> int option" where
  "discriminant Linux c = map_of linux_result_codes c"
| "discriminant MacOS c = map_of macos_result_codes c"

section \<open>Converting raw codes\<close>

lemma map_of_swap:
  assumes "distinct (map fst xs)" and "distinct (map snd xs)"
  shows "map_of (map (\<lambda>(a, b). (b, a)) xs) b = Some a \<longleftrightarrow> map_of xs a = Some b"
proof -
  have "distinct (map fst (map (\<lambda>(a, b). (b, a)) xs))"
    using assms(2) by (simp add: comp_def split_beta)
  then show ?thesis
    using assms(1) by (auto simp: map_of_eq_Some_iff)
qed

lemma linux_arms: "linux_try_from_arms = map (\<lambda>(c, n). (n, c)) linux_result_codes"
  by (simp add: linux_try_from_arms_def linux_result_codes_def)

lemma macos_arms: "macos_try_from_arms = map (\<lambda>(c, n). (n, c)) macos_result_codes"
  by (simp add: macos_try_from_arms_def macos_result_codes_def)

lemma codes_distinct:
  "distinct (map fst linux_result_codes)" "distinct (map snd linux_result_codes)"
  "distinct (map fst macos_result_codes)" "distinct (map snd macos_result_codes)"
  by (simp_all add: linux_result_codes_def macos_result_codes_def)

lemma try_from_Inr: "try_from os n = Inr c \<longleftrightarrow> discriminant os c = Some n"
proof -
  have "(case x of Some c \<Rightarrow> Inr c | None \<Rightarrow> Inl n) = Inr c \<longleftrightarrow> x = Some c" for x :: "pam_result_code option"
    by (cases x) simp_all
  then show ?thesis
    by (cases os) (simp_all add: linux_try_from_def macos_try_from_def linux_arms macos_arms map_of_swap codes_distinct
      del: map_of_eq_Some_iff)
qed

text \<open>
  The raw codes of libpam. On each platform, converting a number to a \<open>PamResultCode\<close> inverts the enum's
  discriminants; a number that is no discriminant there becomes \<open>PAM_SYSTEM_ERR\<close>.
\<close>

lemma from_raw_exact:
  "from_raw os n = c \<longleftrightarrow> discriminant os c = Some n \<or>
     c = PAM_SYSTEM_ERR \<and> (\<forall>d. discriminant os d \<noteq> Some n)"
proof (cases "try_from os n")
  case (Inl v)
  then have "discriminant os d \<noteq> Some n" for d
    using try_from_Inr [of os n d] by simp
  with Inl show ?thesis by (auto simp: from_raw_def)
next
  case (Inr d)
  then have "discriminant os e = Some n \<longleftrightarrow> e = d" for e
    using try_from_Inr [of os n e] by auto
  with Inr show ?thesis by (auto simp: from_raw_def)
qed

end
