(* ===== verification/System.thy ===== *)
theory System imports Prelude begin

text \<open>
  The operating system as the module sees it, and the type of effectful operations.

  Every call that leaves the process (a system call, a read of the clock, a request to the
  agent) is an \<open>event\<close>. The state that the model threads is the \<open>trace\<close> of the events so far,
  and the answer of each call is an arbitrary function of the trace, given by the records of the
  components (\<open>fs_os\<close>, \<open>proc_os\<close>, \<open>sock_os\<close>, \<open>ssh_agent\<close>). So nothing is assumed about the
  system: a file may change between two calls, a clock may stand still, a helper may never exit.
  What a property needs of the system it states as a hypothesis.

  An operation is of type \<open>'a io\<close>: from a trace it either does not return (\<open>None\<close>) or returns a
  result and the longer trace.
\<close>

named_theorems io_step \<open>one step of a sequence from a given trace\<close>

section \<open>Events\<close>

datatype fs_event = Lstat string | Stat string | Canonicalize string | OpenFile string
  | Fstat nat | ReadAll nat | ReadToString string

datatype stream = Stdout | Stderr

text \<open>
  The image that \<open>execve\<close> gets: the program, its arguments, its whole environment, and whether
  the child is the leader of a process group of its own.
\<close>

datatype exec_image = ExecImage (image_program: string) (image_args: "string list")
  (image_env: "(string \<times> string) list") (image_own_group: bool)

text \<open>What the child does between \<open>fork\<close> and \<open>execve\<close>.\<close>

datatype child_event = SetRlimitNproc nat nat | SetGroupsEmpty | SetGid nat | SetUid nat
  | Execve exec_image

datatype proc_event = Fork | Child child_event | GetPipeFlags stream
  | SetPipeFlags stream "32 word" | ReadPipe stream | TryWait | PollPipes bool bool nat | KillGroup nat | KillChild | WaitChild

datatype fd_setting = SetCloexec | SetStatusFlags "32 word"

datatype sock_event = Socket | Fcntl fd_setting | GetStatusFlags | Connect string
  | PollConnect nat | GetSockError | CloseSocket | SetReadTimeout nat | SetWriteTimeout nat
  | SockRead nat | SockWrite string | SockFlush

datatype agent_event = ClientConnect string | ListIdentities | SignRequest "8 word list"

datatype event = Fs fs_event | Proc proc_event | Sock sock_event | Agent agent_event
  | ClockNow | SystemTimeNow | GetRandom nat

type_synonym trace = "event list"

section \<open>Effectful operations\<close>

type_synonym 'a io = "trace \<Rightarrow> ('a result \<times> trace) option"

definition io_lift :: "'a result \<Rightarrow> 'a io" where
  "io_lift r = (\<lambda>tr. Some (r, tr))"

definition io_return :: "'a \<Rightarrow> 'a io" where
  "io_return x = (\<lambda>tr. Some (Inr x, tr))"

definition io_throw :: "error \<Rightarrow> 'a io" where
  "io_throw e = (\<lambda>tr. Some (Inl e, tr))"

text \<open>\<open>match m { Ok(..) => .., Err(..) => .. }\<close>: continue with the result itself.\<close>

definition io_match :: "'a io \<Rightarrow> ('a result \<Rightarrow> 'b io) \<Rightarrow> 'b io" where
  "io_match m k = (\<lambda>tr. case m tr of None \<Rightarrow> None | Some (r, tr') \<Rightarrow> k r tr')"

text \<open>\<open>m?\<close>: continue with the value, return the error.\<close>

definition io_bind :: "'a io \<Rightarrow> ('a \<Rightarrow> 'b io) \<Rightarrow> 'b io" where
  "io_bind m k = (\<lambda>tr. case m tr of None \<Rightarrow> None
     | Some (r, tr') \<Rightarrow> (case r of Inl e \<Rightarrow> Some (Inl e, tr') | Inr x \<Rightarrow> k x tr'))"

text \<open>
  The calls: \<open>io_ask\<close> for one that cannot fail, \<open>io_sys\<close> for one that returns an
  \<open>std::io::Error\<close>, \<open>io_call\<close> for any other error. A single call returns; one that may wait for ever is
  \<open>io_blocking\<close>, with the answer \<open>None\<close> if it does.
\<close>

definition io_call :: "event \<Rightarrow> (trace \<Rightarrow> 'a result) \<Rightarrow> 'a io" where
  "io_call ev f = (\<lambda>tr. Some (f tr, tr @ [ev]))"

definition io_sys :: "event \<Rightarrow> (trace \<Rightarrow> io_error + 'a) \<Rightarrow> 'a io" where
  "io_sys ev f = io_call ev (\<lambda>tr. map_err Io (f tr))"

definition io_ask :: "event \<Rightarrow> (trace \<Rightarrow> 'a) \<Rightarrow> 'a io" where
  "io_ask ev f = io_call ev (\<lambda>tr. Inr (f tr))"

definition io_blocking :: "event \<Rightarrow> (trace \<Rightarrow> 'a result option) \<Rightarrow> 'a io" where
  "io_blocking ev f = (\<lambda>tr. map_option (\<lambda>r. (r, tr @ [ev])) (f tr))"

definition io_emit :: "event \<Rightarrow> unit io" where
  "io_emit ev = io_ask ev (\<lambda>_. ())"

subsection \<open>How a sequence returns\<close>

lemma io_lift_Some [simp]: "io_lift r tr = Some (q, tr') \<longleftrightarrow> r = q \<and> tr' = tr"
  by (auto simp: io_lift_def)

lemma io_lift_not_None [simp]: "io_lift r tr \<noteq> None"
  by (simp add: io_lift_def)

lemma io_return_Some [simp]: "io_return x tr = Some (q, tr') \<longleftrightarrow> q = Inr x \<and> tr' = tr"
  by (auto simp: io_return_def)

lemma io_return_not_None [simp]: "io_return x tr \<noteq> None"
  by (simp add: io_return_def)

lemma io_throw_Some [simp]: "io_throw e tr = Some (q, tr') \<longleftrightarrow> q = Inl e \<and> tr' = tr"
  by (auto simp: io_throw_def)

lemma io_throw_not_None [simp]: "io_throw e tr \<noteq> None"
  by (simp add: io_throw_def)

lemma io_call_Some [simp]: "io_call ev f tr = Some (q, tr') \<longleftrightarrow> f tr = q \<and> tr' = tr @ [ev]"
  by (auto simp: io_call_def)

lemma io_call_not_None [simp]: "io_call ev f tr \<noteq> None"
  by (simp add: io_call_def)

lemma io_sys_Some [simp]:
  "io_sys ev f tr = Some (q, tr') \<longleftrightarrow> map_err Io (f tr) = q \<and> tr' = tr @ [ev]"
  by (simp add: io_sys_def)

lemma io_sys_not_None [simp]: "io_sys ev f tr \<noteq> None"
  by (simp add: io_sys_def)

lemma io_ask_Some [simp]: "io_ask ev f tr = Some (q, tr') \<longleftrightarrow> q = Inr (f tr) \<and> tr' = tr @ [ev]"
  by (auto simp: io_ask_def)

lemma io_ask_not_None [simp]: "io_ask ev f tr \<noteq> None"
  by (simp add: io_ask_def)

lemma io_blocking_Some [simp]: "io_blocking ev f tr = Some (q, tr') \<longleftrightarrow> f tr = Some q \<and> tr' = tr @ [ev]"
  by (auto simp: io_blocking_def)

lemma io_emit_Some [simp]: "io_emit ev tr = Some (q, tr') \<longleftrightarrow> q = Inr () \<and> tr' = tr @ [ev]"
  by (simp add: io_emit_def)

lemma io_emit_not_None [simp]: "io_emit ev tr \<noteq> None"
  by (simp add: io_emit_def)

lemma io_match_Some [io_simps]:
  "io_match m k tr = Some (q, tr') \<longleftrightarrow> (\<exists>r tr1. m tr = Some (r, tr1) \<and> k r tr1 = Some (q, tr'))"
  by (auto simp: io_match_def split: option.splits)

lemma io_match_None [io_simps]:
  "io_match m k tr = None \<longleftrightarrow> m tr = None \<or> (\<exists>r tr1. m tr = Some (r, tr1) \<and> k r tr1 = None)"
  by (auto simp: io_match_def split: option.splits)

lemma io_bind_Inr [io_simps]:
  "io_bind m k tr = Some (Inr y, tr') \<longleftrightarrow>
     (\<exists>x tr1. m tr = Some (Inr x, tr1) \<and> k x tr1 = Some (Inr y, tr'))"
  by (auto simp: io_bind_def split: option.splits sum.splits)

lemma io_bind_Inl [io_simps]:
  "io_bind m k tr = Some (Inl e, tr') \<longleftrightarrow> m tr = Some (Inl e, tr') \<or>
     (\<exists>x tr1. m tr = Some (Inr x, tr1) \<and> k x tr1 = Some (Inl e, tr'))"
  by (auto simp: io_bind_def split: option.splits sum.splits)

lemma io_bind_None [io_simps]:
  "io_bind m k tr = None \<longleftrightarrow> m tr = None \<or> (\<exists>x tr1. m tr = Some (Inr x, tr1) \<and> k x tr1 = None)"
  by (auto simp: io_bind_def split: option.splits sum.splits)

text \<open>Running a sequence forward, for concrete inputs.\<close>

lemma io_bind_step:
  "m tr = Some (Inr x, tr1) \<Longrightarrow> io_bind m k tr = k x tr1"
  "m tr = Some (Inl e, tr1) \<Longrightarrow> io_bind m k tr = Some (Inl e, tr1)"
  by (simp_all add: io_bind_def)

lemma io_match_step: "m tr = Some (r, tr1) \<Longrightarrow> io_match m k tr = k r tr1"
  by (simp add: io_match_def)

lemma io_bind_app: "io_bind m k tr = (case m tr of None \<Rightarrow> None
     | Some (r, tr') \<Rightarrow> (case r of Inl e \<Rightarrow> Some (Inl e, tr') | Inr x \<Rightarrow> k x tr'))"
  by (simp add: io_bind_def)

lemma io_match_app: "io_match m k tr = (case m tr of None \<Rightarrow> None | Some (r, tr') \<Rightarrow> k r tr')"
  by (simp add: io_match_def)

lemma io_bind_call_step [io_step]: "io_bind (io_call ev f) k tr = (case f tr of
    Inl e \<Rightarrow> Some (Inl e, tr @ [ev]) | Inr x \<Rightarrow> k x (tr @ [ev]))"
  by (simp add: io_bind_def io_call_def)

lemma io_bind_sys_step [io_step]: "io_bind (io_sys ev f) k tr = (case f tr of
    Inl e \<Rightarrow> Some (Inl (Io e), tr @ [ev]) | Inr x \<Rightarrow> k x (tr @ [ev]))"
  by (cases "f tr") (simp_all add: io_sys_def io_bind_call_step)

lemma io_bind_ask_step [io_step]: "io_bind (io_ask ev f) k tr = k (f tr) (tr @ [ev])"
  by (simp add: io_ask_def io_bind_call_step)

lemma io_bind_emit_step [io_step]: "io_bind (io_emit ev) k tr = k () (tr @ [ev])"
  by (simp add: io_emit_def io_bind_ask_step)

lemma io_bind_lift_step [io_step]: "io_bind (io_lift r) k tr = (case r of Inl e \<Rightarrow> Some (Inl e, tr) | Inr x \<Rightarrow> k x tr)"
  by (simp add: io_bind_def io_lift_def)

lemma io_bind_return_step [io_step]: "io_bind (io_return x) k tr = k x tr"
  by (simp add: io_bind_def io_return_def)

lemma io_bind_throw_step [io_step]: "io_bind (io_throw e) k tr = Some (Inl e, tr)"
  by (simp add: io_bind_def io_throw_def)

lemma io_match_sys_step [io_step]: "io_match (io_sys ev f) k tr = k (map_err Io (f tr)) (tr @ [ev])"
  by (simp add: io_match_def io_sys_def io_call_def)

lemma io_sys_app: "io_sys ev f tr = Some (map_err Io (f tr), tr @ [ev])"
  by (simp add: io_sys_def io_call_def)

lemmas io_run = io_bind_def io_match_def io_lift_def io_return_def io_throw_def io_emit_def
  io_ask_def io_sys_def io_call_def

subsection \<open>Loops over operations\<close>

text \<open>With these rules \<open>partial_function (option)\<close> accepts a loop whose body is a sequence.\<close>

lemma io_bind_mono [partial_function_mono]:
  assumes "\<And>tr. mono_option (\<lambda>f. m f tr)" and "\<And>x tr. mono_option (\<lambda>f. k f x tr)"
  shows "mono_option (\<lambda>f. io_bind (m f) (k f) tr)"
proof -
  have "mono_option (\<lambda>f. case fst p of Inl e \<Rightarrow> Some (Inl e, snd p) | Inr x \<Rightarrow> k f x (snd p))" for p
    by (cases "fst p") (auto intro: assms option.const_mono)
  then have "mono_option (\<lambda>f. Option.bind (m f tr)
    (\<lambda>p. case fst p of Inl e \<Rightarrow> Some (Inl e, snd p) | Inr x \<Rightarrow> k f x (snd p)))"
    by (intro partial_function_mono assms(1))
  moreover have "io_bind (m f) (k f) tr = Option.bind (m f tr)
    (\<lambda>p. case fst p of Inl e \<Rightarrow> Some (Inl e, snd p) | Inr x \<Rightarrow> k f x (snd p))" for f
    by (auto simp: io_bind_def split: option.splits sum.splits)
  ultimately show ?thesis by simp
qed

lemma io_match_mono [partial_function_mono]:
  assumes "\<And>tr. mono_option (\<lambda>f. m f tr)" and "\<And>r tr. mono_option (\<lambda>f. k f r tr)"
  shows "mono_option (\<lambda>f. io_match (m f) (k f) tr)"
proof -
  have "mono_option (\<lambda>f. Option.bind (m f tr) (\<lambda>p. k f (fst p) (snd p)))"
    by (intro partial_function_mono assms)
  moreover have "io_match (m f) (k f) tr = Option.bind (m f tr) (\<lambda>p. k f (fst p) (snd p))" for f
    by (auto simp: io_match_def split: option.splits)
  ultimately show ?thesis by simp
qed

lemma if_app_mono [partial_function_mono]:
  "mono_option (\<lambda>f. F f tr) \<Longrightarrow> mono_option (\<lambda>f. G f tr) \<Longrightarrow> mono_option (\<lambda>f. (if b then F f else G f) tr)"
  by (cases b) simp_all

lemma case_sum_app_mono [partial_function_mono]:
  "(\<And>e. mono_option (\<lambda>f. h f e tr)) \<Longrightarrow> (\<And>x. mono_option (\<lambda>f. k f x tr)) \<Longrightarrow>
     mono_option (\<lambda>f. (case r of Inl e \<Rightarrow> h f e | Inr x \<Rightarrow> k f x) tr)"
  by (cases r) simp_all

lemma case_option_app_mono [partial_function_mono]:
  "mono_option (\<lambda>f. h f tr) \<Longrightarrow> (\<And>x. mono_option (\<lambda>f. k f x tr)) \<Longrightarrow>
     mono_option (\<lambda>f. (case r of None \<Rightarrow> h f | Some x \<Rightarrow> k f x) tr)"
  by (cases r) simp_all

section \<open>Which events an operation emits\<close>

text \<open>
  \<open>emits P m\<close>: whenever \<open>m\<close> returns, the trace has grown by events that satisfy \<open>P\<close>. It is the
  frame condition of the model: \<open>emits (\<lambda>_. True) m\<close> says the past is never rewritten.
\<close>

definition emits :: "(event \<Rightarrow> bool) \<Rightarrow> 'a io \<Rightarrow> bool" where
  "emits P m \<longleftrightarrow> (\<forall>tr r tr'. m tr = Some (r, tr') \<longrightarrow> (\<exists>evs. tr' = tr @ evs \<and> list_all P evs))"

named_theorems emits_intros \<open>which events the operations emit\<close>

lemma emitsI:
  "(\<And>tr r tr'. m tr = Some (r, tr') \<Longrightarrow> \<exists>evs. tr' = tr @ evs \<and> list_all P evs) \<Longrightarrow> emits P m"
  by (auto simp: emits_def)

lemma emitsD:
  assumes "emits P m" and "m tr = Some (r, tr')"
  obtains evs where "tr' = tr @ evs" and "list_all P evs"
  using assms unfolding emits_def by blast

lemma emits_run:
  "m tr = Some y \<Longrightarrow> emits P m \<Longrightarrow> \<exists>evs. snd y = tr @ evs \<and> list_all P evs"
  by (cases y) (auto simp: emits_def)

lemma emits_of_run:
  "(\<And>tr y. m tr = Some y \<Longrightarrow> \<exists>evs. snd y = tr @ evs \<and> list_all P evs) \<Longrightarrow> emits P m"
  unfolding emits_def by fastforce

lemma emits_mono: "emits P m \<Longrightarrow> (\<And>ev. P ev \<Longrightarrow> Q ev) \<Longrightarrow> emits Q m"
  unfolding emits_def by (meson list.pred_mono_strong)

lemma emits_lift [emits_intros]: "emits P (io_lift r)"
  by (auto simp: emits_def)

lemma emits_return [emits_intros]: "emits P (io_return x)"
  by (auto simp: emits_def)

lemma emits_throw [emits_intros]: "emits P (io_throw e)"
  by (auto simp: emits_def)

lemma emits_call [emits_intros]: "P ev \<Longrightarrow> emits P (io_call ev f)"
  by (auto simp: emits_def)

lemma emits_sys [emits_intros]: "P ev \<Longrightarrow> emits P (io_sys ev f)"
  by (auto simp: emits_def)

lemma emits_ask [emits_intros]: "P ev \<Longrightarrow> emits P (io_ask ev f)"
  by (auto simp: emits_def)

lemma emits_blocking [emits_intros]: "P ev \<Longrightarrow> emits P (io_blocking ev f)"
  by (auto simp: emits_def)

lemma emits_emit [emits_intros]: "P ev \<Longrightarrow> emits P (io_emit ev)"
  by (auto simp: emits_def)

lemma emits_match [emits_intros]:
  assumes "emits P m" and "\<And>r. emits P (k r)"
  shows "emits P (io_match m k)"
proof (rule emitsI)
  fix tr q tr' assume "io_match m k tr = Some (q, tr')"
  then obtain r tr1 where "m tr = Some (r, tr1)" and "k r tr1 = Some (q, tr')"
    by (auto simp: io_simps)
  then show "\<exists>evs. tr' = tr @ evs \<and> list_all P evs"
    using assms by (fastforce elim!: emitsD [of P m] emitsD [of P "k r"])
qed

lemma io_bind_match:
  "io_bind m k = io_match m (\<lambda>r. case r of Inl e \<Rightarrow> io_throw e | Inr x \<Rightarrow> k x)"
  by (rule ext) (auto simp: io_run split: option.splits sum.splits)

lemma emits_bind [emits_intros]:
  assumes "emits P m" and "\<And>x. emits P (k x)"
  shows "emits P (io_bind m k)"
  unfolding io_bind_match using assms by (auto intro!: emits_intros split: sum.splits)

lemmas emits_run_match = emits_run [where m = "io_match m k" for m k, OF _ emits_match]
lemmas emits_run_bind = emits_run [where m = "io_bind m k" for m k, OF _ emits_bind]

lemma emits_if [emits_intros]: "emits P m \<Longrightarrow> emits P n \<Longrightarrow> emits P (if b then m else n)"
  by simp

lemma emits_case_option [emits_intros]:
  "emits P m \<Longrightarrow> (\<And>x. emits P (k x)) \<Longrightarrow> emits P (case y of None \<Rightarrow> m | Some x \<Rightarrow> k x)"
  by (cases y) auto

lemma emits_case_sum [emits_intros]:
  "(\<And>e. emits P (h e)) \<Longrightarrow> (\<And>x. emits P (k x)) \<Longrightarrow>
     emits P (case y of Inl e \<Rightarrow> h e | Inr x \<Rightarrow> k x)"
  by (cases y) auto

lemma emits_case_prod [emits_intros]:
  "(\<And>a b. emits P (k a b)) \<Longrightarrow> emits P (case y of (a, b) \<Rightarrow> k a b)"
  by (cases y) auto

lemma emits_let [emits_intros]: "emits P (k x) \<Longrightarrow> emits P (let y = x in k y)"
  by simp

section \<open>Operations that return\<close>

definition total_io :: "'a io \<Rightarrow> bool" where
  "total_io m \<longleftrightarrow> (\<forall>tr. m tr \<noteq> None)"

named_theorems total_intros \<open>which operations always return\<close>

lemma total_lift [total_intros]: "total_io (io_lift r)"
  by (simp add: total_io_def io_lift_def)

lemma total_return [total_intros]: "total_io (io_return x)"
  by (simp add: total_io_def io_return_def)

lemma total_throw [total_intros]: "total_io (io_throw e)"
  by (simp add: total_io_def io_throw_def)

lemma total_call [total_intros]: "total_io (io_call ev f)"
  by (simp add: total_io_def io_call_def)

lemma total_sys [total_intros]: "total_io (io_sys ev f)"
  by (simp add: io_sys_def total_call)

lemma total_ask [total_intros]: "total_io (io_ask ev f)"
  by (simp add: io_ask_def total_call)

lemma total_emit [total_intros]: "total_io (io_emit ev)"
  by (simp add: io_emit_def total_ask)

lemma total_bind [total_intros]: "total_io m \<Longrightarrow> (\<And>x. total_io (k x)) \<Longrightarrow> total_io (io_bind m k)"
  unfolding total_io_def io_bind_None by blast

lemma total_match [total_intros]: "total_io m \<Longrightarrow> (\<And>x. total_io (k x)) \<Longrightarrow> total_io (io_match m k)"
  unfolding total_io_def io_match_None by blast

lemma total_if [total_intros]: "total_io m \<Longrightarrow> total_io n \<Longrightarrow> total_io (if b then m else n)"
  by simp

lemma total_case_option [total_intros]:
  "total_io m \<Longrightarrow> (\<And>x. total_io (k x)) \<Longrightarrow> total_io (case y of None \<Rightarrow> m | Some x \<Rightarrow> k x)"
  by (cases y) auto

lemma total_case_sum [total_intros]:
  "(\<And>e. total_io (h e)) \<Longrightarrow> (\<And>x. total_io (k x)) \<Longrightarrow>
     total_io (case y of Inl e \<Rightarrow> h e | Inr x \<Rightarrow> k x)"
  by (cases y) auto

lemma total_let [total_intros]: "total_io (k x) \<Longrightarrow> total_io (let y = x in k y)"
  by simp

lemma total_ioE:
  assumes "total_io m"
  obtains r tr' where "m tr = Some (r, tr')"
  using assms unfolding total_io_def by fastforce

end
