(* ===== verification/PamBindings.thy ===== *)
theory PamBindings imports PamConstants RustStr System begin

text \<open>
  The safe layer of \<open>vendor/pam-bindings\<close>: \<open>items.rs\<close>, \<open>module.rs\<close>, \<open>macros.rs\<close>, \<open>conv.rs\<close> and
  \<open>secret.rs\<close>. The C functions of libpam are the record \<open>libpam\<close>, over an arbitrary type of handle.
  A pointer is an option (\<open>None\<close> is null); a C string is the bytes before its terminator. What the
  code promises about ownership (a box is freed or handed over, a secret is erased before its
  buffer is freed) is kept in explicit states: the set of live boxes, and a C heap.
\<close>

section \<open>Items\<close>

datatype item_type = Service | User | Tty | RHost | Conv | AuthTok | OldAuthTok | RUser
  | UserPrompt | Repository | AuthTokPrompt | OldAuthTokPrompt | FailDelay | XDisplay
  | XAuthData | AuthTokType

text \<open>The discriminants, and which variants \<open>cfg(target_os)\<close> compiles.\<close>

fun item_code :: "item_type \<Rightarrow> int" where
  "item_code Service = 1"
| "item_code User = 2"
| "item_code Tty = 3"
| "item_code RHost = 4"
| "item_code Conv = 5"
| "item_code AuthTok = 6"
| "item_code OldAuthTok = 7"
| "item_code RUser = 8"
| "item_code UserPrompt = 9"
| "item_code Repository = 10"
| "item_code AuthTokPrompt = 11"
| "item_code OldAuthTokPrompt = 12"
| "item_code FailDelay = 10"
| "item_code XDisplay = 11"
| "item_code XAuthData = 12"
| "item_code AuthTokType = 13"

definition compiled_items :: "platform \<Rightarrow> item_type list" where
  "compiled_items os = [Service, User, Tty, RHost, Conv, AuthTok, OldAuthTok, RUser, UserPrompt] @
     (case os of MacOS \<Rightarrow> [Repository, AuthTokPrompt, OldAuthTokPrompt]
      | Linux \<Rightarrow> [FailDelay, XDisplay, XAuthData, AuthTokType])"

lemma item_code_distinct: "distinct (map item_code (compiled_items os))"
  by (cases os) (simp_all add: compiled_items_def)

section \<open>libpam\<close>

record 'h libpam =
  pam_get_data :: "'h \<Rightarrow> string \<Rightarrow> int \<times> nat option"
  pam_set_data :: "'h \<Rightarrow> string \<Rightarrow> nat \<Rightarrow> int \<times> 'h"
  pam_get_item :: "'h \<Rightarrow> int \<Rightarrow> int \<times> string option"
  pam_set_item :: "'h \<Rightarrow> int \<Rightarrow> string \<Rightarrow> int \<times> 'h"
  pam_get_user :: "'h \<Rightarrow> string option \<Rightarrow> (int \<times> string option) \<times> 'h"

text \<open>\<open>CString::new\<close> rejects an interior zero byte.\<close>

definition cstring_new :: "string \<Rightarrow> string option" where
  "cstring_new s = (if CHR 0x00 \<in> set s then None else Some s)"

type_synonym 'a pam_result = "pam_result_code + 'a"

section \<open>\<open>PamHandle\<close>\<close>

definition get_data :: "platform \<Rightarrow> 'h libpam \<Rightarrow> 'h \<Rightarrow> string \<Rightarrow> nat pam_result" where
  "get_data os lib h key = (case cstring_new key of
     None \<Rightarrow> Inl PAM_BUF_ERR
   | Some c_key \<Rightarrow>
       (let (rc, ptr) = pam_get_data lib h c_key; res = from_raw os rc in
        if res \<noteq> PAM_SUCCESS then Inl res
        else case ptr of None \<Rightarrow> Inl PAM_SYSTEM_ERR | Some p \<Rightarrow> Inr p))"

text \<open>
  The box is the address \<open>p\<close>, \<open>live\<close> the boxes that have not been dropped. The early return drops
  the argument; after \<open>into_raw\<close> only the explicit \<open>drop\<close> does.
\<close>

definition set_data :: "platform \<Rightarrow> 'h libpam \<Rightarrow> 'h \<Rightarrow> nat set \<Rightarrow> string \<Rightarrow> nat
    \<Rightarrow> unit pam_result \<times> 'h \<times> nat set" where
  "set_data os lib h live key p = (case cstring_new key of
     None \<Rightarrow> (Inl PAM_BUF_ERR, h, live - {p})
   | Some c_key \<Rightarrow>
       (let (rc, h') = pam_set_data lib h c_key p; res = from_raw os rc in
        if res = PAM_SUCCESS then (Inr (), h', live)
        else (Inl res, h', live - {p})))"

definition get_item :: "platform \<Rightarrow> 'h libpam \<Rightarrow> 'h \<Rightarrow> item_type \<Rightarrow> string option pam_result" where
  "get_item os lib h type_id =
     (let (rc, ptr) = pam_get_item lib h (item_code type_id); res = from_raw os rc in
      if res \<noteq> PAM_SUCCESS then Inl res
      else case ptr of None \<Rightarrow> Inr None | Some raw \<Rightarrow> Inr (Some raw))"

definition set_item_str :: "platform \<Rightarrow> 'h libpam \<Rightarrow> 'h \<Rightarrow> item_type \<Rightarrow> string
    \<Rightarrow> unit pam_result \<times> 'h" where
  "set_item_str os lib h type_id item =
     (let (rc, h') = pam_set_item lib h (item_code type_id) item; res = from_raw os rc in
      if res = PAM_SUCCESS then (Inr (), h') else (Inl res, h'))"

definition get_user :: "platform \<Rightarrow> 'h libpam \<Rightarrow> 'h \<Rightarrow> string option \<Rightarrow> string pam_result \<times> 'h" where
  "get_user os lib h prompt =
     (let c_prompt = (case prompt of None \<Rightarrow> Some None
                      | Some s \<Rightarrow> map_option Some (cstring_new s)) in
      case c_prompt of
        None \<Rightarrow> (Inl PAM_BUF_ERR, h)
      | Some cp \<Rightarrow>
          (let ((rc, ptr), h') = pam_get_user lib h cp; res = from_raw os rc in
           if res \<noteq> PAM_SUCCESS then (Inl res, h')
           else case ptr of
             None \<Rightarrow> (Inl PAM_SYSTEM_ERR, h')
           | Some bytes \<Rightarrow> (if utf8_valid bytes then (Inr bytes, h') else (Inl PAM_SYSTEM_ERR, h'))))"

section \<open>Panics\<close>

text \<open>
  A call returns or unwinds with a payload. Dropping a payload runs foreign code, which may itself
  panic, with another payload.
\<close>

datatype payload = Payload "payload option"

datatype 'a outcome = Returns 'a | Unwinds payload

fun drop_payload :: "payload \<Rightarrow> unit outcome" where
  "drop_payload (Payload None) = Returns ()"
| "drop_payload (Payload (Some p)) = Unwinds p"

fun catch_unwind :: "'a outcome \<Rightarrow> payload + 'a" where
  "catch_unwind (Returns x) = Inr x"
| "catch_unwind (Unwinds p) = Inl p"

text \<open>
  \<open>cleanup::<T>\<close> is the destructor that libpam calls: \<open>drop_T\<close> is how dropping the box goes. A second
  panic, of the payload, is caught as well and its payload forgotten.
\<close>

definition cleanup :: "(nat \<Rightarrow> unit outcome) \<Rightarrow> nat option \<Rightarrow> nat set \<Rightarrow> unit outcome \<times> nat set" where
  "cleanup drop_T c_data live = (case c_data of
     None \<Rightarrow> (Returns (), live)
   | Some p \<Rightarrow> (case catch_unwind (drop_T p) of
         Inr _ \<Rightarrow> (Returns (), live - {p})
       | Inl pl \<Rightarrow> (case catch_unwind (drop_payload pl) of
             Inr _ \<Rightarrow> (Returns (), live - {p})
           | Inl forgotten \<Rightarrow> (Returns (), live - {p}))))"

text \<open>\<open>catch_unwind(f).unwrap_or(PAM_ABORT)\<close>: \<open>unwrap_or\<close> drops the payload, outside the guard.\<close>

definition panic_guard :: "pam_result_code outcome \<Rightarrow> pam_result_code outcome" where
  "panic_guard f = (case catch_unwind f of
     Inr code \<Rightarrow> Returns code
   | Inl pl \<Rightarrow> (case drop_payload pl of
         Returns _ \<Rightarrow> Returns PAM_ABORT
       | Unwinds p \<Rightarrow> Unwinds p))"

section \<open>Entry points\<close>

fun extract_argv :: "string option list \<Rightarrow> string list pam_result" where
  "extract_argv [] = Inr []"
| "extract_argv (None # ps) = Inl PAM_ABORT"
| "extract_argv (Some s # ps) = (case extract_argv ps of Inl e \<Rightarrow> Inl e | Inr ss \<Rightarrow> Inr (s # ss))"

text \<open>
  \<open>invoke_hook\<close>: the handle is null or not, \<open>argc\<close> any \<open>c_int\<close>, \<open>argv\<close> null or an array. The hook
  takes the handle and the arguments and acts on the trace.
\<close>

type_synonym ('h, 'r) hook = "'h \<Rightarrow> string list \<Rightarrow> trace \<Rightarrow> ('r outcome \<times> trace) option"

definition invoke_hook :: "'h option \<Rightarrow> int \<Rightarrow> string option list option
    \<Rightarrow> ('h, pam_result_code) hook \<Rightarrow> trace \<Rightarrow> (pam_result_code outcome \<times> trace) option" where
  "invoke_hook pamh argc argv hook tr =
     map_option (\<lambda>(f, tr'). (panic_guard f, tr'))
      (case pamh of
         None \<Rightarrow> Some (Returns PAM_ABORT, tr)
       | Some h \<Rightarrow>
           (if argc < 0 \<or> argc > 0 \<and> argv = None then Some (Returns PAM_ABORT, tr)
            else
              (let slice = (if argc = 0 then [] else
                     case argv of None \<Rightarrow> [] | Some ps \<Rightarrow> take (nat argc) ps) in
               case extract_argv slice of
                 Inr args \<Rightarrow> hook h args tr
               | Inl e \<Rightarrow> Some (Returns e, tr))))"

text \<open>The trait \<open>PamHooks\<close> with its default methods, and the functions \<open>pam_hooks!\<close> generates.\<close>

record 'h pam_hooks =
  hook_acct_mgmt :: "32 word \<Rightarrow> ('h, pam_result_code) hook"
  hook_sm_authenticate :: "32 word \<Rightarrow> ('h, pam_result_code) hook"
  hook_sm_chauthtok :: "32 word \<Rightarrow> ('h, pam_result_code) hook"
  hook_sm_close_session :: "32 word \<Rightarrow> ('h, pam_result_code) hook"
  hook_sm_open_session :: "32 word \<Rightarrow> ('h, pam_result_code) hook"
  hook_sm_setcred :: "32 word \<Rightarrow> ('h, pam_result_code) hook"

definition ignore_hook :: "32 word \<Rightarrow> ('h, pam_result_code) hook" where
  "ignore_hook flags = (\<lambda>h args tr. Some (Returns PAM_IGNORE, tr))"

definition default_hooks :: "'h pam_hooks" where
  "default_hooks = \<lparr> hook_acct_mgmt = ignore_hook, hook_sm_authenticate = ignore_hook,
     hook_sm_chauthtok = ignore_hook, hook_sm_close_session = ignore_hook,
     hook_sm_open_session = ignore_hook, hook_sm_setcred = ignore_hook \<rparr>"

datatype entry_point = Pam_sm_acct_mgmt | Pam_sm_authenticate | Pam_sm_chauthtok
  | Pam_sm_close_session | Pam_sm_open_session | Pam_sm_setcred

text \<open>\<open>flags as PamFlag\<close> reinterprets the \<open>c_int\<close> as unsigned.\<close>

fun call_entry_point :: "'h pam_hooks \<Rightarrow> entry_point \<Rightarrow> 'h option \<Rightarrow> int \<Rightarrow> int
    \<Rightarrow> string option list option \<Rightarrow> trace \<Rightarrow> (pam_result_code outcome \<times> trace) option" where
  "call_entry_point hooks Pam_sm_acct_mgmt pamh flags argc argv =
     invoke_hook pamh argc argv (hook_acct_mgmt hooks (word_of_int flags))"
| "call_entry_point hooks Pam_sm_authenticate pamh flags argc argv =
     invoke_hook pamh argc argv (hook_sm_authenticate hooks (word_of_int flags))"
| "call_entry_point hooks Pam_sm_chauthtok pamh flags argc argv =
     invoke_hook pamh argc argv (hook_sm_chauthtok hooks (word_of_int flags))"
| "call_entry_point hooks Pam_sm_close_session pamh flags argc argv =
     invoke_hook pamh argc argv (hook_sm_close_session hooks (word_of_int flags))"
| "call_entry_point hooks Pam_sm_open_session pamh flags argc argv =
     invoke_hook pamh argc argv (hook_sm_open_session hooks (word_of_int flags))"
| "call_entry_point hooks Pam_sm_setcred pamh flags argc argv =
     invoke_hook pamh argc argv (hook_sm_setcred hooks (word_of_int flags))"

section \<open>Calling a hook\<close>

text \<open>The arguments that libpam passes: \<open>argc\<close> and \<open>argv\<close> describe the list \<open>as\<close>.\<close>

definition args_given :: "int \<Rightarrow> string option list option \<Rightarrow> string list \<Rightarrow> bool" where
  "args_given argc argv as \<longleftrightarrow> argc = 0 \<and> as = [] \<or>
     0 < argc \<and> (\<exists>ps. argv = Some ps \<and> take (nat argc) ps = map Some as)"

lemma extract_argv: "extract_argv ps = (if None \<in> set ps then Inl PAM_ABORT else Inr (map the ps))"
  by (induction ps rule: extract_argv.induct) auto

lemma extract_argv_map [simp]: "extract_argv (map Some as) = Inr as"
  by (induction as) simp_all

lemma all_present: "None \<notin> set ps \<Longrightarrow> ps = map Some (map the ps)"
  by (induction ps) auto

lemma args_given_unique: "args_given argc argv as \<Longrightarrow> args_given argc argv bs \<Longrightarrow> as = bs"
  by (auto simp: args_given_def inj_map_eq_map [of Some])

lemma invoke_hook_given:
  assumes "args_given argc argv as"
  shows "invoke_hook (Some h) argc argv hook tr = map_option (\<lambda>(f, tr'). (panic_guard f, tr')) (hook h as tr)"
  using assms by (auto simp: invoke_hook_def args_given_def Let_def)

lemma invoke_hook_not_given:
  assumes "pamh = None \<or> \<not> (\<exists>as. args_given argc argv as)"
  shows "invoke_hook pamh argc argv hook tr = Some (Returns PAM_ABORT, tr)"
proof (cases pamh)
  case None
  then show ?thesis by (simp add: invoke_hook_def panic_guard_def)
next
  case (Some h)
  show ?thesis
  proof (cases "0 < argc \<and> argv \<noteq> None")
    case True
    then obtain ps where ps: "argv = Some ps" "0 < argc" by auto
    have "None \<in> set (take (nat argc) ps)"
    proof (rule ccontr)
      assume "None \<notin> set (take (nat argc) ps)"
      then have "take (nat argc) ps = map Some (map the (take (nat argc) ps))"
        by (rule all_present)
      with ps assms Some show False unfolding args_given_def by blast
    qed
    with ps Some show ?thesis by (simp add: invoke_hook_def panic_guard_def extract_argv)
  next
    case False
    then have "argc \<noteq> 0" using assms Some by (auto simp: args_given_def)
    with False have "argc < 0 \<or> argc > 0 \<and> argv = None" by auto
    then show ?thesis by (simp add: Some invoke_hook_def panic_guard_def)
  qed
qed

lemma panic_guard_Returns [simp]: "panic_guard (Returns c) = Returns c"
  by (simp add: panic_guard_def)

lemma invoke_hook_cases:
  obtains (given) h as where "pamh = Some h" and "args_given argc argv as"
    and "invoke_hook pamh argc argv hook tr = map_option (\<lambda>(f, tr'). (panic_guard f, tr')) (hook h as tr)"
  | (refused) "pamh = None \<or> \<not> (\<exists>as. args_given argc argv as)"
    and "invoke_hook pamh argc argv hook tr = Some (Returns PAM_ABORT, tr)"
proof (cases "pamh = None \<or> \<not> (\<exists>as. args_given argc argv as)")
  case True
  show thesis by (rule refused [OF True invoke_hook_not_given [OF True]])
next
  case False
  then obtain h as where *: "pamh = Some h" "args_given argc argv as" by auto
  show thesis by (rule given [OF *]) (simp add: *(1) invoke_hook_given [OF *(2)])
qed

section \<open>Ownership\<close>

text \<open>
  A box handed to libpam has one owner. If \<open>set_data\<close> succeeds then libpam owns it, and the destructor
  that libpam calls later frees it; if it fails, for a bad key or an error of libpam, it has been freed. No other
  box is touched, and the destructor never unwinds, whatever the drop of the value does.
\<close>

lemma set_data_one_owner:
  assumes "set_data os lib h live key p = (r, h', live')" and "p \<in> live"
  shows "(p \<in> live' \<longleftrightarrow> is_ok r) \<and> live' - {p} = live - {p} \<and>
    cleanup drop_T (Some p) live' = (Returns (), live - {p})"
proof -
  have "live' = (if is_ok r then live else live - {p})"
    using assms(1) by (auto simp: set_data_def Let_def split: option.splits prod.splits if_splits)
  then show ?thesis
    using assms(2) by (auto simp: cleanup_def split: sum.splits)
qed

lemma set_data_one_owner_witness:
  "cleanup (\<lambda>_. Unwinds (Payload (Some (Payload None)))) (Some 5) {6} = (Returns (), {6})"
proof -
  have "set_data Linux \<lparr>pam_get_data = \<lambda>_ _. (0, None), pam_set_data = \<lambda>h _ _. (26, h),
     pam_get_item = \<lambda>_ _. (0, None), pam_set_item = \<lambda>h _ _. (0, h), pam_get_user = \<lambda>h _. ((0, None), h)\<rparr>
     () {5, 6} ''key'' 5 = (Inl PAM_ABORT, (), {6})"
    by (simp add: set_data_def cstring_new_def from_raw_def linux_try_from_def linux_try_from_arms_def)
  from set_data_one_owner [OF this] show ?thesis by simp
qed

section \<open>The panic guard\<close>

text \<open>
  Which panics the guard stops. A hook that panics yields \<open>PAM_ABORT\<close>, unless dropping its panic payload
  panics too: then that second panic unwinds out of the entry point.
\<close>

lemma panic_guard_exact:
  "panic_guard f = (case f of
     Returns code \<Rightarrow> Returns code
   | Unwinds (Payload None) \<Rightarrow> Returns PAM_ABORT
   | Unwinds (Payload (Some p)) \<Rightarrow> Unwinds p)"
  by (auto simp: panic_guard_def split: outcome.split payload.split option.split)

end
