(* ===== verification/Expansions.thy ===== *)
theory Expansions imports Environment PamBindings begin

text \<open>
  \<open>pamext.rs\<close> and \<open>expansions.rs\<close>: the two PAM items the module reads, and the expansion of the
  variables of an argument. A trait object is a record; a closure \<open>get_value\<close> is the result it
  would return, used only where the source calls it.

  The locale \<open>expansion\<close> is the contract of one expansion: text without a marker is left as it is,
  and text before the first marker is never touched. Every expansion of the file keeps it, and so
  does any sequence of them, which is how \<open>expand_vars\<close> gets it.
\<close>

section \<open>\<open>PamHandleExt\<close>\<close>

record pam_handle_ext =
  ext_calling_user :: "string result"
  ext_service :: "string result"

text \<open>
  The macro \<open>get_item!\<close>. The message of the first error also prints the result code, which is left
  out of the model's argument list.
\<close>

definition ext_get_item :: "platform \<Rightarrow> 'h libpam \<Rightarrow> 'h \<Rightarrow> item_type \<Rightarrow> string \<Rightarrow> string result" where
  "ext_get_item os lib h ty name =
     and_then (map_err (\<lambda>error. Anyhow ''Could not get_item {}: {error:?}'' [Str name])
        (get_item os lib h ty)) (\<lambda>item.
     and_then (ok_or (Anyhow ''Could not get_item {}'' [Str name]) item) (\<lambda>service.
     from_utf8 service))"

definition pam_handle_impl :: "platform \<Rightarrow> 'h libpam \<Rightarrow> 'h \<Rightarrow> pam_handle_ext" where
  "pam_handle_impl os lib h = \<lparr>
     ext_calling_user = ext_get_item os lib h User ''User'',
     ext_service = ext_get_item os lib h Service ''Service'' \<rparr>"

lemma ext_get_item_Inr:
  "ext_get_item os lib h ty name = Inr s \<longleftrightarrow>
     from_raw os (fst (pam_get_item lib h (item_code ty))) = PAM_SUCCESS \<and>
     snd (pam_get_item lib h (item_code ty)) = Some s \<and> utf8_valid s"
  by (auto simp: ext_get_item_def get_item_def result_simps Let_def split: prod.splits option.splits if_splits)

section \<open>The expansions\<close>

definition expand_var :: "string \<Rightarrow> string \<Rightarrow> string result \<Rightarrow> string result" where
  "expand_var input pattern get_value = (case find_sub pattern input of
     None \<Rightarrow> Inr input
   | Some idx \<Rightarrow>
       and_then get_value (\<lambda>value.
       Inr (take idx input @ value @ drop (idx + length pattern) input)))"

text \<open>The loop of \<open>get_username\<close> over the bytes after the tilde: the offset of the first slash.\<close>

fun username_end :: "nat \<Rightarrow> string \<Rightarrow> nat option" where
  "username_end offset [] = None"
| "username_end offset (c # cs) =
     (if c = CHR ''/'' then Some offset else username_end (Suc offset) cs)"

definition get_username :: "string \<Rightarrow> nat \<Rightarrow> string" where
  "get_username input idx =
     (let rest = drop (idx + 1) input in
      case username_end 0 rest of Some offset \<Rightarrow> take offset rest | None \<Rightarrow> rest)"

definition expand_homedir :: "string \<Rightarrow> (string \<Rightarrow> string result) \<Rightarrow> string result" where
  "expand_homedir input get_homedir = (case find_sub ''~'' input of
     None \<Rightarrow> Inr input
   | Some idx \<Rightarrow>
       (let user = get_username input idx in
        and_then (get_homedir user) (\<lambda>home.
        Inr (take idx input @ home @ drop (idx + 1 + length user) input))))"

definition get_home :: "environment \<Rightarrow> pam_handle_ext \<Rightarrow> string \<Rightarrow> string result" where
  "get_home env handle s =
     and_then (if s = [] then ext_calling_user handle else Inr s) (env_get_homedir env)"

definition expand_vars :: "string \<Rightarrow> environment \<Rightarrow> pam_handle_ext \<Rightarrow> string result" where
  "expand_vars input env handle =
     and_then (expand_homedir input (get_home env handle)) (\<lambda>input.
     and_then (expand_var input ''%h'' (and_then (ext_calling_user handle) (env_get_homedir env))) (\<lambda>input.
     and_then (expand_var input ''%H'' (env_get_hostname env)) (\<lambda>input.
     and_then (expand_var input ''%u'' (ext_calling_user handle)) (\<lambda>input.
     and_then (expand_var input ''%f'' (env_get_fqdn env)) (\<lambda>input.
     and_then (expand_var input ''%U''
        (and_then (ext_calling_user handle) (\<lambda>u. and_then (env_get_uid env u) (\<lambda>uid. Inr (show_nat (unat uid))))))
     Inr)))))"

section \<open>What one expansion replaces\<close>

lemma username_end: "username_end n cs = (if CHR ''/'' \<in> set cs
    then Some (n + length (takeWhile (\<lambda>c. c \<noteq> CHR ''/'') cs)) else None)"
  by (induction cs arbitrary: n) auto

lemma get_username: "get_username input idx = takeWhile (\<lambda>c. c \<noteq> CHR ''/'') (drop (idx + 1) input)"
proof -
  have "takeWhile (\<lambda>c. c \<noteq> CHR ''/'') r = r" if "CHR ''/'' \<notin> set r" for r
    using that by (induction r) auto
  then show ?thesis
    unfolding get_username_def Let_def username_end
    by (simp add: takeWhile_eq_take [symmetric] del: takeWhile_eq_all_conv)
qed

text \<open>\<open>find_sub\<close> skips text in which the pattern cannot start.\<close>

lemma find_sub_prefix:
  assumes "p \<noteq> []" and "hd p \<notin> set a"
  shows "find_sub p (a @ s) = map_option (\<lambda>i. length a + i) (find_sub p s)"
  using assms(2)
proof (induction a)
  case Nil
  then show ?case by (simp add: option.map_ident)
next
  case (Cons c a)
  have "\<not> starts_with p (c # a @ s)"
    using assms(1) Cons.prems by (cases p) auto
  with Cons show ?case by (simp add: option.map_comp o_def)
qed

lemma find_sub_absent: "p \<noteq> [] \<Longrightarrow> hd p \<notin> set s \<Longrightarrow> find_sub p s = None"
  using find_sub_prefix [of p s "[]"] by simp

lemma expand_var_first:
  assumes "find_sub pattern input = Some (length a)" and "input = a @ pattern @ b"
  shows "expand_var input pattern value = and_then value (\<lambda>v. Inr (a @ v @ b))"
  using assms by (simp add: expand_var_def)

lemma expand_homedir_first:
  assumes "CHR ''~'' \<notin> set a" and "CHR ''/'' \<notin> set user" and "rest = [] \<or> hd rest = CHR ''/''"
  shows "expand_homedir (a @ CHR ''~'' # user @ rest) home =
    and_then (home user) (\<lambda>h. Inr (a @ h @ rest))"
proof -
  have "find_sub ''~'' (a @ CHR ''~'' # user @ rest) = Some (length a)"
    using assms(1) by (subst find_sub_prefix) auto
  moreover have "get_username (a @ CHR ''~'' # user @ rest) (length a) = user"
  proof -
    have "\<forall>c\<in>set user. c \<noteq> CHR ''/''" using assms(2) by auto
    then show ?thesis
      using assms(3) by (cases rest) (auto simp: get_username takeWhile_append_stop)
  qed
  ultimately show ?thesis by (simp add: expand_homedir_def)
qed

section \<open>The contract of an expansion\<close>

locale expansion =
  fixes marker :: "char \<Rightarrow> bool" and expand :: "string \<Rightarrow> string result"
  assumes plain: "\<forall>c\<in>set s. \<not> marker c \<Longrightarrow> expand s = Inr s"
    and frame: "\<forall>c\<in>set a. \<not> marker c \<Longrightarrow> expand (a @ s) = and_then (expand s) (\<lambda>t. Inr (a @ t))"
begin

lemma prefix_kept:
  assumes "\<forall>c\<in>set a. \<not> marker c" and "expand (a @ s) = Inr t"
  obtains u where "t = a @ u" and "expand s = Inr u"
  using assms by (auto simp: frame result_simps)

lemma fails_by_marker: "expand s = Inl e \<Longrightarrow> \<exists>c\<in>set s. marker c"
  using plain by fastforce

end

lemma expansion_mono: "expansion P f \<Longrightarrow> (\<And>c. P c \<Longrightarrow> Q c) \<Longrightarrow> expansion Q f"
  unfolding expansion_def by metis

lemma expansion_seq:
  assumes f: "expansion P f" and g: "expansion P g"
  shows "expansion P (\<lambda>s. and_then (f s) g)"
proof (rule expansion.intro)
  fix s assume "\<forall>c\<in>set s. \<not> P c"
  then show "and_then (f s) g = Inr s"
    by (simp add: expansion.plain [OF f] expansion.plain [OF g])
next
  fix a s assume a: "\<forall>c\<in>set a. \<not> P c"
  show "and_then (f (a @ s)) g = and_then (and_then (f s) g) (\<lambda>t. Inr (a @ t))"
    by (cases "f s") (simp_all add: expansion.frame [OF f a] expansion.frame [OF g a])
qed

lemma expansion_return: "expansion P Inr"
  by unfold_locales simp_all

interpretation var: expansion "\<lambda>c. c = p" "\<lambda>s. expand_var s (p # ps) v" for p ps v
proof
  show "expand_var s (p # ps) v = Inr s" if "\<forall>c\<in>set s. c \<noteq> p" for s
  proof -
    have "find_sub (p # ps) s = None" using that by (intro find_sub_absent) auto
    then show ?thesis by (simp add: expand_var_def)
  qed
  show "expand_var (a @ s) (p # ps) v = and_then (expand_var s (p # ps) v) (\<lambda>t. Inr (a @ t))"
    if "\<forall>c\<in>set a. c \<noteq> p" for a s
  proof -
    have "find_sub (p # ps) (a @ s) = map_option (\<lambda>i. length a + i) (find_sub (p # ps) s)"
      using that by (intro find_sub_prefix) auto
    then show ?thesis
      by (cases "find_sub (p # ps) s") (simp_all add: expand_var_def and_then_assoc)
  qed
qed

interpretation home: expansion "\<lambda>c. c = CHR ''~''" "\<lambda>s. expand_homedir s get_homedir" for get_homedir
proof
  show "expand_homedir s get_homedir = Inr s" if "\<forall>c\<in>set s. c \<noteq> CHR ''~''" for s
  proof -
    have "find_sub ''~'' s = None" using that by (intro find_sub_absent) auto
    then show ?thesis by (simp add: expand_homedir_def)
  qed
  show "expand_homedir (a @ s) get_homedir = and_then (expand_homedir s get_homedir) (\<lambda>t. Inr (a @ t))"
    if "\<forall>c\<in>set a. c \<noteq> CHR ''~''" for a s
  proof -
    have found: "find_sub ''~'' (a @ s) = map_option (\<lambda>i. length a + i) (find_sub ''~'' s)"
      using that by (intro find_sub_prefix) auto
    have "get_username (a @ s) (length a + i) = get_username s i" for i
      by (simp add: get_username)
    with found show ?thesis
      by (cases "find_sub ''~'' s") (simp_all add: expand_homedir_def Let_def and_then_assoc)
  qed
qed

text \<open>The markers of an argument: the tilde and the percent sign.\<close>

definition is_marker :: "char \<Rightarrow> bool" where
  "is_marker c \<longleftrightarrow> c = CHR ''~'' \<or> c = CHR ''%''"

lemma expansion_percent: "expansion is_marker (\<lambda>s. expand_var s (CHR ''%'' # ps) value)"
  by (rule expansion_mono [OF var.expansion_axioms]) (simp add: is_marker_def)

lemma expansion_home: "expansion is_marker (\<lambda>s. expand_homedir s h)"
  by (rule expansion_mono [OF home.expansion_axioms]) (simp add: is_marker_def)

interpretation vars: expansion is_marker "\<lambda>s. expand_vars s env handle" for env handle
  unfolding expand_vars_def
  by (intro expansion_seq expansion_home expansion_percent expansion_return)

section \<open>Expanding a single variable\<close>

text \<open>The variables of the documentation: each pattern with the value it stands for.\<close>

definition variable_value :: "environment \<Rightarrow> pam_handle_ext \<Rightarrow> char \<Rightarrow> string result option" where
  "variable_value env handle c = map_of [
     (CHR ''h'', and_then (ext_calling_user handle) (env_get_homedir env)),
     (CHR ''H'', env_get_hostname env),
     (CHR ''u'', ext_calling_user handle),
     (CHR ''f'', env_get_fqdn env),
     (CHR ''U'', and_then (ext_calling_user handle)
        (\<lambda>u. and_then (env_get_uid env u) (\<lambda>uid. Inr (show_nat (unat uid)))))] c"

definition marker_free :: "string \<Rightarrow> bool" where
  "marker_free s \<longleftrightarrow> list_all (\<lambda>c. \<not> is_marker c) s"

lemma marker_free_simps [simp]:
  "marker_free []" "marker_free (c # s) \<longleftrightarrow> \<not> is_marker c \<and> marker_free s"
  "marker_free (s @ t) \<longleftrightarrow> marker_free s \<and> marker_free t"
  by (simp_all add: marker_free_def)

lemma marker_free_iff: "marker_free s \<longleftrightarrow> (\<forall>c\<in>set s. \<not> is_marker c)"
  by (simp add: marker_free_def list_all_iff)

lemma starts_with_Cons2: "starts_with [p, q] (p # c # s) \<longleftrightarrow> q = c"
  by simp

lemma expand_var_at:
  assumes "marker_free a"
  shows "expand_var (a @ CHR ''%'' # c # b) [CHR ''%'', c] v = and_then v (\<lambda>w. Inr (a @ w @ b))"
proof -
  have "CHR ''%'' \<notin> set a" using assms by (auto simp: marker_free_iff is_marker_def)
  then have "find_sub [CHR ''%'', c] (a @ CHR ''%'' # c # b) = Some (length a)"
    by (subst find_sub_prefix) auto
  then show ?thesis by (simp add: expand_var_def)
qed

lemma expand_var_other:
  assumes "marker_free a" and "marker_free b" and "d \<noteq> c" and "\<not> is_marker c"
  shows "expand_var (a @ CHR ''%'' # c # b) [CHR ''%'', d] v = Inr (a @ CHR ''%'' # c # b)"
proof -
  have not_in: "CHR ''%'' \<notin> set a" "CHR ''%'' \<notin> set b" "CHR ''%'' \<noteq> c"
    using assms by (auto simp: marker_free_iff is_marker_def)
  then have "find_sub [CHR ''%'', d] b = None" by (intro find_sub_absent) auto
  with not_in assms(3) have "find_sub [CHR ''%'', d] (CHR ''%'' # c # b) = None" by simp
  moreover have "find_sub [CHR ''%'', d] (a @ CHR ''%'' # c # b) =
      map_option (\<lambda>i. length a + i) (find_sub [CHR ''%'', d] (CHR ''%'' # c # b))"
    using not_in by (intro find_sub_prefix) auto
  ultimately show ?thesis by (simp add: expand_var_def)
qed

lemma expand_var_none:
  "marker_free s \<Longrightarrow> expand_var s (CHR ''%'' # ps) v = Inr s"
  by (rule expansion.plain [OF expansion_percent]) (simp add: marker_free_iff)

lemma expand_homedir_none: "CHR ''~'' \<notin> set s \<Longrightarrow> expand_homedir s h = Inr s"
  by (rule home.plain) auto

text \<open>
  One variable is replaced by its value. In an argument whose only marker is one of \<open>%h %H %u %f %U\<close>, with a
  value free of markers, exactly that variable is replaced and the rest of the text is kept.
\<close>

lemma expand_vars_variable:
  assumes "marker_free a" and "marker_free b" and "variable_value env handle c = Some (Inr v)"
    and "marker_free v"
  shows "expand_vars (a @ CHR ''%'' # c # b) env handle = Inr (a @ v @ b)"
proof -
  have c: "c \<in> set ''hHufU''"
    using assms(3) by (auto simp: variable_value_def split: if_splits)
  then have plain: "\<not> is_marker c" by (auto simp: is_marker_def)
  have free: "marker_free (a @ v @ b)" using assms by simp
  have "CHR ''~'' \<notin> set (a @ CHR ''%'' # c # b)"
    using assms(1,2) plain by (auto simp: marker_free_iff is_marker_def)
  then have tilde: "expand_homedir (a @ CHR ''%'' # c # b) h = Inr (a @ CHR ''%'' # c # b)" for h
    by (rule expand_homedir_none)
  note steps = expand_vars_def tilde expand_var_other [OF assms(1,2)] expand_var_at [OF assms(1)]
    expand_var_none [OF free]
  from c assms(3) show ?thesis
    by (auto simp: steps variable_value_def is_marker_def)
qed

lemma find_sub_percent:
  assumes "marker_free a" and "c \<noteq> d" and "\<not> is_marker c"
  shows "find_sub [CHR ''%'', d] (a @ CHR ''%'' # c # s) = map_option (\<lambda>i. length a + i + 2) (find_sub [CHR ''%'', d] s)"
proof -
  have "CHR ''%'' \<notin> set a" "c \<noteq> CHR ''%''"
    using assms(1,3) by (auto simp: marker_free_iff is_marker_def)
  then have "find_sub [CHR ''%'', d] (a @ CHR ''%'' # c # s) =
      map_option (\<lambda>i. length a + i) (find_sub [CHR ''%'', d] (CHR ''%'' # c # s))"
    by (intro find_sub_prefix) auto
  with assms(2) \<open>c \<noteq> CHR ''%''\<close> show ?thesis
    by (simp add: option.map_comp o_def)
qed

lemma find_sub_marker_free: "marker_free s \<Longrightarrow> find_sub [CHR ''%'', d] s = None"
  by (rule find_sub_absent) (auto simp: marker_free_iff is_marker_def)

text \<open>
  Each variable is expanded at most once. Of two occurrences of \<open>%u\<close> in an argument only the first is replaced;
  the second stays as it is.
\<close>

lemma only_first_occurrence:
  assumes "ext_calling_user handle = Inr u" and "marker_free u" and "marker_free a" and "marker_free b" and "marker_free c"
  shows "expand_vars (a @ ''%u'' @ b @ ''%u'' @ c) env handle = Inr (a @ u @ b @ ''%u'' @ c)"
proof -
  have plain: "\<not> is_marker CHR ''u''" by (simp add: is_marker_def)
  have free: "marker_free (a @ u @ b)" using assms by simp
  have none: "expand_var (a @ ''%u'' @ b @ ''%u'' @ c) [CHR ''%'', d] v = Inr (a @ ''%u'' @ b @ ''%u'' @ c)"
      "expand_var (a @ u @ b @ ''%u'' @ c) [CHR ''%'', d] v = Inr (a @ u @ b @ ''%u'' @ c)" if "d \<noteq> CHR ''u''" for d v
    using find_sub_percent [OF assms(3) not_sym [OF that] plain, of "b @ ''%u'' @ c"]
      find_sub_percent [OF assms(4) not_sym [OF that] plain, of c]
      find_sub_percent [OF free not_sym [OF that] plain, of c] find_sub_marker_free [OF assms(5)]
    by (simp_all add: expand_var_def)
  have first: "expand_var (a @ ''%u'' @ b @ ''%u'' @ c) ''%u'' v = and_then v (\<lambda>w. Inr (a @ w @ b @ ''%u'' @ c))" for v
    using expand_var_at [OF assms(3), of "CHR ''u''" "b @ ''%u'' @ c"] by simp
  have "CHR ''~'' \<notin> set (a @ ''%u'' @ b @ ''%u'' @ c)"
    using assms(3-5) by (auto simp: marker_free_iff is_marker_def)
  note tilde = expand_homedir_none [OF this]
  note nones = none(1) [of "CHR ''h''"] none(1) [of "CHR ''H''"] none(2) [of "CHR ''f''"] none(2) [of "CHR ''U''"]
  show ?thesis
    by (simp add: expand_vars_def tilde [simplified] nones [simplified] first [simplified] assms(1))
qed

end
