(* ===== verification/ExpansionSlices.thy ===== *)
theory ExpansionSlices imports Expansions begin

text \<open>
  The strings of \<open>expansions.rs\<close> as Rust's type \<open>String\<close> sees them: every value is well-formed UTF-8, and every
  slice is taken at boundaries of characters, so that none of them panics. The functions \<open>_sliced\<close> are the
  functions of \<open>Expansions\<close> with the panic of a slice as the result \<open>None\<close>.
\<close>

section \<open>Strings stay well formed, and no slice panics\<close>

text \<open>What the type \<open>String\<close> promises of the values that the two traits return.\<close>

definition returns_string :: "string result \<Rightarrow> bool" where
  "returns_string r \<longleftrightarrow> (\<forall>s. r = Inr s \<longrightarrow> utf8_valid s)"

definition well_formed_environment :: "environment \<Rightarrow> bool" where
  "well_formed_environment env \<longleftrightarrow> (\<forall>user. returns_string (env_get_homedir env user)) \<and>
     returns_string (env_get_hostname env) \<and> returns_string (env_get_fqdn env)"

definition well_formed_handle :: "pam_handle_ext \<Rightarrow> bool" where
  "well_formed_handle handle \<longleftrightarrow> returns_string (ext_calling_user handle) \<and> returns_string (ext_service handle)"

named_theorems returns_string_intros \<open>which results are strings\<close>

lemma returns_string_simps [simp]: "returns_string (Inl e)" "returns_string (Inr s) \<longleftrightarrow> utf8_valid s"
  by (simp_all add: returns_string_def)

lemma returns_string_and_then [returns_string_intros]:
  "(\<And>x. r = Inr x \<Longrightarrow> returns_string (f x)) \<Longrightarrow> returns_string (and_then r f)"
  by (cases r) (simp_all add: returns_string_def)

lemma utf8_valid_around:
  assumes "utf8_valid (a @ p @ b)" and "ascii p" and "p \<noteq> []"
  shows "utf8_valid a" and "utf8_valid b"
proof -
  obtain c q where p: "p = c # q" using assms(3) by (cases p) auto
  with assms(2) have c: "(of_char c :: nat) < 128" and q: "ascii q" by (simp_all add: ascii_def)
  note halves = utf8_valid_split_ascii [OF assms(1) [unfolded p, simplified] c]
  show "utf8_valid a" by (rule halves)
  have "utf8_valid (q @ b) \<Longrightarrow> utf8_valid b"
    using q by (induction q) (simp_all add: ascii_def utf8_valid_Cons_ascii)
  then show "utf8_valid b" using halves(2) by simp
qed

lemma boundaries_around:
  assumes "utf8_valid (a @ p @ b)" and "ascii p" and "p \<noteq> []"
  shows "is_char_boundary (a @ p @ b) (length a)" and "is_char_boundary (a @ p @ b) (length a + length p)"
proof -
  have "utf8_valid (p @ b)"
    using utf8_valid_around [OF assms] assms(2) by (simp add: utf8_valid_append ascii_utf8_valid)
  then show "is_char_boundary (a @ p @ b) (length a)" by (rule char_boundary_append)
  show "is_char_boundary (a @ p @ b) (length a + length p)"
    using char_boundary_append [OF utf8_valid_around(2) [OF assms], of "a @ p"] by simp
qed

lemma returns_string_expand_var:
  assumes "utf8_valid input" and "ascii pattern" and "pattern \<noteq> []" and "returns_string v"
  shows "returns_string (expand_var input pattern v)"
proof (cases "find_sub pattern input")
  case (Some idx)
  then obtain a b where ab: "input = a @ pattern @ b" "length a = idx" using find_sub_Some by blast
  then show ?thesis
    using assms(4) utf8_valid_around [OF assms(1) [unfolded ab] assms(2,3)] Some
    by (cases v) (simp_all add: expand_var_def utf8_valid_append)
qed (simp add: expand_var_def assms(1))

text \<open>The user name after a tilde, and what follows it.\<close>

lemma tilde_parts:
  assumes "find_sub ''~'' input = Some idx"
  obtains a rest where "input = a @ CHR ''~'' # get_username input idx @ rest" "length a = idx"
    "drop (idx + 1) input = get_username input idx @ rest" "rest = [] \<or> hd rest = CHR ''/''"
proof -
  obtain a b where ab: "input = a @ ''~'' @ b" "length a = idx" using find_sub_Some [OF assms] by blast
  then have user: "get_username input idx = takeWhile (\<lambda>c. c \<noteq> CHR ''/'') b" by (simp add: get_username)
  show thesis
    by (rule that [of a "dropWhile (\<lambda>c. c \<noteq> CHR ''/'') b"])
      (use ab user hd_dropWhile [of "\<lambda>c. c \<noteq> CHR ''/''" b] in auto)
qed

lemma username_valid:
  assumes "utf8_valid (user @ rest)" and "rest = [] \<or> hd rest = CHR ''/''"
  shows "utf8_valid user" and "utf8_valid rest"
proof -
  have "utf8_valid user \<and> utf8_valid rest"
  proof (cases rest)
    case (Cons c s)
    with assms have c: "c = CHR ''/''" "(of_char c :: nat) < 128" by auto
    with Cons assms(1) show ?thesis
      using utf8_valid_split_ascii [of user c s] by (simp add: utf8_valid_Cons_ascii)
  qed (use assms in \<open>simp add: ascii_utf8_valid ascii_def\<close>)
  then show "utf8_valid user" "utf8_valid rest" by simp_all
qed

lemma tilde_valid:
  assumes "find_sub ''~'' input = Some idx" and "utf8_valid input"
  obtains a rest where "input = a @ CHR ''~'' # get_username input idx @ rest" "length a = idx"
    "utf8_valid a" "utf8_valid (get_username input idx)" "utf8_valid rest"
proof -
  obtain a rest where parts: "input = a @ CHR ''~'' # get_username input idx @ rest" "length a = idx"
      "rest = [] \<or> hd rest = CHR ''/''" using tilde_parts [OF assms(1)] by blast
  have "utf8_valid a" "utf8_valid (get_username input idx @ rest)"
    using utf8_valid_split_ascii [of a "CHR ''~''" "get_username input idx @ rest"] assms(2) parts(1) by auto
  then show thesis using that parts username_valid by blast
qed

lemma returns_string_expand_homedir:
  assumes "utf8_valid input" and "\<And>u. utf8_valid u \<Longrightarrow> returns_string (get_homedir u)"
  shows "returns_string (expand_homedir input get_homedir)"
proof (cases "find_sub ''~'' input")
  case (Some idx)
  then obtain a rest where parts: "input = a @ CHR ''~'' # get_username input idx @ rest" "length a = idx"
      "utf8_valid a" "utf8_valid (get_username input idx)" "utf8_valid rest"
    using tilde_valid assms(1) by blast
  have "drop (idx + 1 + length (get_username input idx)) input = rest"
    by (subst parts(1)) (simp add: parts(2))
  moreover have "take idx input = a" by (subst parts(1)) (simp add: parts(2))
  ultimately show ?thesis
    using parts assms(2) [OF parts(4)] Some
    by (cases "get_homedir (get_username input idx)") (simp_all add: expand_homedir_def Let_def utf8_valid_append)
qed (simp add: expand_homedir_def assms(1))

lemma show_nat_valid: "utf8_valid (show_nat n)"
proof -
  have "ascii (show_nat n)"
    by (induction n rule: show_nat.induct) (subst show_nat.simps, auto simp: ascii_def digit_char_def)
  then show ?thesis by (rule ascii_utf8_valid)
qed

lemma returns_string_get_home:
  "well_formed_environment env \<Longrightarrow> returns_string (get_home env handle u)"
  by (auto simp: get_home_def well_formed_environment_def intro!: returns_string_intros)

lemma returns_string_values:
  assumes "well_formed_environment env" and "well_formed_handle handle"
  shows "returns_string (and_then (ext_calling_user handle) (env_get_homedir env))"
    and "returns_string (env_get_hostname env)" and "returns_string (ext_calling_user handle)"
    and "returns_string (env_get_fqdn env)"
    and "returns_string (and_then (ext_calling_user handle) (\<lambda>u. and_then (env_get_uid env u) (\<lambda>uid. Inr (show_nat (unat uid)))))"
  using assms
  by (auto simp: well_formed_environment_def well_formed_handle_def show_nat_valid intro!: returns_string_intros)

lemma returns_string_expand_vars:
  assumes "utf8_valid input" and env: "well_formed_environment env" and handle: "well_formed_handle handle"
  shows "returns_string (expand_vars input env handle)"
proof -
  have ascii: "ascii ''%h''" "ascii ''%H''" "ascii ''%u''" "ascii ''%f''" "ascii ''%U''" by (simp_all add: ascii_def)
  note vals = returns_string_values [OF env handle]
  have step: "returns_string (and_then r f)" if "returns_string r" "\<And>s. utf8_valid s \<Longrightarrow> returns_string (f s)" for r f
    using that by (cases r) simp_all
  show ?thesis
    unfolding expand_vars_def
    by (intro step returns_string_expand_homedir returns_string_expand_var ascii vals assms(1)
        returns_string_get_home env) simp_all
qed


text \<open>
  The same code with the slices as Rust executes them: \<open>s[i..j]\<close> panics unless both ends are boundaries of
  characters, in order. \<open>None\<close> is the panic.
\<close>

definition str_slice :: "string \<Rightarrow> nat \<Rightarrow> nat \<Rightarrow> string option" where
  "str_slice s i j =
     (if i \<le> j \<and> is_char_boundary s i \<and> is_char_boundary s j then Some (take (j - i) (drop i s)) else None)"

definition or_panic :: "'a result option \<Rightarrow> ('a \<Rightarrow> 'b result option) \<Rightarrow> 'b result option" where
  "or_panic m k = (case m of None \<Rightarrow> None | Some r \<Rightarrow> (case r of Inl e \<Rightarrow> Some (Inl e) | Inr x \<Rightarrow> k x))"

definition expand_var_sliced :: "string \<Rightarrow> string \<Rightarrow> string result \<Rightarrow> string result option" where
  "expand_var_sliced input pattern get_value = (case find_sub pattern input of
     None \<Rightarrow> Some (Inr input)
   | Some idx \<Rightarrow>
       or_panic (map_option Inr (str_slice input 0 idx)) (\<lambda>before.
       or_panic (Some get_value) (\<lambda>value.
       or_panic (map_option Inr (str_slice input (idx + length pattern) (length input))) (\<lambda>after.
       Some (Inr (before @ value @ after))))))"

definition get_username_sliced :: "string \<Rightarrow> nat \<Rightarrow> string option" where
  "get_username_sliced input idx =
     (let idx = idx + 1 in
      Option.bind (str_slice input idx (length input)) (\<lambda>rest.
      case username_end 0 rest of
        Some offset \<Rightarrow> str_slice input idx (idx + offset)
      | None \<Rightarrow> str_slice input idx (length input)))"

definition expand_homedir_sliced :: "string \<Rightarrow> (string \<Rightarrow> string result) \<Rightarrow> string result option" where
  "expand_homedir_sliced input get_homedir = (case find_sub ''~'' input of
     None \<Rightarrow> Some (Inr input)
   | Some idx \<Rightarrow>
       or_panic (map_option Inr (get_username_sliced input idx)) (\<lambda>user.
       or_panic (map_option Inr (str_slice input 0 idx)) (\<lambda>before.
       or_panic (Some (get_homedir user)) (\<lambda>home.
       or_panic (map_option Inr (str_slice input (idx + 1 + length user) (length input))) (\<lambda>after.
       Some (Inr (before @ home @ after)))))))"

definition expand_vars_sliced :: "string \<Rightarrow> environment \<Rightarrow> pam_handle_ext \<Rightarrow> string result option" where
  "expand_vars_sliced input env handle =
     or_panic (expand_homedir_sliced input (get_home env handle)) (\<lambda>input.
     or_panic (expand_var_sliced input ''%h'' (and_then (ext_calling_user handle) (env_get_homedir env))) (\<lambda>input.
     or_panic (expand_var_sliced input ''%H'' (env_get_hostname env)) (\<lambda>input.
     or_panic (expand_var_sliced input ''%u'' (ext_calling_user handle)) (\<lambda>input.
     or_panic (expand_var_sliced input ''%f'' (env_get_fqdn env)) (\<lambda>input.
     expand_var_sliced input ''%U''
        (and_then (ext_calling_user handle) (\<lambda>u. and_then (env_get_uid env u) (\<lambda>uid. Inr (show_nat (unat uid))))))))))"

lemma or_panic_simps [simp]: "or_panic (Some (Inr x)) k = k x" "or_panic (Some (Inl e)) k = Some (Inl e)"
  by (simp_all add: or_panic_def)

lemma str_slice_part:
  assumes "s = a @ b @ c" and "i = length a" and "j = length a + length b" and "utf8_valid b" and "utf8_valid c"
  shows "str_slice s i j = Some b"
  using assms char_boundary_append [of "b @ c" a] char_boundary_append [of c "a @ b"]
  by (simp add: str_slice_def utf8_valid_append)

lemma utf8_valid_Nil [simp]: "utf8_valid []"
  by (simp add: ascii_utf8_valid ascii_def)

lemma expand_var_sliced:
  assumes "utf8_valid input" and "ascii pattern" and "pattern \<noteq> []"
  shows "expand_var_sliced input pattern v = Some (expand_var input pattern v)"
proof (cases "find_sub pattern input")
  case (Some idx)
  then obtain a b where ab: "input = a @ pattern @ b" "length a = idx" using find_sub_Some by blast
  note valid = utf8_valid_around [OF assms(1) [unfolded ab] assms(2,3)] ascii_utf8_valid [OF assms(2)]
  have "str_slice input 0 idx = Some a"
    using valid ab by (intro str_slice_part [where a = "[]" and c = "pattern @ b"]) (simp_all add: utf8_valid_append)
  moreover have "str_slice input (idx + length pattern) (length input) = Some b"
    using valid ab by (intro str_slice_part [where a = "a @ pattern" and c = "[]"]) simp_all
  ultimately show ?thesis
    using Some ab by (cases v) (simp_all add: expand_var_sliced_def expand_var_def)
qed (simp add: expand_var_sliced_def expand_var_def)

lemma get_username_sliced:
  assumes "input = a @ CHR ''~'' # b" and "length a = idx" and "utf8_valid b"
  shows "get_username_sliced input idx = Some (get_username input idx)"
proof -
  let ?user = "takeWhile (\<lambda>c. c \<noteq> CHR ''/'') b"
  have rest: "str_slice input (Suc idx) (length input) = Some b"
    using assms by (intro str_slice_part [where a = "a @ ''~''" and c = "[]"]) simp_all
  have valid: "utf8_valid ?user" "utf8_valid (dropWhile (\<lambda>c. c \<noteq> CHR ''/'') b)"
    using username_valid [of ?user "dropWhile (\<lambda>c. c \<noteq> CHR ''/'') b"] assms(3)
      hd_dropWhile [of "\<lambda>c. c \<noteq> CHR ''/''" b] by auto
  have user: "str_slice input (Suc idx) (Suc idx + length ?user) = Some ?user"
    using assms(1,2) valid
    by (intro str_slice_part [where a = "a @ ''~''" and c = "dropWhile (\<lambda>c. c \<noteq> CHR ''/'') b"]) simp_all
  have "drop (idx + 1) input = b" using assms(1,2) by simp
  then have name: "get_username input idx = ?user" by (simp add: get_username)
  show ?thesis
  proof (cases "CHR ''/'' \<in> set b")
    case True
    then show ?thesis
      using rest user by (simp add: get_username_sliced_def name username_end)
  next
    case False
    then have "?user = b" by (induction b) auto
    with name have "get_username input idx = b" by (rule trans)
    with False show ?thesis by (simp add: get_username_sliced_def rest username_end)
  qed
qed

lemma expand_homedir_sliced:
  assumes "utf8_valid input"
  shows "expand_homedir_sliced input h = Some (expand_homedir input h)"
proof (cases "find_sub ''~'' input")
  case (Some idx)
  let ?user = "get_username input idx"
  obtain a rest where parts: "input = a @ CHR ''~'' # ?user @ rest" "length a = idx"
      "utf8_valid a" "utf8_valid ?user" "utf8_valid rest"
    using tilde_valid [OF Some assms] by blast
  have user: "get_username_sliced input idx = Some ?user"
    using parts by (intro get_username_sliced [where b = "?user @ rest"]) (simp_all add: utf8_valid_append)
  have before: "str_slice input 0 idx = Some a"
    using parts by (intro str_slice_part [where a = "[]" and c = "CHR ''~'' # ?user @ rest"])
      (simp_all add: utf8_valid_append utf8_valid_Cons_ascii)
  have len: "length input = Suc (idx + length ?user + length rest)" by (subst parts(1)) (simp add: parts(2))
  have after: "str_slice input (Suc (idx + length ?user)) (length input) = Some rest"
    using parts len by (intro str_slice_part [where a = "a @ CHR ''~'' # ?user" and c = "[]"]) simp_all
  have "take idx input = a" "drop (Suc (idx + length ?user)) input = rest"
    by (subst parts(1), simp add: parts(2))+
  then show ?thesis
    using Some user before after by (cases "h ?user") (simp_all add: expand_homedir_sliced_def expand_homedir_def Let_def)
qed (simp add: expand_homedir_sliced_def expand_homedir_def)

lemma or_panic_string:
  assumes "m = Some r" and "returns_string r" and "\<And>s. utf8_valid s \<Longrightarrow> k s = Some (f s)"
  shows "or_panic m k = Some (and_then r f)"
  using assms by (cases r) simp_all

lemma and_then_Inr_right: "and_then r Inr = r"
  by (cases r) simp_all

lemma expand_vars_sliced_total:
  assumes "utf8_valid input" and "well_formed_environment env" and "well_formed_handle handle"
  shows "expand_vars_sliced input env handle = Some (expand_vars input env handle)"
proof -
  have ascii: "ascii ''%h''" "ascii ''%H''" "ascii ''%u''" "ascii ''%f''" "ascii ''%U''" by (simp_all add: ascii_def)
  note vals = returns_string_values [OF assms(2,3)]
  show ?thesis
    unfolding expand_vars_sliced_def expand_vars_def
    by (intro or_panic_string expand_homedir_sliced expand_var_sliced returns_string_expand_homedir returns_string_expand_var
        returns_string_get_home vals ascii assms) (simp_all add: and_then_Inr_right expand_var_sliced ascii)
qed

text \<open>
  C28: the expansion of an argument never panics. On a well-formed string, with values that are well-formed strings,
  every index at which the code slices is the boundary of a character, so the code with its panics returns exactly what
  the model returns.
\<close>

theorem expand_vars_never_panics:
  assumes "utf8_valid input" and "well_formed_environment env" and "well_formed_handle handle"
  shows "expand_vars_sliced input env handle = Some (expand_vars input env handle)"
  using assms by (rule expand_vars_sliced_total)

text \<open>The environment of the module and the handle it passes on are well formed.\<close>

lemma unix_well_formed: "well_formed_environment (unix_environment hst)"
proof -
  have "utf8_valid (takeWhile (\<lambda>c. c \<noteq> CHR ''.'') s)" if "utf8_valid s" for s
  proof (cases "dropWhile (\<lambda>c. c \<noteq> CHR ''.'') s")
    case Nil
    then have "takeWhile (\<lambda>c. c \<noteq> CHR ''.'') s = s" by (metis append_Nil2 takeWhile_dropWhile_id)
    with that show ?thesis by (simp only:)
  next
    case (Cons c t)
    then have "c = CHR ''.''" using hd_dropWhile [of "\<lambda>c. c \<noteq> CHR ''.''" s] by auto
    with Cons have s: "s = takeWhile (\<lambda>c. c \<noteq> CHR ''.'') s @ CHR ''.'' # t" by (metis takeWhile_dropWhile_id)
    have "utf8_valid (takeWhile (\<lambda>c. c \<noteq> CHR ''.'') s @ CHR ''.'' # t)"
      using that by (simp only: s [symmetric])
    then show ?thesis by (rule utf8_valid_split_ascii) simp
  qed
  then show ?thesis
    by (auto simp: well_formed_environment_def returns_string_def unix_get_hostname_def result_simps
        dest: utf8_valid_homedir utf8_valid_fqdn)
qed

lemma pam_handle_well_formed: "well_formed_handle (pam_handle_impl os lib h)"
  by (auto simp: well_formed_handle_def returns_string_def pam_handle_impl_def ext_get_item_Inr)

end
