(* ===== verification/Paths.thy ===== *)
theory Paths imports Prelude begin

text \<open>
  \<open>std::path\<close> on Unix, as far as the sources use it: \<open>is_absolute\<close>, \<open>components\<close> with its
  normalisation (repeated slashes and inner \<open>.\<close> vanish, \<open>..\<close> stays), \<open>PathBuf::push\<close> and the
  equality of paths, which compares components.
\<close>

definition is_absolute :: "string \<Rightarrow> bool" where
  "is_absolute p = (case p of [] \<Rightarrow> False | c # _ \<Rightarrow> c = CHR ''/'')"

datatype component = RootDir | CurDir | ParentDir | Normal string

fun component_str :: "component \<Rightarrow> string" where
  "component_str RootDir = ''/''"
| "component_str CurDir = ''.''"
| "component_str ParentDir = ''..''"
| "component_str (Normal s) = s"

fun split_slash :: "string \<Rightarrow> string list" where
  "split_slash [] = [[]]"
| "split_slash (c # cs) =
     (if c = CHR ''/'' then [] # split_slash cs
      else case split_slash cs of [] \<Rightarrow> [[c]] | p # ps \<Rightarrow> (c # p) # ps)"

definition body_components :: "string list \<Rightarrow> component list" where
  "body_components ps =
     map (\<lambda>p. if p = ''..'' then ParentDir else Normal p) (filter (\<lambda>p. p \<noteq> [] \<and> p \<noteq> ''.'') ps)"

definition components :: "string \<Rightarrow> component list" where
  "components path =
     (if is_absolute path then RootDir # body_components (split_slash path)
      else if hd (split_slash path) = ''.'' then CurDir # body_components (tl (split_slash path))
      else body_components (split_slash path))"

definition path_push :: "string \<Rightarrow> string \<Rightarrow> string" where
  "path_push cur p =
     (if is_absolute p then p
      else if cur = [] \<or> last cur = CHR ''/'' then cur @ p
      else cur @ ''/'' @ p)"

definition path_eq :: "string \<Rightarrow> string \<Rightarrow> bool" where
  "path_eq p q \<longleftrightarrow> components p = components q"

section \<open>Components of absolute paths\<close>

lemma split_slash_not_Nil [simp]: "split_slash p \<noteq> []"
  by (induction p) (auto split: list.splits)

lemma split_slash_pieces: "p \<in> set (split_slash s) \<Longrightarrow> CHR ''/'' \<notin> set p"
proof (induction s arbitrary: p)
  case (Cons c cs)
  then show ?case by (cases "split_slash cs") (auto split: if_splits)
qed simp

lemma split_slash_piece: "CHR ''/'' \<notin> set p \<Longrightarrow> split_slash p = [p]"
  by (induction p) auto

lemma split_slash_append:
  "CHR ''/'' \<notin> set p \<Longrightarrow> split_slash (p @ CHR ''/'' # s) = p # split_slash s"
  by (induction p) auto

lemma body_components_kinds: "c \<in> set (body_components ps) \<Longrightarrow>
    c = ParentDir \<or> (\<exists>s. c = Normal s \<and> s \<noteq> [] \<and> s \<noteq> ''.'' \<and> s \<noteq> ''..'')"
  by (auto simp: body_components_def split: if_splits)

lemma components_absolute: "is_absolute p \<Longrightarrow> \<exists>cs. components p = RootDir # cs \<and> RootDir \<notin> set cs \<and> CurDir \<notin> set cs"
  by (auto simp: components_def dest: body_components_kinds)

text \<open>A component is a name without a slash, so it is a path of one component.\<close>

lemma components_Normal:
  assumes "Normal s \<in> set (components p)"
  shows "CHR ''/'' \<notin> set s" and "s \<noteq> []" and "s \<noteq> ''.''" and "s \<noteq> ''..''"
proof -
  have "s \<in> set (split_slash p) \<and> s \<noteq> [] \<and> s \<noteq> ''.'' \<and> s \<noteq> ''..''"
    using assms list.set_sel(2) [OF split_slash_not_Nil, of s p]
    by (auto simp: components_def body_components_def split: if_splits)
  then show "CHR ''/'' \<notin> set s" and "s \<noteq> []" and "s \<noteq> ''.''" and "s \<noteq> ''..''"
    by (auto dest: split_slash_pieces)
qed

section \<open>The paths of the ancestors\<close>

text \<open>\<open>current.push(component)\<close> over the components: the prefixes that are looked at, in order.\<close>

fun pushed_prefixes :: "string \<Rightarrow> component list \<Rightarrow> string list" where
  "pushed_prefixes cur [] = []"
| "pushed_prefixes cur (c # cs) =
     (let cur' = path_push cur (component_str c) in cur' # pushed_prefixes cur' cs)"

definition ancestors :: "string \<Rightarrow> string list" where
  "ancestors path = pushed_prefixes [] (components path)"

lemma pushed_prefixes_length [simp]: "length (pushed_prefixes cur cs) = length cs"
  by (induction cs arbitrary: cur) (simp_all add: Let_def)

text \<open>
  A normal absolute path, \<open>/n1/n2/...\<close> with names that are neither dots nor empty, is the last of
  its own prefixes, and the prefixes are \<open>/\<close>, \<open>/n1\<close>, \<open>/n1/n2\<close> and so on.
\<close>

definition plain_name :: "string \<Rightarrow> bool" where
  "plain_name s \<longleftrightarrow> CHR ''/'' \<notin> set s \<and> s \<noteq> [] \<and> s \<noteq> ''.'' \<and> s \<noteq> ''..''"

definition join_names :: "string list \<Rightarrow> string" where
  "join_names ns = concat (map (\<lambda>n. CHR ''/'' # n) ns)"

lemma split_slash_join:
  "list_all plain_name ns \<Longrightarrow> ns \<noteq> [] \<Longrightarrow> split_slash (join_names ns) = [] # ns"
proof (induction ns)
  case (Cons n ns)
  show ?case
  proof (cases ns)
    case Nil
    with Cons show ?thesis by (simp add: join_names_def plain_name_def split_slash_piece)
  next
    case (Cons m ms)
    with Cons.IH Cons.prems have "split_slash (join_names ns) = [] # ns" by simp
    with Cons Cons.prems show ?thesis
      by (simp add: join_names_def plain_name_def split_slash_append)
  qed
qed simp

lemma components_join:
  assumes "list_all plain_name ns" and "ns \<noteq> []"
  shows "components (join_names ns) = RootDir # map Normal ns"
proof -
  have "filter (\<lambda>p. p \<noteq> [] \<and> p \<noteq> ''.'') ns = ns" "map (\<lambda>p. if p = ''..'' then ParentDir else Normal p) ns = map Normal ns"
    using assms(1) by (auto simp: list_all_iff plain_name_def)
  moreover have "is_absolute (join_names ns)"
    using assms(2) by (cases ns) (simp_all add: join_names_def is_absolute_def)
  ultimately show ?thesis
    using split_slash_join [OF assms] by (simp add: components_def body_components_def)
qed

lemma upt_one_Suc: "[1..<Suc (length (n # ns))] = 1 # map Suc [1..<Suc (length ns)]"
  unfolding map_Suc_upt by (subst upt_conv_Cons) auto

lemma plain_name_push: "plain_name n \<Longrightarrow> cur \<noteq> [] \<Longrightarrow> last cur \<noteq> CHR ''/'' \<Longrightarrow> path_push cur n = cur @ CHR ''/'' # n"
  by (cases n) (auto simp: path_push_def is_absolute_def plain_name_def)

lemma plain_name_last: "plain_name n \<Longrightarrow> last (cur @ CHR ''/'' # n) \<noteq> CHR ''/''"
  by (metis last_ConsR last_appendR last_in_set list.distinct(1) plain_name_def)

lemma pushed_prefixes_names:
  "list_all plain_name ns \<Longrightarrow> cur \<noteq> [] \<Longrightarrow> last cur \<noteq> CHR ''/'' \<Longrightarrow>
     pushed_prefixes cur (map Normal ns) = map (\<lambda>k. cur @ join_names (take k ns)) [1..<Suc (length ns)]"
proof (induction ns arbitrary: cur)
  case (Cons n ns)
  have push: "path_push cur n = cur @ CHR ''/'' # n"
    using Cons.prems by (intro plain_name_push) simp_all
  have "pushed_prefixes (cur @ CHR ''/'' # n) (map Normal ns) =
      map (\<lambda>k. (cur @ CHR ''/'' # n) @ join_names (take k ns)) [1..<Suc (length ns)]"
    using Cons.prems plain_name_last [of n cur] by (intro Cons.IH) simp_all
  then show ?case
    unfolding upt_one_Suc by (simp add: push Let_def join_names_def del: upt_Suc)
qed simp

lemma ancestors_join:
  assumes "list_all plain_name ns" and "ns \<noteq> []"
  shows "ancestors (join_names ns) = ''/'' # map (\<lambda>k. join_names (take k ns)) [1..<Suc (length ns)]"
proof -
  obtain n ms where ns: "ns = n # ms" using assms(2) by (cases ns) auto
  have n: "plain_name n" and ms: "list_all plain_name ms" using assms(1) ns by simp_all
  have "\<not> is_absolute n" using n by (cases n) (auto simp: is_absolute_def plain_name_def)
  then have push: "path_push ''/'' n = CHR ''/'' # n" "path_push [] ''/'' = ''/''"
    by (simp_all add: path_push_def is_absolute_def)
  have "pushed_prefixes (CHR ''/'' # n) (map Normal ms) =
      map (\<lambda>k. (CHR ''/'' # n) @ join_names (take k ms)) [1..<Suc (length ms)]"
    using plain_name_last [OF n, of "[]"] ms by (intro pushed_prefixes_names) simp_all
  then show ?thesis
    unfolding ancestors_def components_join [OF assms, unfolded ns] ns upt_one_Suc
    by (simp add: push Let_def join_names_def o_def del: upt_Suc)
qed

end
