(* ===== verification/Args.thy ===== *)
theory Args imports ExpansionSlices Paths begin

text \<open>
  \<open>args.rs\<close>: the arguments of the module. The record \<open>args\<close> is the struct; a \<open>Duration\<close> is its
  number of seconds. The local variables of the loop of \<open>Args::parse\<close> are the fields of the struct
  and \<open>file_is_per_user\<close>, the record \<open>parse_vars\<close>.
\<close>

record args =
  args_debug :: bool
  args_file :: string
  args_default_ssh_auth_sock :: "string option"
  args_ca_keys_file :: "string option"
  args_authorized_keys_command :: "string option"
  args_authorized_keys_command_user :: "string option"
  args_strict :: bool
  args_sshd_shortcut :: bool
  args_agent_timeout :: "nat option"

record parse_vars = args +
  file_is_per_user :: bool

definition DEFAULT_AUTHORIZED_KEYS_PATH :: string where
  "DEFAULT_AUTHORIZED_KEYS_PATH = ''/etc/security/authorized_keys''"

definition default_args :: args where
  "default_args = \<lparr>
     args_debug = False,
     args_file = DEFAULT_AUTHORIZED_KEYS_PATH,
     args_default_ssh_auth_sock = None,
     args_ca_keys_file = None,
     args_authorized_keys_command = None,
     args_authorized_keys_command_user = None,
     args_strict = False,
     args_sshd_shortcut = True,
     args_agent_timeout = None \<rparr>"

section \<open>Trust sources\<close>

definition validate_trust_source_argument :: "string \<Rightarrow> unit result" where
  "validate_trust_source_argument argument =
     (case split_once CHR ''='' argument of
        None \<Rightarrow> Inr ()
      | Some (key, val) \<Rightarrow>
          if key \<notin> {''file'', ''ca_keys_file'', ''authorized_keys_command''} then Inr ()
          else if contains ''~'' val \<or> contains ''%h'' val
          then Inl (Anyhow (''strict mode rejects home-expanded trust source '{key}'' @ [CHR 0x27]) [Str key])
          else if key = ''authorized_keys_command'' \<and>
            list_ex (\<lambda>pattern. contains pattern val) [''%u'', ''%U'', ''%H'', ''%f'']
          then Inl (Anyhow ''strict mode rejects expanded helper paths'' [])
          else Inr ())"

section \<open>One argument\<close>

text \<open>The \<open>match key\<close> of the loop.\<close>

definition set_parameter :: "string \<Rightarrow> string \<Rightarrow> parse_vars \<Rightarrow> parse_vars result" where
  "set_parameter key val st =
     (if key = ''file'' then Inr (st\<lparr>args_file := val\<rparr>)
      else if key = ''default_ssh_auth_sock'' then Inr (st\<lparr>args_default_ssh_auth_sock := Some val\<rparr>)
      else if key = ''ca_keys_file'' then Inr (st\<lparr>args_ca_keys_file := Some val\<rparr>)
      else if key = ''authorized_keys_command''
        then Inr (st\<lparr>args_authorized_keys_command := Some val\<rparr>)
      else if key = ''authorized_keys_command_user''
        then Inr (st\<lparr>args_authorized_keys_command_user := Some val\<rparr>)
      else if key = ''agent_timeout'' then
        and_then (parse_u64 val) (\<lambda>seconds.
        if \<not> (1 \<le> seconds \<and> seconds \<le> 300)
        then Inl (Anyhow ''agent_timeout must be between 1 and 300 seconds'' [])
        else Inr (st\<lparr>args_agent_timeout := Some seconds\<rparr>))
      else Inl (Anyhow (''Unknown parameter key '{key}'' @ [CHR 0x27]) [Str key]))"

definition parse_parameter :: "environment \<Rightarrow> pam_handle_ext \<Rightarrow> string \<Rightarrow> parse_vars \<Rightarrow> parse_vars result" where
  "parse_parameter env handle arg st =
     and_then (if args_strict st then validate_trust_source_argument arg else Inr ()) (\<lambda>_.
     let st' = (case strip_prefix ''file='' arg of
                  Some val \<Rightarrow> st\<lparr>file_is_per_user := contains ''%u'' val\<rparr> | None \<Rightarrow> st) in
     and_then (expand_vars arg env handle) (\<lambda>arg.
     case splitn2 CHR ''='' arg of
       [key, val] \<Rightarrow> set_parameter key val st'
     | _ \<Rightarrow> Inl (Anyhow (''Could not split '{any}' using '='' @ [CHR 0x27]) [Str arg])))"

definition parse_arg :: "environment \<Rightarrow> pam_handle_ext \<Rightarrow> string \<Rightarrow> parse_vars \<Rightarrow> parse_vars result" where
  "parse_arg env handle arg st =
     and_then (from_utf8 arg) (\<lambda>arg.
     if arg = ''debug'' then Inr (st\<lparr>args_debug := True\<rparr>)
     else if arg = ''strict'' then Inr st
     else if arg = ''sshd_shortcut'' then Inr (st\<lparr>args_sshd_shortcut := True\<rparr>)
     else parse_parameter env handle arg st)"

fun parse_loop :: "environment \<Rightarrow> pam_handle_ext \<Rightarrow> string list \<Rightarrow> parse_vars \<Rightarrow> parse_vars result" where
  "parse_loop env handle [] st = Inr st"
| "parse_loop env handle (arg # as) st = and_then (parse_arg env handle arg st) (parse_loop env handle as)"

section \<open>\<open>Args::parse\<close>\<close>

definition initial_vars :: "bool \<Rightarrow> parse_vars" where
  "initial_vars strict = \<lparr>
     args_debug = False,
     args_file = DEFAULT_AUTHORIZED_KEYS_PATH,
     args_default_ssh_auth_sock = None,
     args_ca_keys_file = None,
     args_authorized_keys_command = None,
     args_authorized_keys_command_user = None,
     args_strict = strict,
     args_sshd_shortcut = \<not> strict,
     args_agent_timeout = (if strict then Some 30 else None),
     file_is_per_user = False \<rparr>"

definition args_parse :: "string list \<Rightarrow> environment \<Rightarrow> pam_handle_ext \<Rightarrow> args result" where
  "args_parse as env handle =
     (let strict = list_ex (\<lambda>arg. arg = ''strict'') as in
      and_then (parse_loop env handle as (initial_vars strict)) (\<lambda>st.
      if strict \<and> \<not> file_is_per_user st
      then Inl (Anyhow ''strict mode requires file= to contain %u'' [])
      else if strict \<and> (case args_authorized_keys_command st of
          None \<Rightarrow> False | Some command \<Rightarrow> \<not> is_absolute command)
      then Inl (Anyhow ''strict mode requires an absolute authorized_keys_command'' [])
      else Inr (args.truncate st)))"

section \<open>What the loop keeps\<close>


lemma parse_loop_invariant:
  assumes "parse_loop env handle as st = Inr st'" and "I st"
    and "\<And>arg s s'. arg \<in> set as \<Longrightarrow> parse_arg env handle arg s = Inr s' \<Longrightarrow> I s \<Longrightarrow> I s'"
  shows "I st'"
  using assms by (induction as arbitrary: st) (auto simp: result_simps)

lemma set_parameter_cases [consumes 1]:
  assumes "set_parameter key val st = Inr st'"
  obtains (key_file) "key = ''file''" "st' = st\<lparr>args_file := val\<rparr>"
  | (sock) "key = ''default_ssh_auth_sock''" "st' = st\<lparr>args_default_ssh_auth_sock := Some val\<rparr>"
  | (ca_keys) "key = ''ca_keys_file''" "st' = st\<lparr>args_ca_keys_file := Some val\<rparr>"
  | (helper) "key = ''authorized_keys_command''" "st' = st\<lparr>args_authorized_keys_command := Some val\<rparr>"
  | (helper_user) "key = ''authorized_keys_command_user''"
      "st' = st\<lparr>args_authorized_keys_command_user := Some val\<rparr>"
  | (agent_timeout) n where "key = ''agent_timeout''" "parse_u64 val = Inr n" "1 \<le> n" "n \<le> 300"
      "st' = st\<lparr>args_agent_timeout := Some n\<rparr>"
  using assms unfolding set_parameter_def
  by (simp only: and_then_Inr sum.inject sum.distinct simp_thms split: if_split_asm)
     (metis not_less_eq_eq sum.inject(2) sum.distinct(1) One_nat_def)

text \<open>The words that are complete arguments.\<close>

definition is_flag :: "string \<Rightarrow> bool" where
  "is_flag arg \<longleftrightarrow> arg \<in> {''debug'', ''strict'', ''sshd_shortcut''}"

text \<open>The assignment that a parameter stands for: its two halves after expansion.\<close>

definition assignment :: "environment \<Rightarrow> pam_handle_ext \<Rightarrow> string \<Rightarrow> (string \<times> string) option" where
  "assignment env handle arg =
     (if is_flag arg then None
      else case expand_vars arg env handle of Inl _ \<Rightarrow> None | Inr t \<Rightarrow> split_once CHR ''='' t)"

definition assignments :: "environment \<Rightarrow> pam_handle_ext \<Rightarrow> string list \<Rightarrow> (string \<times> string) list" where
  "assignments env handle as = List.map_filter (assignment env handle) as"

lemma assignments_simps [simp]:
  "assignments env handle [] = []"
  "assignments env handle (a # as) =
     (case assignment env handle a of None \<Rightarrow> [] | Some kv \<Rightarrow> [kv]) @ assignments env handle as"
  by (simp_all add: assignments_def map_filter_simps split: option.split)

lemma assignment_parameter:
  "\<not> is_flag arg \<Longrightarrow> assignment env handle arg = Some (key, val) \<longleftrightarrow>
     (\<exists>t. expand_vars arg env handle = Inr t \<and> split_once CHR ''='' t = Some (key, val))"
  by (auto simp: assignment_def split: sum.splits)

lemma parse_parameter_Inr:
  assumes "\<not> is_flag arg"
  shows "parse_parameter env handle arg st = Inr st' \<longleftrightarrow>
      (args_strict st \<longrightarrow> validate_trust_source_argument arg = Inr ()) \<and>
      (\<exists>key val. assignment env handle arg = Some (key, val) \<and>
         set_parameter key val (case strip_prefix ''file='' arg of
             Some val \<Rightarrow> st\<lparr>file_is_per_user := contains ''%u'' val\<rparr> | None \<Rightarrow> st) = Inr st')"
proof (cases "expand_vars arg env handle")
  case (Inl e)
  then show ?thesis
    by (simp add: parse_parameter_def assignment_parameter [OF assms] result_simps Let_def)
next
  case (Inr t)
  then show ?thesis
    by (cases "split_once CHR ''='' t")
       (auto simp: parse_parameter_def assignment_parameter [OF assms] splitn2_def result_simps Let_def
         split: if_splits)
qed

lemma parse_arg_Inr:
  "parse_arg env handle arg st = Inr st' \<longleftrightarrow> utf8_valid arg \<and>
     (arg = ''debug'' \<and> st' = st\<lparr>args_debug := True\<rparr> \<or>
      arg = ''strict'' \<and> st' = st \<or>
      arg = ''sshd_shortcut'' \<and> st' = st\<lparr>args_sshd_shortcut := True\<rparr> \<or>
      \<not> is_flag arg \<and> parse_parameter env handle arg st = Inr st')"
  by (auto simp: parse_arg_def is_flag_def result_simps)

lemma parse_arg_strict: "parse_arg env handle arg st = Inr st' \<Longrightarrow> args_strict st' = args_strict st"
  by (auto simp: parse_arg_Inr parse_parameter_Inr elim!: set_parameter_cases split: option.splits)

lemma parse_loop_strict: "parse_loop env handle as st = Inr st' \<Longrightarrow> args_strict st' = args_strict st"
  by (rule parse_loop_invariant [where I = "\<lambda>s. args_strict s = args_strict st"])
     (auto dest: parse_arg_strict)

lemma args_parse_Inr:
  "args_parse as env handle = Inr a \<longleftrightarrow>
     (\<exists>st. parse_loop env handle as (initial_vars (''strict'' \<in> set as)) = Inr st \<and>
       (''strict'' \<in> set as \<longrightarrow> file_is_per_user st \<and>
          (\<forall>command. args_authorized_keys_command st = Some command \<longrightarrow> is_absolute command)) \<and>
       a = args.truncate st)"
  by (auto simp: args_parse_def Let_def result_simps list_ex_iff Bex_def split: option.splits if_splits)

lemma args_truncate_simps [simp]:
  "args_debug (args.truncate st) = args_debug st"
  "args_file (args.truncate st) = args_file st"
  "args_default_ssh_auth_sock (args.truncate st) = args_default_ssh_auth_sock st"
  "args_ca_keys_file (args.truncate st) = args_ca_keys_file st"
  "args_authorized_keys_command (args.truncate st) = args_authorized_keys_command st"
  "args_authorized_keys_command_user (args.truncate st) = args_authorized_keys_command_user st"
  "args_strict (args.truncate st) = args_strict st"
  "args_sshd_shortcut (args.truncate st) = args_sshd_shortcut st"
  "args_agent_timeout (args.truncate st) = args_agent_timeout st"
  by (simp_all add: args.truncate_def)

section \<open>Which value a parameter gets\<close>

lemma assignment_flag [simp]:
  "assignment env handle ''debug'' = None" "assignment env handle ''strict'' = None"
  "assignment env handle ''sshd_shortcut'' = None"
  by (simp_all add: assignment_def is_flag_def)

text \<open>How one argument acts on each field.\<close>

lemma parse_arg_cases [consumes 1]:
  assumes "parse_arg env handle arg s = Inr s'"
  obtains (debug) "arg = ''debug''" "s' = s\<lparr>args_debug := True\<rparr>"
  | (strict) "arg = ''strict''" "s' = s"
  | (shortcut) "arg = ''sshd_shortcut''" "s' = s\<lparr>args_sshd_shortcut := True\<rparr>"
  | (parameter) key val per_user where "\<not> is_flag arg" "arg \<noteq> ''debug''" "arg \<noteq> ''sshd_shortcut''"
      "assignment env handle arg = Some (key, val)"
      "set_parameter key val (s\<lparr>file_is_per_user := per_user\<rparr>) = Inr s'"
proof -
  have same: "s = s\<lparr>file_is_per_user := file_is_per_user s\<rparr>" by simp
  show thesis
  proof (cases "is_flag arg")
    case True
    with assms that(1-3) show thesis by (auto simp: parse_arg_Inr)
  next
    case False
    with assms have "parse_parameter env handle arg s = Inr s'"
      by (auto simp: parse_arg_Inr is_flag_def)
    then obtain key val where kv: "assignment env handle arg = Some (key, val)"
        "set_parameter key val (case strip_prefix ''file='' arg of
             Some val \<Rightarrow> s\<lparr>file_is_per_user := contains ''%u'' val\<rparr> | None \<Rightarrow> s) = Inr s'"
      using parse_parameter_Inr [OF False] by blast
    have "\<exists>b. set_parameter key val (s\<lparr>file_is_per_user := b\<rparr>) = Inr s'"
      using kv(2) same by (cases "strip_prefix ''file='' arg") (metis option.simps(4), metis option.simps(5))
    then show thesis using that(4) False kv(1) by (auto simp: is_flag_def)
  qed
qed

lemma set_parameter_fields:
  assumes "set_parameter key val s = Inr s'"
  shows "args_file s' = (if key = ''file'' then val else args_file s)"
    and "args_default_ssh_auth_sock s' =
      (if key = ''default_ssh_auth_sock'' then Some val else args_default_ssh_auth_sock s)"
    and "args_ca_keys_file s' = (if key = ''ca_keys_file'' then Some val else args_ca_keys_file s)"
    and "args_authorized_keys_command s' =
      (if key = ''authorized_keys_command'' then Some val else args_authorized_keys_command s)"
    and "args_authorized_keys_command_user s' =
      (if key = ''authorized_keys_command_user'' then Some val else args_authorized_keys_command_user s)"
    and "args_agent_timeout s' = (if key = ''agent_timeout''
      then (case parse_u64 val of Inl _ \<Rightarrow> None | Inr n \<Rightarrow> Some n) else args_agent_timeout s)"
    and "args_debug s' = args_debug s" and "args_sshd_shortcut s' = args_sshd_shortcut s"
    and "args_strict s' = args_strict s" and "file_is_per_user s' = file_is_per_user s"
  using assms by (cases rule: set_parameter_cases; simp)+

text \<open>An argument leaves a field as it is, or assigns the field of its key.\<close>

definition assigned :: "environment \<Rightarrow> pam_handle_ext \<Rightarrow> string \<Rightarrow> string \<Rightarrow> (string \<Rightarrow> 'v) \<Rightarrow> 'v \<Rightarrow> 'v" where
  "assigned env handle arg key upd old = (case assignment env handle arg of None \<Rightarrow> old
      | Some (k, v) \<Rightarrow> if k = key then upd v else old)"

lemma parse_arg_fields:
  assumes "parse_arg env handle arg s = Inr s'"
  shows "args_file s' = assigned env handle arg ''file'' (\<lambda>v. v) (args_file s)"
    and "args_default_ssh_auth_sock s' =
      assigned env handle arg ''default_ssh_auth_sock'' Some (args_default_ssh_auth_sock s)"
    and "args_ca_keys_file s' = assigned env handle arg ''ca_keys_file'' Some (args_ca_keys_file s)"
    and "args_authorized_keys_command s' =
      assigned env handle arg ''authorized_keys_command'' Some (args_authorized_keys_command s)"
    and "args_authorized_keys_command_user s' =
      assigned env handle arg ''authorized_keys_command_user'' Some (args_authorized_keys_command_user s)"
    and "args_agent_timeout s' = assigned env handle arg ''agent_timeout''
      (\<lambda>v. case parse_u64 v of Inl _ \<Rightarrow> None | Inr n \<Rightarrow> Some n) (args_agent_timeout s)"
    and "args_debug s' \<longleftrightarrow> args_debug s \<or> arg = ''debug''"
    and "args_sshd_shortcut s' \<longleftrightarrow> args_sshd_shortcut s \<or> arg = ''sshd_shortcut''"
  using assms by (cases rule: parse_arg_cases; simp add: set_parameter_fields assigned_def)+

lemma parse_loop_field:
  assumes step: "\<And>arg s s'. parse_arg env handle arg s = Inr s' \<Longrightarrow>
      fld s' = assigned env handle arg key upd (fld s)"
    and "parse_loop env handle as st = Inr st'"
  shows "fld st' = (case map_of (rev (assignments env handle as)) key of None \<Rightarrow> fld st | Some v \<Rightarrow> upd v)"
  using assms(2)
proof (induction as arbitrary: st)
  case (Cons arg as)
  then obtain st1 where first: "parse_arg env handle arg st = Inr st1"
    and rest: "parse_loop env handle as st1 = Inr st'" by (auto simp: result_simps)
  from step [OF first] Cons.IH [OF rest] show ?case
    by (auto simp: assigned_def map_add_def split: option.splits prod.splits if_splits)
qed simp

lemma parse_loop_flag:
  assumes step: "\<And>arg s s'. parse_arg env handle arg s = Inr s' \<Longrightarrow> fld s' \<longleftrightarrow> fld s \<or> arg = word"
    and "parse_loop env handle as st = Inr st'"
  shows "fld st' \<longleftrightarrow> fld st \<or> word \<in> set as"
  using assms(2)
proof (induction as arbitrary: st)
  case (Cons arg as)
  then obtain st1 where first: "parse_arg env handle arg st = Inr st1"
    and rest: "parse_loop env handle as st1 = Inr st'" by (auto simp: result_simps)
  from step [OF first] Cons.IH [OF rest] show ?case by auto
qed simp

lemma initial_vars_simps [simp]:
  "args_debug (initial_vars strict) = False"
  "args_file (initial_vars strict) = DEFAULT_AUTHORIZED_KEYS_PATH"
  "args_default_ssh_auth_sock (initial_vars strict) = None"
  "args_ca_keys_file (initial_vars strict) = None"
  "args_authorized_keys_command (initial_vars strict) = None"
  "args_authorized_keys_command_user (initial_vars strict) = None"
  "args_strict (initial_vars strict) = strict"
  "args_sshd_shortcut (initial_vars strict) = (\<not> strict)"
  "args_agent_timeout (initial_vars strict) = (if strict then Some 30 else None)"
  "file_is_per_user (initial_vars strict) = False"
  by (simp_all add: initial_vars_def)

section \<open>The contract of \<open>Args::parse\<close>\<close>

lemma args_parse_fields:
  assumes "args_parse as env handle = Inr a"
  defines "last_value \<equiv> map_of (rev (assignments env handle as))"
  shows "args_file a = (case last_value ''file'' of None \<Rightarrow> DEFAULT_AUTHORIZED_KEYS_PATH | Some v \<Rightarrow> v) \<and>
    args_default_ssh_auth_sock a = last_value ''default_ssh_auth_sock'' \<and>
    args_ca_keys_file a = last_value ''ca_keys_file'' \<and>
    args_authorized_keys_command a = last_value ''authorized_keys_command'' \<and>
    args_authorized_keys_command_user a = last_value ''authorized_keys_command_user'' \<and>
    args_agent_timeout a = (case last_value ''agent_timeout'' of
        None \<Rightarrow> if ''strict'' \<in> set as then Some 30 else None
      | Some v \<Rightarrow> (case parse_u64 v of Inl _ \<Rightarrow> None | Inr n \<Rightarrow> Some n)) \<and>
    args_debug a = (''debug'' \<in> set as) \<and>
    args_strict a = (''strict'' \<in> set as) \<and>
    args_sshd_shortcut a = (''strict'' \<in> set as \<longrightarrow> ''sshd_shortcut'' \<in> set as)"
proof -
  let ?init = "initial_vars (''strict'' \<in> set as)"
  obtain st where st: "parse_loop env handle as ?init = Inr st" and a: "a = args.truncate st"
    using assms(1) by (auto simp: args_parse_Inr)
  note field = parse_loop_field [OF _ st, folded last_value_def]
  have some: "(case x of None \<Rightarrow> None | Some v \<Rightarrow> Some v) = x" for x :: "string option"
    by (cases x) auto
  have "args_file st = (case last_value ''file'' of None \<Rightarrow> args_file ?init | Some v \<Rightarrow> v)"
    by (rule field [OF parse_arg_fields(1)])
  moreover have "args_default_ssh_auth_sock st = (case last_value ''default_ssh_auth_sock'' of
      None \<Rightarrow> args_default_ssh_auth_sock ?init | Some v \<Rightarrow> Some v)"
    by (rule field [OF parse_arg_fields(2)])
  moreover have "args_ca_keys_file st = (case last_value ''ca_keys_file'' of
      None \<Rightarrow> args_ca_keys_file ?init | Some v \<Rightarrow> Some v)"
    by (rule field [OF parse_arg_fields(3)])
  moreover have "args_authorized_keys_command st = (case last_value ''authorized_keys_command'' of
      None \<Rightarrow> args_authorized_keys_command ?init | Some v \<Rightarrow> Some v)"
    by (rule field [OF parse_arg_fields(4)])
  moreover have "args_authorized_keys_command_user st = (case last_value ''authorized_keys_command_user'' of
      None \<Rightarrow> args_authorized_keys_command_user ?init | Some v \<Rightarrow> Some v)"
    by (rule field [OF parse_arg_fields(5)])
  moreover have "args_agent_timeout st = (case last_value ''agent_timeout'' of
      None \<Rightarrow> args_agent_timeout ?init
    | Some v \<Rightarrow> (case parse_u64 v of Inl _ \<Rightarrow> None | Inr n \<Rightarrow> Some n))"
    by (rule field [OF parse_arg_fields(6)])
  moreover have "args_debug st \<longleftrightarrow> args_debug ?init \<or> ''debug'' \<in> set as"
    by (rule parse_loop_flag [OF parse_arg_fields(7) st])
  moreover have "args_sshd_shortcut st \<longleftrightarrow> args_sshd_shortcut ?init \<or> ''sshd_shortcut'' \<in> set as"
    by (rule parse_loop_flag [OF parse_arg_fields(8) st])
  moreover note parse_loop_strict [OF st]
  ultimately show ?thesis
    unfolding a args_truncate_simps initial_vars_simps some by simp
qed

text \<open>
  C9: the parser refines a lookup. When \<open>Args::parse\<close> succeeds, each field holds the value of the
  last expanded argument with its key, or the documented default, and the flags say exactly which
  words were given.
\<close>

theorem args_parse_lookup:
  assumes "args_parse as env handle = Inr a"
  defines "last_value \<equiv> map_of (rev (assignments env handle as))"
  shows "args_file a = (case last_value ''file'' of None \<Rightarrow> DEFAULT_AUTHORIZED_KEYS_PATH | Some v \<Rightarrow> v) \<and>
    args_default_ssh_auth_sock a = last_value ''default_ssh_auth_sock'' \<and>
    args_ca_keys_file a = last_value ''ca_keys_file'' \<and>
    args_authorized_keys_command a = last_value ''authorized_keys_command'' \<and>
    args_authorized_keys_command_user a = last_value ''authorized_keys_command_user'' \<and>
    args_agent_timeout a = (case last_value ''agent_timeout'' of
        None \<Rightarrow> if ''strict'' \<in> set as then Some 30 else None
      | Some v \<Rightarrow> (case parse_u64 v of Inl _ \<Rightarrow> None | Inr n \<Rightarrow> Some n)) \<and>
    args_debug a = (''debug'' \<in> set as) \<and>
    args_strict a = (''strict'' \<in> set as) \<and>
    args_sshd_shortcut a = (''strict'' \<in> set as \<longrightarrow> ''sshd_shortcut'' \<in> set as)"
  unfolding last_value_def using assms(1) by (rule args_parse_fields)

subsection \<open>Strict mode\<close>

lemma contains_home: "contains ''~'' v \<longleftrightarrow> CHR ''~'' \<in> set v"
  by (rule contains_char)

lemma validate_trust_source_ok:
  "validate_trust_source_argument (key @ CHR ''='' # v) = Inr () \<Longrightarrow> CHR ''='' \<notin> set key \<Longrightarrow>
   key \<in> {''file'', ''ca_keys_file'', ''authorized_keys_command''} \<Longrightarrow>
   CHR ''~'' \<notin> set v \<and> \<not> contains ''%h'' v \<and>
   (key = ''authorized_keys_command'' \<longrightarrow>
     (\<forall>pattern\<in>{''%u'', ''%U'', ''%H'', ''%f''}. \<not> contains pattern v))"
  by (auto simp: validate_trust_source_argument_def split_once_append contains_home simp del: insert_iff split: if_splits)

lemma parse_arg_validated:
  assumes "parse_arg env handle arg s = Inr s'" and "args_strict s" and "\<not> is_flag arg"
  shows "validate_trust_source_argument arg = Inr ()"
  using assms by (auto simp: parse_arg_Inr parse_parameter_Inr is_flag_def)

lemma parse_loop_validated:
  assumes "parse_loop env handle as st = Inr st'" and "args_strict st" and "arg \<in> set as" and "\<not> is_flag arg"
  shows "validate_trust_source_argument arg = Inr ()"
  using assms
proof (induction as arbitrary: st)
  case (Cons b bs)
  then obtain st1 where first: "parse_arg env handle b st = Inr st1"
    and rest: "parse_loop env handle bs st1 = Inr st'" by (auto simp: result_simps)
  then show ?case
    using Cons parse_arg_validated [OF first] parse_arg_strict [OF first] by auto
qed simp

text \<open>The variable \<open>file_is_per_user\<close> is about the last argument that is written as \<open>file=\<close>.\<close>

lemma parse_arg_per_user:
  assumes "parse_arg env handle arg s = Inr s'"
  shows "file_is_per_user s' = (case strip_prefix ''file='' arg of
    Some v \<Rightarrow> contains ''%u'' v | None \<Rightarrow> file_is_per_user s)"
proof (cases "is_flag arg")
  case True
  with assms show ?thesis by (auto simp: parse_arg_Inr is_flag_def strip_prefix_def)
next
  case False
  with assms have "parse_parameter env handle arg s = Inr s'"
    by (auto simp: parse_arg_Inr is_flag_def)
  then show ?thesis
    using set_parameter_fields(10)
    by (auto simp: parse_parameter_Inr [OF False] split: option.splits)
qed

lemma parse_loop_per_user:
  assumes "parse_loop env handle as st = Inr st'" and "file_is_per_user st'"
  shows "file_is_per_user st \<and> list_all (\<lambda>arg. \<not> starts_with ''file='' arg) as \<or>
    (\<exists>pre v post. as = pre @ (''file='' @ v) # post \<and> contains ''%u'' v \<and>
       list_all (\<lambda>arg. \<not> starts_with ''file='' arg) post)"
  using assms
proof (induction as arbitrary: st)
  case (Cons b bs)
  then obtain st1 where b: "parse_arg env handle b st = Inr st1" and bs: "parse_loop env handle bs st1 = Inr st'"
    by (auto simp: result_simps)
  from Cons.IH [OF bs Cons.prems(2)] show ?case
  proof (elim disjE exE conjE)
    assume "file_is_per_user st1" and last: "list_all (\<lambda>arg. \<not> starts_with ''file='' arg) bs"
    then show ?case
    proof (cases "strip_prefix ''file='' b")
      case None
      then show ?thesis using last \<open>file_is_per_user st1\<close> parse_arg_per_user [OF b]
        by (simp add: strip_prefix_def split: if_splits)
    next
      case (Some v)
      then have "contains ''%u'' v" using \<open>file_is_per_user st1\<close> parse_arg_per_user [OF b] by simp
      moreover from Some have "b # bs = [] @ (''file='' @ v) # bs" by (simp add: strip_prefix_Some)
      ultimately show ?thesis using last by blast
    qed
  next
    fix pre v post
    assume *: "bs = pre @ (''file='' @ v) # post" "contains ''%u'' v"
      "list_all (\<lambda>arg. \<not> starts_with ''file='' arg) post"
    then have "b # bs = (b # pre) @ (''file='' @ v) # post" by simp
    then show ?case using *(2,3) by blast
  qed
qed simp

lemma parse_loop_timeout:
  assumes "parse_loop env handle as st = Inr st'"
    and "\<exists>t. args_agent_timeout st = Some t \<and> 1 \<le> t \<and> t \<le> 300"
  shows "\<exists>t. args_agent_timeout st' = Some t \<and> 1 \<le> t \<and> t \<le> 300"
  using assms
proof (rule parse_loop_invariant)
  fix arg s s' assume "parse_arg env handle arg s = Inr s'"
    and "\<exists>t. args_agent_timeout s = Some t \<and> 1 \<le> t \<and> t \<le> 300"
  then show "\<exists>t. args_agent_timeout s' = Some t \<and> 1 \<le> t \<and> t \<le> 300"
  proof (cases rule: parse_arg_cases)
    case (parameter key val per_user)
    from parameter(5) parameter(1-4) \<open>\<exists>t. args_agent_timeout s = Some t \<and> 1 \<le> t \<and> t \<le> 300\<close>
    show ?thesis by (cases rule: set_parameter_cases) simp_all
  qed simp_all
qed

lemma args_parse_strict:
  assumes "args_parse as env handle = Inr a" and "''strict'' \<in> set as"
  shows "args_strict a \<and>
    (\<exists>t. args_agent_timeout a = Some t \<and> 1 \<le> t \<and> t \<le> 300) \<and>
    (\<forall>command. args_authorized_keys_command a = Some command \<longrightarrow> is_absolute command) \<and>
    (\<exists>v. ''file='' @ v \<in> set as \<and> contains ''%u'' v) \<and>
    (\<forall>key v. key @ ''='' @ v \<in> set as \<and> key \<in> {''file'', ''ca_keys_file'', ''authorized_keys_command''} \<longrightarrow>
       CHR ''~'' \<notin> set v \<and> \<not> contains ''%h'' v \<and>
       (key = ''authorized_keys_command'' \<longrightarrow>
         (\<forall>pattern\<in>{''%u'', ''%U'', ''%H'', ''%f''}. \<not> contains pattern v)))"
proof -
  obtain st where st: "parse_loop env handle as (initial_vars True) = Inr st"
    and user: "file_is_per_user st" and a: "a = args.truncate st"
    and command: "\<forall>command. args_authorized_keys_command st = Some command \<longrightarrow> is_absolute command"
    using assms by (auto simp: args_parse_Inr)
  have timeout: "\<exists>t. args_agent_timeout st = Some t \<and> 1 \<le> t \<and> t \<le> 300"
    by (rule parse_loop_timeout [OF st]) simp
  have named: "\<exists>v. ''file='' @ v \<in> set as \<and> contains ''%u'' v"
    using parse_loop_per_user [OF st user] by auto
  have source: "CHR ''~'' \<notin> set v \<and> \<not> contains ''%h'' v \<and>
       (key = ''authorized_keys_command'' \<longrightarrow>
         (\<forall>pattern\<in>{''%u'', ''%U'', ''%H'', ''%f''}. \<not> contains pattern v))"
    if "key @ ''='' @ v \<in> set as" and key: "key \<in> {''file'', ''ca_keys_file'', ''authorized_keys_command''}" for key v
  proof (rule validate_trust_source_ok [OF _ _ key])
    have "CHR ''='' \<in> set (key @ ''='' @ v)" by simp
    moreover have "CHR ''='' \<notin> set arg" if "is_flag arg" for arg using that by (auto simp: is_flag_def)
    ultimately have "\<not> is_flag (key @ ''='' @ v)" by blast
    then show "validate_trust_source_argument (key @ CHR ''='' # v) = Inr ()"
      using parse_loop_validated [OF st _ that(1)] by simp
    show "CHR ''='' \<notin> set key" using key by auto
  qed
  then have sources: "\<forall>key v. key @ ''='' @ v \<in> set as \<and>
       key \<in> {''file'', ''ca_keys_file'', ''authorized_keys_command''} \<longrightarrow>
       CHR ''~'' \<notin> set v \<and> \<not> contains ''%h'' v \<and>
       (key = ''authorized_keys_command'' \<longrightarrow>
         (\<forall>pattern\<in>{''%u'', ''%U'', ''%H'', ''%f''}. \<not> contains pattern v))" by blast
  have "args_strict st" using parse_loop_strict [OF st] by simp
  then show ?thesis
    using timeout command named sources unfolding a args_truncate_simps by (intro conjI)
qed

subsection \<open>Which arguments set the trusted sources\<close>

text \<open>
  An argument whose key can be read off before the expansion: a flag, or a parameter with no marker
  before its first \<open>=\<close>.
\<close>

definition plain_key :: "string \<Rightarrow> bool" where
  "plain_key arg \<longleftrightarrow> is_flag arg \<or>
     (case split_once CHR ''='' arg of None \<Rightarrow> False | Some (key, v) \<Rightarrow> marker_free key)"

lemma plain_key_assignment:
  assumes "plain_key arg" and "assignment env handle arg = Some (k, w)"
  obtains v where "arg = k @ ''='' @ v" and "marker_free k" and "CHR ''='' \<notin> set k"
    and "expand_vars arg env handle = Inr (k @ ''='' @ w)"
proof -
  have flag: "\<not> is_flag arg" using assms(2) by (auto simp: assignment_def)
  with assms(1) obtain key v where split: "split_once CHR ''='' arg = Some (key, v)" and key: "marker_free key"
    by (auto simp: plain_key_def split: option.splits)
  then have arg: "arg = (key @ ''='') @ v" "CHR ''='' \<notin> set key" by (simp_all add: split_once_Some)
  obtain t where t: "expand_vars arg env handle = Inr t" "split_once CHR ''='' t = Some (k, w)"
    using assms(2) flag by (auto simp: assignment_parameter)
  have "\<forall>c\<in>set (key @ ''=''). \<not> is_marker c" using key by (auto simp: marker_free_iff is_marker_def)
  then obtain u where "t = (key @ ''='') @ u" using t(1) unfolding arg(1) by (rule vars.prefix_kept)
  then have "k = key" "t = k @ ''='' @ w" using t(2) arg(2) by (auto simp: split_once_append)
  then show thesis using that [of v] arg key t(1) by simp
qed

lemma assignments_append: "assignments env handle (xs @ ys) = assignments env handle xs @ assignments env handle ys"
  by (induction xs) auto

lemma assignments_member: "kv \<in> set (assignments env handle as) \<longleftrightarrow> (\<exists>arg\<in>set as. assignment env handle arg = Some kv)"
  by (auto simp: assignments_def map_filter_def intro!: image_eqI)

lemma last_assignment:
  assumes "assignment env handle arg = Some (key, v)"
    and "\<And>b w. b \<in> set ys \<Longrightarrow> assignment env handle b \<noteq> Some (key, w)"
  shows "map_of (rev (assignments env handle (xs @ arg # ys))) key = Some v"
proof -
  have "map_of (rev (assignments env handle ys)) key = None"
    using assms(2) by (auto simp: map_of_eq_None_iff assignments_member)
  then show ?thesis using assms(1) by (simp add: assignments_append map_add_def)
qed

lemma parse_loop_assigns:
  assumes "parse_loop env handle as st = Inr st'" and "arg \<in> set as" and "\<not> is_flag arg"
  obtains key v where "assignment env handle arg = Some (key, v)"
  using assms
proof (induction as arbitrary: st)
  case (Cons b bs)
  then obtain st1 where b: "parse_arg env handle b st = Inr st1" and bs: "parse_loop env handle bs st1 = Inr st'"
    by (auto simp: result_simps)
  show ?case
  proof (cases "arg = b")
    case True
    with b Cons.prems show ?thesis by (auto simp: parse_arg_Inr is_flag_def parse_parameter_Inr)
  next
    case False
    with Cons bs show ?thesis by auto
  qed
qed simp

lemma expand_vars_no_home:
  assumes "CHR ''~'' \<notin> set arg" and "\<not> contains ''%h'' arg"
  shows "expand_vars arg (env\<lparr>env_get_homedir := home\<rparr>) handle = expand_vars arg env handle"
proof -
  have "expand_var arg ''%h'' value = Inr arg" for "value"
    using assms(2) by (simp add: expand_var_def contains_def)
  then show ?thesis
    using assms(1) by (simp add: expand_vars_def expand_homedir_none)
qed

lemma contains_marker_free: "marker_free k \<Longrightarrow> contains [CHR ''%'', d] (k @ CHR ''='' # v) \<longleftrightarrow> contains [CHR ''%'', d] v"
proof -
  assume "marker_free k"
  then have "CHR ''%'' \<notin> set (k @ ''='')" by (auto simp: marker_free_iff is_marker_def)
  then have "find_sub [CHR ''%'', d] ((k @ ''='') @ v) = map_option (\<lambda>i. length (k @ ''='') + i) (find_sub [CHR ''%'', d] v)"
    by (intro find_sub_prefix) auto
  then show ?thesis by (simp add: contains_def)
qed

text \<open>An argument whose expansion does not depend on any home directory.\<close>

definition free_of_home :: "environment \<Rightarrow> pam_handle_ext \<Rightarrow> string \<Rightarrow> string \<Rightarrow> bool" where
  "free_of_home env handle arg t \<longleftrightarrow> (\<forall>home. expand_vars arg (env\<lparr>env_get_homedir := home\<rparr>) handle = Inr t)"

lemma free_of_home_argument:
  assumes "expand_vars (key @ ''='' @ v) env handle = Inr t" and "marker_free key"
    and "CHR ''~'' \<notin> set v" and "\<not> contains ''%h'' v"
  shows "free_of_home env handle (key @ ''='' @ v) t"
proof -
  have "CHR ''~'' \<notin> set (key @ ''='' @ v)" using assms(2,3) by (auto simp: marker_free_iff is_marker_def)
  moreover have "\<not> contains ''%h'' (key @ ''='' @ v)" using contains_marker_free [OF assms(2)] assms(4) by simp
  ultimately show ?thesis using expand_vars_no_home assms(1) by (simp add: free_of_home_def)
qed

lemma expand_vars_unmarked:
  assumes "marker_free key" and "CHR ''~'' \<notin> set v"
    and "\<And>c. c \<in> {CHR ''h'', CHR ''H'', CHR ''u'', CHR ''f'', CHR ''U''} \<Longrightarrow> \<not> contains [CHR ''%'', c] v"
  shows "expand_vars (key @ ''='' @ v) env handle = Inr (key @ ''='' @ v)"
proof -
  have "CHR ''~'' \<notin> set (key @ ''='' @ v)" using assms(1,2) by (auto simp: marker_free_iff is_marker_def)
  then have "expand_homedir (key @ ''='' @ v) home = Inr (key @ ''='' @ v)" for home
    by (rule expand_homedir_none)
  moreover have "expand_var (key @ ''='' @ v) [CHR ''%'', c] value = Inr (key @ ''='' @ v)"
    if "c \<in> {CHR ''h'', CHR ''H'', CHR ''u'', CHR ''f'', CHR ''U''}" for c "value"
    using contains_marker_free [OF assms(1), of c v] assms(3) [OF that] by (simp add: expand_var_def contains_def)
  ultimately show ?thesis by (simp add: expand_vars_def)
qed

lemma args_parse_key_file:
  assumes "args_parse as env handle = Inr a" and "''strict'' \<in> set as"
  obtains pre v post where "as = pre @ (''file='' @ v) # post" and "contains ''%u'' v"
    and "list_all (\<lambda>arg. \<not> starts_with ''file='' arg) post"
    and "list_all plain_key as \<Longrightarrow> free_of_home env handle (''file='' @ v) (''file='' @ args_file a)"
proof -
  obtain st where st: "parse_loop env handle as (initial_vars True) = Inr st" and user: "file_is_per_user st"
    using assms by (auto simp: args_parse_Inr)
  from parse_loop_per_user [OF this] obtain pre v post where as: "as = pre @ (''file='' @ v) # post"
    and v: "contains ''%u'' v" and post: "list_all (\<lambda>arg. \<not> starts_with ''file='' arg) post" by auto
  have "''file'' @ ''='' @ v \<in> set as" using as by simp
  then have home: "CHR ''~'' \<notin> set v \<and> \<not> contains ''%h'' v"
    using args_parse_strict [OF assms] by blast
  have "free_of_home env handle (''file='' @ v) (''file='' @ args_file a)" if plain: "list_all plain_key as"
  proof -
    have "\<not> is_flag (''file='' @ v)" by (auto simp: is_flag_def)
    then obtain k w where kw: "assignment env handle (''file='' @ v) = Some (k, w)"
      using parse_loop_assigns [OF st, of "''file='' @ v"] as by auto
    have "plain_key (''file='' @ v)" using plain as by simp
    from plain_key_assignment [OF this kw] obtain v' where "''file='' @ v = k @ ''='' @ v'" "CHR ''='' \<notin> set k"
        and expanded: "expand_vars (''file='' @ v) env handle = Inr (k @ ''='' @ w)" by metis
    then have k: "k = ''file''"
      using split_once_append [of "CHR ''=''" k v'] split_once_append [of "CHR ''=''" "''file''" v] by simp
    have "assignment env handle b \<noteq> Some (''file'', x)" if "b \<in> set post" for b x
    proof
      assume assigned: "assignment env handle b = Some (''file'', x)"
      have "plain_key b" using plain that as by (simp add: list_all_iff)
      from plain_key_assignment [OF this assigned] obtain y where "b = ''file'' @ ''='' @ y" by metis
      then show False using post that by (auto simp: list_all_iff starts_with_iff)
    qed
    with kw have "map_of (rev (assignments env handle as)) ''file'' = Some w"
      unfolding as k by (intro last_assignment)
    then have "args_file a = w" using args_parse_fields [OF assms(1)] by simp
    moreover have "free_of_home env handle (''file'' @ ''='' @ v) (''file='' @ w)"
      using expanded k home by (intro free_of_home_argument) (simp_all add: is_marker_def)
    ultimately show ?thesis by simp
  qed
  then show thesis using that as v post by blast
qed

lemma args_parse_parameter:
  assumes "args_parse as env handle = Inr a" and "list_all plain_key as"
    and "map_of (rev (assignments env handle as)) key = Some w"
  obtains v where "key @ ''='' @ v \<in> set as" and "marker_free key"
    and "expand_vars (key @ ''='' @ v) env handle = Inr (key @ ''='' @ w)"
proof -
  obtain arg where arg: "arg \<in> set as" "assignment env handle arg = Some (key, w)"
    using map_of_SomeD [OF assms(3)] by (auto simp: assignments_member)
  then have "plain_key arg" using assms(2) by (simp add: list_all_iff)
  from plain_key_assignment [OF this arg(2)] show thesis using that arg(1) by metis
qed

lemma args_parse_sources:
  assumes "args_parse as env handle = Inr a" and "''strict'' \<in> set as" and "list_all plain_key as"
  shows "args_ca_keys_file a = Some f \<Longrightarrow> \<exists>v. ''ca_keys_file='' @ v \<in> set as \<and>
      free_of_home env handle (''ca_keys_file='' @ v) (''ca_keys_file='' @ f)"
    and "args_authorized_keys_command a = Some command \<Longrightarrow> ''authorized_keys_command='' @ command \<in> set as"
proof -
  have banned: "CHR ''~'' \<notin> set v \<and> \<not> contains ''%h'' v \<and> (key = ''authorized_keys_command'' \<longrightarrow>
         (\<forall>pattern\<in>{''%u'', ''%U'', ''%H'', ''%f''}. \<not> contains pattern v))"
    if "key @ ''='' @ v \<in> set as" "key \<in> {''ca_keys_file'', ''authorized_keys_command''}" for key v
    using args_parse_strict [OF assms(1,2)] that by blast
  note fields = args_parse_fields [OF assms(1)]
  {
    assume "args_ca_keys_file a = Some f"
    with fields have "map_of (rev (assignments env handle as)) ''ca_keys_file'' = Some f" by simp
    then obtain v where "''ca_keys_file'' @ ''='' @ v \<in> set as" "marker_free ''ca_keys_file''"
        "expand_vars (''ca_keys_file'' @ ''='' @ v) env handle = Inr (''ca_keys_file'' @ ''='' @ f)"
      by (rule args_parse_parameter [OF assms(1,3)])
    then have "''ca_keys_file'' @ ''='' @ v \<in> set as \<and>
      free_of_home env handle (''ca_keys_file'' @ ''='' @ v) (''ca_keys_file'' @ ''='' @ f)"
      using banned [of "''ca_keys_file''" v] by (intro conjI free_of_home_argument) simp_all
    then show "\<exists>v. ''ca_keys_file='' @ v \<in> set as \<and>
      free_of_home env handle (''ca_keys_file='' @ v) (''ca_keys_file='' @ f)" by auto
  next
    assume "args_authorized_keys_command a = Some command"
    with fields have "map_of (rev (assignments env handle as)) ''authorized_keys_command'' = Some command" by simp
    then obtain v where v: "''authorized_keys_command'' @ ''='' @ v \<in> set as" "marker_free ''authorized_keys_command''"
        "expand_vars (''authorized_keys_command'' @ ''='' @ v) env handle =
          Inr (''authorized_keys_command'' @ ''='' @ command)"
      by (rule args_parse_parameter [OF assms(1,3)])
    have "expand_vars (''authorized_keys_command'' @ ''='' @ v) env handle = Inr (''authorized_keys_command'' @ ''='' @ v)"
      using banned [OF v(1)] by (intro expand_vars_unmarked v(2)) auto
    with v(1,3) show "''authorized_keys_command='' @ command \<in> set as" by simp
  }
qed

text \<open>
  C8: what \<open>strict\<close> guarantees about the arguments, if they are accepted. The agent has a deadline of
  1 to 300 seconds, a helper command is absolute, and the last of the arguments written with \<open>file=\<close>
  names the user. In an argument written with the key of a trusted source there is no \<open>~\<close> and no \<open>%h\<close>,
  and in a helper path no variable at all. These tests look at the text before its expansion. When every
  argument has a plain key, that says where the trusted sources come from: the key file is the value
  of that last \<open>file=\<close>, it and the file of CA keys do not depend on any home directory, and the helper
  command is the text of an argument as it was written.
\<close>

theorem strict_arguments:
  assumes "args_parse as env handle = Inr a" and "''strict'' \<in> set as"
  shows "args_strict a \<and>
    (\<exists>t. args_agent_timeout a = Some t \<and> 1 \<le> t \<and> t \<le> 300) \<and>
    (\<forall>command. args_authorized_keys_command a = Some command \<longrightarrow> is_absolute command) \<and>
    (\<exists>pre v post. as = pre @ (''file='' @ v) # post \<and> contains ''%u'' v \<and>
       list_all (\<lambda>arg. \<not> starts_with ''file='' arg) post \<and>
       (list_all plain_key as \<longrightarrow> free_of_home env handle (''file='' @ v) (''file='' @ args_file a))) \<and>
    (\<forall>key v. key @ ''='' @ v \<in> set as \<and> key \<in> {''file'', ''ca_keys_file'', ''authorized_keys_command''} \<longrightarrow>
       CHR ''~'' \<notin> set v \<and> \<not> contains ''%h'' v \<and>
       (key = ''authorized_keys_command'' \<longrightarrow>
         (\<forall>pattern\<in>{''%u'', ''%U'', ''%H'', ''%f''}. \<not> contains pattern v))) \<and>
    (list_all plain_key as \<longrightarrow>
       (\<forall>f. args_ca_keys_file a = Some f \<longrightarrow> (\<exists>v. ''ca_keys_file='' @ v \<in> set as \<and>
          free_of_home env handle (''ca_keys_file='' @ v) (''ca_keys_file='' @ f))) \<and>
       (\<forall>command. args_authorized_keys_command a = Some command \<longrightarrow>
          ''authorized_keys_command='' @ command \<in> set as))"
proof -
  obtain pre v post where "as = pre @ (''file='' @ v) # post" "contains ''%u'' v"
      "list_all (\<lambda>arg. \<not> starts_with ''file='' arg) post"
      "list_all plain_key as \<longrightarrow> free_of_home env handle (''file='' @ v) (''file='' @ args_file a)"
    using args_parse_key_file [OF assms] by metis
  then show ?thesis
    using args_parse_strict [OF assms] args_parse_sources [OF assms] by blast
qed



section \<open>Well-formed arguments\<close>

text \<open>What the type \<open>String\<close> promises of the fields of \<open>Args\<close>.\<close>

definition well_formed_args :: "args \<Rightarrow> bool" where
  "well_formed_args a \<longleftrightarrow> utf8_valid (args_file a) \<and>
     list_all (\<lambda>field. \<forall>s\<in>set_option field. utf8_valid s)
       [args_default_ssh_auth_sock a, args_ca_keys_file a, args_authorized_keys_command a,
        args_authorized_keys_command_user a]"

lemma parse_loop_utf8: "parse_loop env handle as st = Inr st' \<Longrightarrow> arg \<in> set as \<Longrightarrow> utf8_valid arg"
  by (induction as arbitrary: st) (auto simp: result_simps parse_arg_Inr)

lemma assignment_valid:
  assumes "well_formed_environment env" and "well_formed_handle handle" and "utf8_valid arg"
    and "assignment env handle arg = Some (key, val)"
  shows "utf8_valid val"
proof -
  from assms(4) obtain t where t: "expand_vars arg env handle = Inr t" "split_once CHR ''='' t = Some (key, val)"
    by (auto simp: assignment_def split: if_splits sum.splits)
  have "utf8_valid t" using returns_string_expand_vars [OF assms(3,1,2)] t(1) by simp
  then have "utf8_valid (key @ CHR ''='' # val)" using t(2) by (simp add: split_once_Some)
  then show ?thesis by (rule utf8_valid_split_ascii) simp
qed

lemma args_parse_well_formed:
  assumes "well_formed_environment env" and "well_formed_handle handle" and "args_parse as env handle = Inr a"
  shows "well_formed_args a"
proof -
  have valid: "utf8_valid val" if "map_of (rev (assignments env handle as)) key = Some val" for key val
  proof -
    have "(key, val) \<in> set (assignments env handle as)" using map_of_SomeD [OF that] by simp
    then obtain arg where "arg \<in> set as" "assignment env handle arg = Some (key, val)"
      by (auto simp: assignments_def map_filter_def)
    moreover from assms(3) this(1) have "utf8_valid arg" by (auto simp: args_parse_Inr dest: parse_loop_utf8)
    ultimately show ?thesis using assignment_valid [OF assms(1,2)] by blast
  qed
  have "utf8_valid DEFAULT_AUTHORIZED_KEYS_PATH" by (simp add: DEFAULT_AUTHORIZED_KEYS_PATH_def ascii_utf8_valid ascii_def)
  with args_parse_fields [OF assms(3)] valid show ?thesis
    by (auto simp: well_formed_args_def split: option.splits)
qed

text \<open>The user \<open>ann\<close> calls \<open>sudo\<close>, for the concrete instances of the properties.\<close>

definition example_handle :: pam_handle_ext where
  "example_handle = \<lparr>ext_calling_user = Inr ''ann'', ext_service = Inr ''sudo''\<rparr>"

lemma example_parse: "args_parse [''strict'', ''file=/etc/keys/%u''] (unix_environment example_host) example_handle =
  Inr \<lparr>args_debug = False, args_file = ''/etc/keys/ann'', args_default_ssh_auth_sock = None,
     args_ca_keys_file = None, args_authorized_keys_command = None, args_authorized_keys_command_user = None,
     args_strict = True, args_sshd_shortcut = False, args_agent_timeout = Some 30\<rparr>"
  by code_simp

lemma strict_arguments_witness:
  "\<exists>a. args_parse [''strict'', ''file=/etc/keys/%u''] (unix_environment example_host) example_handle = Inr a \<and>
     args_strict a \<and> (\<exists>t. args_agent_timeout a = Some t \<and> 1 \<le> t \<and> t \<le> 300) \<and>
     (\<exists>v. free_of_home (unix_environment example_host) example_handle (''file='' @ v) ''file=/etc/keys/ann'')"
proof -
  have "list_all plain_key [''strict'', ''file=/etc/keys/%u'']"
    by code_simp
  then show ?thesis using strict_arguments [OF example_parse] example_parse by auto
qed


lemma args_parse_lookup_witness:
  "map_of (rev (assignments (unix_environment example_host) example_handle [''strict'', ''file=/etc/keys/%u'']))
     ''file'' = Some ''/etc/keys/ann''"
  using args_parse_lookup [OF example_parse] by (auto split: option.splits simp: DEFAULT_AUTHORIZED_KEYS_PATH_def)

lemma expand_vars_never_panics_witness:
  "expand_vars_sliced ''/keys/%u'' (unix_environment example_host) example_handle = Some (Inr ''/keys/ann'')"
proof -
  have "utf8_valid ''/keys/%u''" by code_simp
  moreover have "well_formed_handle example_handle"
    by (simp add: well_formed_handle_def example_handle_def ascii_utf8_valid ascii_def)
  moreover have "expand_vars ''/keys/%u'' (unix_environment example_host) example_handle = Inr ''/keys/ann''" by code_simp
  ultimately show ?thesis
    using expand_vars_never_panics [OF _ unix_well_formed, of "''/keys/%u''" example_handle example_host] by simp
qed

lemma only_first_occurrence_witness:
  "expand_vars ''/%u/%u'' (unix_environment example_host) example_handle = Inr ''/ann/%u''"
  using only_first_occurrence [of example_handle "''ann''" "''/''" "''/''" "[]"]
  by (simp add: is_marker_def example_handle_def)

end
