(* ===== verification/Trust.thy ===== *)
theory Trust imports Paths System Environment begin

text \<open>
  The part of \<open>filter.rs\<close> that decides whether a file may be trusted in strict mode:
  \<open>validate_trust_path\<close>, \<open>validate_components\<close>, \<open>validate_mode\<close>, \<open>read_strict_file\<close> and
  \<open>read_bounded\<close>. The file system answers each call by an arbitrary function of the trace
  (\<open>fs_os\<close>), so a file may change between two calls.
\<close>

datatype file_type = RegularFile | Directory | Symlink | OtherFile

record metadata =
  md_uid :: uid
  md_mode :: "32 word"
  md_type :: file_type
  md_dev :: nat
  md_ino :: nat

record fs_os =
  os_lstat :: "string \<Rightarrow> trace \<Rightarrow> io_error + metadata"
  os_stat :: "string \<Rightarrow> trace \<Rightarrow> io_error + metadata"
  os_canonicalize :: "string \<Rightarrow> trace \<Rightarrow> io_error + string"
  os_open :: "string \<Rightarrow> trace \<Rightarrow> io_error + nat"
  os_fstat :: "nat \<Rightarrow> trace \<Rightarrow> io_error + metadata"
  os_read_to_end :: "nat \<Rightarrow> trace \<Rightarrow> io_error + string"
  os_read_path :: "string \<Rightarrow> trace \<Rightarrow> io_error + string"

section \<open>The code\<close>

definition MAX_POLICY_BYTES :: nat where "MAX_POLICY_BYTES = 1024 * 1024"

text \<open>\<open>0o022\<close> is 18, \<open>0o1000\<close> is 512.\<close>

definition validate_mode :: "string \<Rightarrow> metadata \<Rightarrow> unit result" where
  "validate_mode path md =
     (let mode = md_mode md in
      if mode AND 18 = 0 then Inr ()
      else if path_eq path ''/nix/store'' \<and> mode AND 512 \<noteq> 0 then Inr ()
      else Inl (Anyhow ''Trusted-key path is group- or world-writable'' []))"

fun validate_components_from :: "fs_os \<Rightarrow> uid \<Rightarrow> bool \<Rightarrow> string \<Rightarrow> component list \<Rightarrow> unit io" where
  "validate_components_from fs required_uid allow_symlink current [] = io_return ()"
| "validate_components_from fs required_uid allow_symlink current (c # cs) =
     (let current = path_push current (component_str c) in
      io_bind (io_sys (Fs (Lstat current)) (os_lstat fs current)) (\<lambda>md.
      if md_uid md \<noteq> required_uid
      then io_throw (Anyhow ''Trusted-key path is not owned by uid {required_uid}'' [Num (uint required_uid)])
      else if md_type md = Symlink then
        (if \<not> allow_symlink then io_throw (Anyhow ''Resolved trusted-key path contains a symlink'' [])
         else validate_components_from fs required_uid allow_symlink current cs)
      else
        io_bind (io_lift (validate_mode current md)) (\<lambda>_.
        validate_components_from fs required_uid allow_symlink current cs)))"

definition validate_components :: "fs_os \<Rightarrow> string \<Rightarrow> uid \<Rightarrow> bool \<Rightarrow> unit io" where
  "validate_components fs path required_uid allow_symlink =
     validate_components_from fs required_uid allow_symlink [] (components path)"

definition validate_trust_path :: "fs_os \<Rightarrow> string \<Rightarrow> uid \<Rightarrow> string io" where
  "validate_trust_path fs path required_uid =
     (if \<not> is_absolute path \<or> list_ex (\<lambda>c. c = CurDir \<or> c = ParentDir) (components path)
      then io_throw (Anyhow ''Strict trusted-key path must be absolute and normalized'' [])
      else
        io_bind (validate_components fs path required_uid True) (\<lambda>_.
        io_bind (io_sys (Fs (Canonicalize path)) (os_canonicalize fs path)) (\<lambda>canonical.
        io_bind (validate_components fs canonical required_uid False) (\<lambda>_.
        io_bind (io_sys (Fs (Stat canonical)) (os_stat fs canonical)) (\<lambda>md.
        if md_type md \<noteq> RegularFile
        then io_throw (Anyhow ''Strict trusted-key path is not a regular file'' [])
        else io_return canonical)))))"

text \<open>\<open>take(MAX_POLICY_BYTES + 1)\<close> keeps the reader from reading any more bytes.\<close>

definition read_bounded :: "fs_os \<Rightarrow> nat \<Rightarrow> string io" where
  "read_bounded fs fd =
     io_bind (io_sys (Fs (ReadAll fd)) (os_read_to_end fs fd)) (\<lambda>contents.
     let bytes = take (MAX_POLICY_BYTES + 1) contents in
     if length bytes > MAX_POLICY_BYTES
     then io_throw (Anyhow ''Trusted-key policy exceeds {MAX_POLICY_BYTES} bytes'' [Num (int MAX_POLICY_BYTES)])
     else io_lift (from_utf8 bytes))"

definition read_strict_file :: "fs_os \<Rightarrow> string \<Rightarrow> uid \<Rightarrow> string io" where
  "read_strict_file fs path required_uid =
     io_bind (validate_trust_path fs path required_uid) (\<lambda>canonical.
     io_bind (io_sys (Fs (Stat canonical)) (os_stat fs canonical)) (\<lambda>expected.
     io_bind (io_sys (Fs (OpenFile canonical)) (os_open fs canonical)) (\<lambda>fd.
     io_bind (io_sys (Fs (Fstat fd)) (os_fstat fs fd)) (\<lambda>actual.
     if md_dev expected \<noteq> md_dev actual \<or> md_ino expected \<noteq> md_ino actual
     then io_throw (Anyhow ''Trusted-key file changed while opening'' [])
     else read_bounded fs fd))))"

text \<open>\<open>fs::read_to_string\<close>, for the legacy mode.\<close>

definition read_to_string :: "fs_os \<Rightarrow> string \<Rightarrow> string io" where
  "read_to_string fs path =
     io_bind (io_sys (Fs (ReadToString path)) (os_read_path fs path)) (\<lambda>bytes.
     if utf8_valid bytes then io_return bytes
     else io_throw (Io (IoNew KInvalidData ''stream did not contain valid UTF-8'')))"

section \<open>The specification\<close>

text \<open>
  One look at one file. It has to be owned by the required user. A symlink is accepted whatever its mode in the
  path as written, and never in the resolved path. Any other file must have no write bit for its group or
  for others, with one exception, which the README does not mention: \<open>/nix/store\<close> with the sticky bit
  may have them.
\<close>

definition writable_by_others :: "metadata \<Rightarrow> bool" where
  "writable_by_others md \<longleftrightarrow> bit (md_mode md) 4 \<or> bit (md_mode md) 1"

definition sticky :: "metadata \<Rightarrow> bool" where
  "sticky md \<longleftrightarrow> bit (md_mode md) 9"

definition safe_mode :: "string \<Rightarrow> metadata \<Rightarrow> bool" where
  "safe_mode path md \<longleftrightarrow> \<not> writable_by_others md \<or> path_eq path ''/nix/store'' \<and> sticky md"

definition trusted_look :: "uid \<Rightarrow> bool \<Rightarrow> string \<Rightarrow> io_error + metadata \<Rightarrow> bool" where
  "trusted_look required_uid allow_symlink path r = (case r of
     Inl _ \<Rightarrow> False
   | Inr md \<Rightarrow> md_uid md = required_uid \<and>
       (if md_type md = Symlink then allow_symlink else safe_mode path md))"

definition lstats :: "string list \<Rightarrow> trace" where
  "lstats ps = map (\<lambda>p. Fs (Lstat p)) ps"

lemma lstats_simps [simp]: "lstats [] = []" "lstats (p # ps) = Fs (Lstat p) # lstats ps"
  by (simp_all add: lstats_def)

text \<open>The \<open>i\<close>-th file of the list is looked at when the earlier ones have been looked at.\<close>

definition all_trusted :: "fs_os \<Rightarrow> uid \<Rightarrow> bool \<Rightarrow> string list \<Rightarrow> trace \<Rightarrow> bool" where
  "all_trusted fs required_uid allow_symlink ps tr \<longleftrightarrow>
     (\<forall>i<length ps. trusted_look required_uid allow_symlink (ps ! i)
        (os_lstat fs (ps ! i) (tr @ lstats (take i ps))))"

lemma all_trusted_Nil [simp]: "all_trusted fs u s [] tr"
  by (simp add: all_trusted_def)

lemma all_trusted_Cons [simp]:
  "all_trusted fs u s (p # ps) tr \<longleftrightarrow>
     trusted_look u s p (os_lstat fs p tr) \<and> all_trusted fs u s ps (tr @ [Fs (Lstat p)])"
  by (auto simp: all_trusted_def less_Suc_eq_0_disj)

lemma mode_bits: "w AND 18 = 0 \<longleftrightarrow> \<not> bit w 4 \<and> \<not> bit w 1" "w AND 512 = 0 \<longleftrightarrow> \<not> bit w 9" for w :: "32 word"
proof -
  have "w AND 18 = (w AND 2 ^ 4) OR (w AND 2 ^ 1)"
    by (simp flip: bit.conj_disj_distrib)
  then show "w AND 18 = 0 \<longleftrightarrow> \<not> bit w 4 \<and> \<not> bit w 1"
    using and_exp_eq_0_iff_not_bit [of w 4] and_exp_eq_0_iff_not_bit [of w 1] by (simp add: or_eq_0_iff)
  show "w AND 512 = 0 \<longleftrightarrow> \<not> bit w 9"
    using and_exp_eq_0_iff_not_bit [of w 9] by simp
qed

lemma validate_mode_Inr [result_simps]: "validate_mode p md = Inr u \<longleftrightarrow> safe_mode p md"
  by (auto simp: validate_mode_def safe_mode_def writable_by_others_def sticky_def mode_bits Let_def)

lemma validate_components_from_ok:
  "validate_components_from fs uid s cur cs tr = Some (Inr (), tr') \<longleftrightarrow>
     all_trusted fs uid s (pushed_prefixes cur cs) tr \<and> tr' = tr @ lstats (pushed_prefixes cur cs)"
proof (induction cs arbitrary: cur tr)
  case (Cons c cs)
  let ?cur = "path_push cur (component_str c)"
  show ?case
  proof (cases "os_lstat fs ?cur tr")
    case (Inl e)
    then show ?thesis by (auto simp: Let_def io_simps result_simps trusted_look_def)
  next
    case (Inr md)
    then show ?thesis
      using Cons.IH [of ?cur "tr @ [Fs (Lstat ?cur)]"]
      by (auto simp: Let_def io_simps result_simps trusted_look_def)
  qed
qed auto

lemma validate_components_ok [io_simps]:
  "validate_components fs path uid s tr = Some (Inr (), tr') \<longleftrightarrow>
     all_trusted fs uid s (ancestors path) tr \<and> tr' = tr @ lstats (ancestors path)"
  by (simp add: validate_components_def validate_components_from_ok ancestors_def)

lemma total_validate_components_from: "total_io (validate_components_from fs uid s cur cs)"
  by (induction cs arbitrary: cur) (auto simp: Let_def intro!: total_intros)

lemma total_validate_trust_path: "total_io (validate_trust_path fs path uid)"
  unfolding validate_trust_path_def validate_components_def
  by (intro total_intros total_validate_components_from)

lemma total_read_strict_file: "total_io (read_strict_file fs path uid)"
  unfolding read_strict_file_def validate_trust_path_def validate_components_def read_bounded_def
  by (intro total_intros total_validate_components_from)

section \<open>What strict mode checks\<close>

lemma absolute_no_CurDir: "is_absolute p \<Longrightarrow> CurDir \<notin> set (components p)"
  using components_absolute by fastforce

lemma validate_trust_path_ok:
  "validate_trust_path fs path uid tr = Some (Inr canonical, tr') \<longleftrightarrow>
     is_absolute path \<and> ParentDir \<notin> set (components path) \<and>
     all_trusted fs uid True (ancestors path) tr \<and>
     os_canonicalize fs path (tr @ lstats (ancestors path)) = Inr canonical \<and>
     all_trusted fs uid False (ancestors canonical)
       (tr @ lstats (ancestors path) @ [Fs (Canonicalize path)]) \<and>
     (\<exists>md. os_stat fs canonical
         (tr @ lstats (ancestors path) @ [Fs (Canonicalize path)] @ lstats (ancestors canonical)) = Inr md \<and>
       md_type md = RegularFile) \<and>
     tr' = tr @ lstats (ancestors path) @ [Fs (Canonicalize path)] @ lstats (ancestors canonical) @
       [Fs (Stat canonical)]"
  using absolute_no_CurDir [of path]
  by (auto simp: validate_trust_path_def io_simps result_simps list_ex_iff split: if_splits)

text \<open>
  C11: \<open>validate_trust_path\<close> accepts, in a given run, exactly the absolute paths without \<open>..\<close> of which every ancestor, as
  written and again after resolving symlinks, is owned by the required user and has a safe mode, and which
  lead to a regular file. A mode is safe if neither the group nor others have the write bit; \<open>/nix/store\<close> with
  the sticky bit is safe also when they have it. A symlink in the path as written is exempt from the check of the mode;
  in the resolved path a symlink is refused. Nothing but the mode bits and the owner is looked at.
\<close>

theorem validate_trust_path_spec:
  "validate_trust_path fs path uid tr = Some (Inr canonical, tr') \<longleftrightarrow>
     is_absolute path \<and> ParentDir \<notin> set (components path) \<and>
     all_trusted fs uid True (ancestors path) tr \<and>
     os_canonicalize fs path (tr @ lstats (ancestors path)) = Inr canonical \<and>
     all_trusted fs uid False (ancestors canonical)
       (tr @ lstats (ancestors path) @ [Fs (Canonicalize path)]) \<and>
     (\<exists>md. os_stat fs canonical
         (tr @ lstats (ancestors path) @ [Fs (Canonicalize path)] @ lstats (ancestors canonical)) = Inr md \<and>
       md_type md = RegularFile) \<and>
     tr' = tr @ lstats (ancestors path) @ [Fs (Canonicalize path)] @ lstats (ancestors canonical) @
       [Fs (Stat canonical)]"
  by (rule validate_trust_path_ok)

lemma all_trusted_no_symlink:
  assumes "all_trusted fs uid False ps tr" and "p \<in> set ps"
  obtains md tr' where "os_lstat fs p tr' = Inr md" and "md_uid md = uid" and "md_type md \<noteq> Symlink"
    and "safe_mode p md"
proof -
  from assms(2) obtain i where i: "i < length ps" "ps ! i = p" by (auto simp: in_set_conv_nth)
  with assms(1) have "trusted_look uid False p (os_lstat fs p (tr @ lstats (take i ps)))"
    unfolding all_trusted_def by blast
  then show thesis
    using that by (auto simp: trusted_look_def split: sum.splits if_splits)
qed

lemma read_bounded_ok:
  "read_bounded fs fd tr = Some (Inr s, tr') \<longleftrightarrow>
     os_read_to_end fs fd tr = Inr s \<and> length s \<le> MAX_POLICY_BYTES \<and> utf8_valid s \<and> tr' = tr @ [Fs (ReadAll fd)]"
proof (cases "os_read_to_end fs fd tr")
  case (Inr contents)
  have "s = contents" if "length (take (MAX_POLICY_BYTES + 1) contents) \<le> MAX_POLICY_BYTES"
      "s = take (MAX_POLICY_BYTES + 1) contents"
    using that by simp
  with Inr show ?thesis
    by (auto simp: read_bounded_def io_simps result_simps Let_def split: if_splits)
qed (simp add: read_bounded_def io_simps result_simps)

text \<open>What a strict read does, from the trace \<open>tr\<close>: the files it looked at, what it saw, and when.\<close>

definition strict_read :: "fs_os \<Rightarrow> string \<Rightarrow> uid \<Rightarrow> trace \<Rightarrow> string \<Rightarrow> trace \<Rightarrow> bool" where
  "strict_read fs path uid tr contents tr' \<longleftrightarrow>
     (\<exists>canonical fd expected actual md.
        let t1 = tr @ lstats (ancestors path); t2 = t1 @ [Fs (Canonicalize path)];
            t3 = t2 @ lstats (ancestors canonical); t4 = t3 @ [Fs (Stat canonical)];
            t5 = t4 @ [Fs (Stat canonical)]; t6 = t5 @ [Fs (OpenFile canonical)]; t7 = t6 @ [Fs (Fstat fd)] in
        is_absolute path \<and> ParentDir \<notin> set (components path) \<and>
        all_trusted fs uid True (ancestors path) tr \<and>
        os_canonicalize fs path t1 = Inr canonical \<and>
        all_trusted fs uid False (ancestors canonical) t2 \<and>
        os_stat fs canonical t3 = Inr md \<and> md_type md = RegularFile \<and>
        os_stat fs canonical t4 = Inr expected \<and>
        os_open fs canonical t5 = Inr fd \<and>
        os_fstat fs fd t6 = Inr actual \<and> md_dev actual = md_dev expected \<and> md_ino actual = md_ino expected \<and>
        os_read_to_end fs fd t7 = Inr contents \<and> length contents \<le> MAX_POLICY_BYTES \<and> utf8_valid contents \<and>
        tr' = t7 @ [Fs (ReadAll fd)])"

lemma read_strict_file_steps:
  "read_strict_file fs path uid tr = Some (Inr contents, tr') \<longleftrightarrow>
     (\<exists>canonical t expected fd actual.
        validate_trust_path fs path uid tr = Some (Inr canonical, t) \<and>
        os_stat fs canonical t = Inr expected \<and>
        os_open fs canonical (t @ [Fs (Stat canonical)]) = Inr fd \<and>
        os_fstat fs fd (t @ [Fs (Stat canonical), Fs (OpenFile canonical)]) = Inr actual \<and>
        md_dev actual = md_dev expected \<and> md_ino actual = md_ino expected \<and>
        os_read_to_end fs fd (t @ [Fs (Stat canonical), Fs (OpenFile canonical), Fs (Fstat fd)]) = Inr contents \<and>
        length contents \<le> MAX_POLICY_BYTES \<and> utf8_valid contents \<and>
        tr' = t @ [Fs (Stat canonical), Fs (OpenFile canonical), Fs (Fstat fd), Fs (ReadAll fd)])"
  by (fastforce simp: read_strict_file_def io_bind_Inr result_simps read_bounded_ok split: if_splits)

lemma read_strict_file_exact:
  "read_strict_file fs path uid tr = Some (Inr contents, tr') \<longleftrightarrow> strict_read fs path uid tr contents tr'"
  unfolding read_strict_file_steps validate_trust_path_ok strict_read_def Let_def
  by auto

text \<open>
  C12: what a strict read of a policy file is, exactly. It succeeds, with these contents and this trace, if and only if
  the path is absolute without \<open>..\<close>; each of its ancestors is owned by the user and, unless a symlink, has a safe mode
  (no write bit for group or others, or the sticky \<open>/nix/store\<close>), and again each ancestor of the canonical path, of which none is a symlink; it leads to a regular file; the opened file has the device and inode
  that the path led to just before; and the whole contents are at most one mebibyte of UTF-8. Each answer is the one
  given at its place in the run.
\<close>

theorem read_strict_file_safe:
  "read_strict_file fs path uid tr = Some (Inr contents, tr') \<longleftrightarrow> strict_read fs path uid tr contents tr'"
  by (rule read_strict_file_exact)

text \<open>A file system in which every directory is owned by root, for the concrete instances.\<close>

definition example_md :: "file_type \<Rightarrow> metadata" where
  "example_md ty = \<lparr>md_uid = 0, md_mode = 420, md_type = ty, md_dev = 1, md_ino = 7\<rparr>"

definition example_fs :: "string \<Rightarrow> fs_os" where
  "example_fs contents = \<lparr>os_lstat = (\<lambda>_ _. Inr (example_md Directory)), os_stat = (\<lambda>_ _. Inr (example_md RegularFile)),
     os_canonicalize = (\<lambda>p _. Inr p), os_open = (\<lambda>_ _. Inr 3), os_fstat = (\<lambda>_ _. Inr (example_md RegularFile)),
     os_read_to_end = (\<lambda>_ _. Inr contents), os_read_path = (\<lambda>_ _. Inr contents)\<rparr>"

lemma example_valid: "validate_trust_path (example_fs contents) ''/k'' 0 [] = Some (Inr ''/k'',
    [Fs (Lstat ''/''), Fs (Lstat ''/k''), Fs (Canonicalize ''/k''), Fs (Lstat ''/''), Fs (Lstat ''/k''), Fs (Stat ''/k'')])"
  by code_simp

lemma example_read: "read_strict_file (example_fs ''key'') ''/k'' 0 [] = Some (Inr ''key'',
    [Fs (Lstat ''/''), Fs (Lstat ''/k''), Fs (Canonicalize ''/k''), Fs (Lstat ''/''), Fs (Lstat ''/k''),
     Fs (Stat ''/k''), Fs (Stat ''/k''), Fs (OpenFile ''/k''), Fs (Fstat 3), Fs (ReadAll 3)])"
proof -
  have "utf8_valid ''key''" by code_simp
  then show ?thesis
    by (simp add: read_strict_file_def io_bind_def [of "validate_trust_path fs p u" for fs p u] example_valid)
       (simp add: io_run example_fs_def example_md_def read_bounded_def MAX_POLICY_BYTES_def from_utf8_def)
qed

lemma read_strict_file_safe_witness:
  "\<exists>tr'. strict_read (example_fs ''key'') ''/k'' 0 [] ''key'' tr'"
  using read_strict_file_safe [of "example_fs ''key''" "''/k''" 0 "[]" "''key''"] example_read by blast

end
