(* ===== verification/Cmd.thy ===== *)
theory Cmd imports Paths System PamConstants RustStr begin

text \<open>
  \<open>cmd.rs\<close>: running the helper command with dropped privileges, a deadline and a bound on its
  output. The process interface of the system is the record \<open>proc_os\<close>. Times are nanoseconds since
  an arbitrary origin. The pipes of the child exist because both streams are \<open>Stdio::piped()\<close>, so
  the errors for a missing pipe cannot occur and are left out.
\<close>

section \<open>The process interface\<close>

datatype exit_status = Exited int | Signaled nat

record proc_os =
  os_platform :: platform
  os_nobody_gid :: "32 word option"
  os_geteuid :: "32 word"
  os_fork :: "trace \<Rightarrow> io_error + 32 word"
  os_child_call :: "child_event \<Rightarrow> trace \<Rightarrow> errno option"
  os_pipe_getfl :: "stream \<Rightarrow> trace \<Rightarrow> io_error + 32 word"
  os_pipe_setfl :: "stream \<Rightarrow> 32 word \<Rightarrow> trace \<Rightarrow> io_error + unit"
  os_read_pipe :: "stream \<Rightarrow> trace \<Rightarrow> io_error + string"
  os_try_wait :: "trace \<Rightarrow> io_error + exit_status option"
  os_now :: "trace \<Rightarrow> nat"
  os_poll_pipes :: "trace \<Rightarrow> io_error + nat"

definition MAX_OUTPUT_BYTES :: nat where "MAX_OUTPUT_BYTES = 1024 * 1024"

definition nanos_per_milli :: nat where "nanos_per_milli = 1000000"

definition nanos_per_sec :: nat where "nanos_per_sec = 1000000000"

section \<open>Starting the child\<close>

definition default_low_privilege_gid :: "proc_os \<Rightarrow> (32 word) result" where
  "default_low_privilege_gid os = (case os_platform os of
     MacOS \<Rightarrow> ok_or (Anyhow ''Could not find the nobody group'' []) (os_nobody_gid os)
   | Linux \<Rightarrow> Inr 65534)"

definition child_call :: "proc_os \<Rightarrow> child_event \<Rightarrow> unit io" where
  "child_call os ev = io_sys (Proc (Child ev)) (\<lambda>tr. case os_child_call os ev tr of
     None \<Rightarrow> Inr () | Some n \<Rightarrow> Inl (OsError n))"

text \<open>The closure given to \<open>pre_exec\<close>.\<close>

definition pre_exec :: "proc_os \<Rightarrow> bool \<Rightarrow> bool \<Rightarrow> 32 word \<Rightarrow> 32 word \<Rightarrow> unit io" where
  "pre_exec os prevent_descendants clear_groups gid effective_uid =
     io_bind (if prevent_descendants then child_call os (SetRlimitNproc 0 0) else io_return ()) (\<lambda>_.
     io_bind (if clear_groups then child_call os SetGroupsEmpty else io_return ()) (\<lambda>_.
     io_bind (child_call os (SetGid (unat gid))) (\<lambda>_.
     child_call os (SetUid (unat effective_uid)))))"

text \<open>What the \<open>Command\<close> was built from: the cleared environment with three variables, its own group.\<close>

definition command_image :: "string \<Rightarrow> string list \<Rightarrow> exec_image" where
  "command_image program args = ExecImage program args
     [(''LANG'', ''C''), (''LC_ALL'', ''C''), (''PATH'', ''/usr/bin:/bin'')] True"

text \<open>
  \<open>Command::spawn\<close> forks; the child runs the closure and executes the image. If either fails the
  child reports the error to the parent, which reaps it and returns the error.
\<close>

definition spawn :: "proc_os \<Rightarrow> exec_image \<Rightarrow> unit io \<Rightarrow> (32 word) io" where
  "spawn os img closure =
     io_bind (io_sys (Proc Fork) (os_fork os)) (\<lambda>pid.
     io_match (io_bind closure (\<lambda>_. child_call os (Execve img))) (\<lambda>r. case r of
       Inr _ \<Rightarrow> io_return pid
     | Inl e \<Rightarrow> io_bind (io_emit (Proc WaitChild)) (\<lambda>_. io_throw e)))"

section \<open>The parent\<close>

text \<open>\<open>O_NONBLOCK\<close> of the two platforms.\<close>

fun O_NONBLOCK :: "platform \<Rightarrow> 32 word" where
  "O_NONBLOCK Linux = 2048"
| "O_NONBLOCK MacOS = 4"

text \<open>\<open>fcntl\<close> with \<open>F_GETFL\<close>, then with \<open>F_SETFL\<close>; a negative answer is an error.\<close>

definition set_nonblocking :: "proc_os \<Rightarrow> stream \<Rightarrow> unit io" where
  "set_nonblocking os s =
     io_bind (io_sys (Proc (GetPipeFlags s)) (os_pipe_getfl os s)) (\<lambda>flags.
     let flags = flags OR O_NONBLOCK (os_platform os) in
     io_sys (Proc (SetPipeFlags s flags)) (os_pipe_setfl os s flags))"

text \<open>\<open>i32::try_from(child.id())\<close>, then \<open>kill(-pid)\<close>, \<open>child.kill()\<close> and \<open>child.wait()\<close>.\<close>

definition terminate_and_reap :: "proc_os \<Rightarrow> 32 word \<Rightarrow> unit io" where
  "terminate_and_reap os pid =
     io_bind (if unat pid < 2 ^ 31 then io_emit (Proc (KillGroup (unat pid))) else io_return ()) (\<lambda>_.
     io_bind (io_emit (Proc KillChild)) (\<lambda>_.
     io_emit (Proc WaitChild)))"

definition now :: "proc_os \<Rightarrow> nat io" where
  "now os = io_ask ClockNow (os_now os)"

definition read_chunk :: "proc_os \<Rightarrow> stream \<Rightarrow> string io" where
  "read_chunk os s = io_sys (Proc (ReadPipe s)) (\<lambda>tr. map_sum id (take 8192) (os_read_pipe os s tr))"

definition error_kind :: "error \<Rightarrow> io_kind option" where
  "error_kind e = map_option io_kind_of (downcast_io e)"

partial_function (option) drain_output :: "proc_os \<Rightarrow> stream \<Rightarrow> string \<Rightarrow> bool \<Rightarrow> (string \<times> bool) io" where
  "drain_output os s output eof tr =
     io_match (read_chunk os s) (\<lambda>r. case r of
       Inr chunk \<Rightarrow>
         if chunk = [] then io_return (output, True)
         else if length output + length chunk > MAX_OUTPUT_BYTES
         then io_throw (Io (IoNew KInvalidData ''output limit exceeded''))
         else drain_output os s (output @ chunk) eof
     | Inl e \<Rightarrow>
         if error_kind e = Some KWouldBlock then io_return (output, eof)
         else if error_kind e = Some KInterrupted then drain_output os s output eof
         else io_throw e) tr"

text \<open>\<open>remaining.as_millis().clamp(1, ..)\<close>.\<close>

definition poll_millis :: "bool \<Rightarrow> nat \<Rightarrow> nat" where
  "poll_millis no_open_streams remaining =
     (let ms = remaining div nanos_per_milli in
      if no_open_streams then max 1 (min 10 ms) else max 1 (min 2147483647 ms))"

partial_function (option) wait_for_output :: "proc_os \<Rightarrow> bool \<Rightarrow> bool \<Rightarrow> nat \<Rightarrow> unit io" where
  "wait_for_output os stdout_eof stderr_eof deadline tr =
     io_bind (now os) (\<lambda>t.
     if deadline - t = 0 then io_return ()
     else
       io_match (io_sys (Proc (PollPipes (\<not> stdout_eof) (\<not> stderr_eof)
           (poll_millis (stdout_eof \<and> stderr_eof) (deadline - t)))) (os_poll_pipes os)) (\<lambda>r. case r of
         Inr _ \<Rightarrow> io_return ()
       | Inl e \<Rightarrow>
           if error_kind e \<noteq> Some KInterrupted then io_throw e
           else wait_for_output os stdout_eof stderr_eof deadline)) tr"

text \<open>The variables of the main loop.\<close>

record run_state =
  stdout_bytes :: string
  stderr_bytes :: string
  stdout_eof :: bool
  stderr_eof :: bool
  child_status :: "exit_status option"

definition initial_run_state :: run_state where
  "initial_run_state = \<lparr>stdout_bytes = [], stderr_bytes = [], stdout_eof = False, stderr_eof = False,
     child_status = None\<rparr>"

text \<open>\<open>if let Err(error) = m { terminate_and_reap(&mut child); return Err(..) }\<close>.\<close>

definition or_reap :: "proc_os \<Rightarrow> 32 word \<Rightarrow> (error \<Rightarrow> error) \<Rightarrow> 'a io \<Rightarrow> 'a io" where
  "or_reap os pid wrap m = io_match m (\<lambda>r. case r of
     Inr x \<Rightarrow> io_return x
   | Inl e \<Rightarrow> io_bind (terminate_and_reap os pid) (\<lambda>_. io_throw (wrap e)))"

definition fmt_error :: "string \<Rightarrow> error \<Rightarrow> error" where
  "fmt_error fmt e = Anyhow fmt (case downcast_io e of Some i \<Rightarrow> [IoArg i] | None \<Rightarrow> [])"

text \<open>
  The body of the loop: drain both pipes, stop if the child has been collected and both are at their
  end, else collect it, look at the clock, and wait for output.
\<close>

definition drain_both :: "proc_os \<Rightarrow> 32 word \<Rightarrow> run_state \<Rightarrow> run_state io" where
  "drain_both os pid st =
     io_bind (or_reap os pid (fmt_error ''failed reading stdout: {error}'')
        (drain_output os Stdout (stdout_bytes st) (stdout_eof st))) (\<lambda>(out, out_eof).
     io_bind (or_reap os pid (fmt_error ''failed reading stderr: {error}'')
        (drain_output os Stderr (stderr_bytes st) (stderr_eof st))) (\<lambda>(err, err_eof).
     io_return (st\<lparr>stdout_bytes := out, stdout_eof := out_eof, stderr_bytes := err, stderr_eof := err_eof\<rparr>)))"

definition collect_and_wait :: "proc_os \<Rightarrow> 32 word \<Rightarrow> string \<Rightarrow> nat \<Rightarrow> nat \<Rightarrow> run_state \<Rightarrow> run_state io" where
  "collect_and_wait os pid command timeout deadline st =
     io_bind (if child_status st = None
        then or_reap os pid id (io_sys (Proc TryWait) (os_try_wait os))
        else io_return (child_status st)) (\<lambda>status.
     io_bind (now os) (\<lambda>t.
     if t \<ge> deadline then
       io_bind (terminate_and_reap os pid) (\<lambda>_.
       io_throw (Anyhow ''Timed out waiting for command '{}' after {:?}'' [Str command, Num (int timeout)]))
     else
       io_bind (or_reap os pid id (wait_for_output os (stdout_eof st) (stderr_eof st) deadline)) (\<lambda>_.
       io_return (st\<lparr>child_status := status\<rparr>))))"

definition run_pass :: "proc_os \<Rightarrow> 32 word \<Rightarrow> string \<Rightarrow> nat \<Rightarrow> nat \<Rightarrow> run_state \<Rightarrow> (run_state \<times> bool) io" where
  "run_pass os pid command timeout deadline st =
     io_bind (drain_both os pid st) (\<lambda>st.
     if child_status st \<noteq> None \<and> stdout_eof st \<and> stderr_eof st then io_return (st, True)
     else
       io_bind (collect_and_wait os pid command timeout deadline st) (\<lambda>st.
       io_return (st, False)))"

partial_function (option) run_loop :: "proc_os \<Rightarrow> 32 word \<Rightarrow> string \<Rightarrow> nat \<Rightarrow> nat \<Rightarrow> run_state \<Rightarrow> run_state io" where
  "run_loop os pid command timeout deadline st tr =
     io_bind (run_pass os pid command timeout deadline st) (\<lambda>p.
     if snd p then io_return (fst p)
     else run_loop os pid command timeout deadline (fst p)) tr"

text \<open>After the loop: the exit status, the check of standard error, and the trimmed output.\<close>

definition finish_run :: "string \<Rightarrow> run_state \<Rightarrow> string result" where
  "finish_run command st =
     and_then (ok_or (Anyhow ''command status was not collected'' []) (child_status st)) (\<lambda>exit_status.
     and_then (case exit_status of
         Exited code \<Rightarrow> if code = 0 then Inr ()
           else Inl (Anyhow ''Non-zero exit status from '{}': {}'' [Str command, Num code])
       | Signaled _ \<Rightarrow> Inl (Anyhow ''Non-zero exit status from '{}': {}'' [Str command, Str ''caught signal''])) (\<lambda>_.
     and_then (if stderr_bytes st = [] then Inr [] else from_utf8 (stderr_bytes st)) (\<lambda>_.
     and_then (from_utf8 (stdout_bytes st)) (\<lambda>out.
     Inr (trim_end out)))))"

definition run_inner :: "proc_os \<Rightarrow> string list \<Rightarrow> nat \<Rightarrow> 32 word \<Rightarrow> (32 word) option \<Rightarrow> bool \<Rightarrow> string io" where
  "run_inner os command timeout effective_uid effective_gid prevent_descendants =
     (case command of
        [] \<Rightarrow> io_throw (Anyhow ''command must not be empty'' [])
      | executable # args \<Rightarrow>
          if \<not> is_absolute executable
          then io_throw (Anyhow ''command executable must be an absolute path: {executable}'' [Str executable])
          else
            io_bind (io_lift (case effective_gid of Some gid \<Rightarrow> Inr gid | None \<Rightarrow> default_low_privilege_gid os)) (\<lambda>gid.
            let clear_groups = (os_geteuid os = 0) in
            io_bind (now os) (\<lambda>start.
            let deadline = start + timeout in
            io_bind (spawn os (command_image executable args)
               (pre_exec os prevent_descendants clear_groups gid effective_uid)) (\<lambda>pid.
            io_bind (or_reap os pid id (io_bind (set_nonblocking os Stdout) (\<lambda>_. set_nonblocking os Stderr))) (\<lambda>_.
            io_bind (run_loop os pid executable timeout deadline initial_run_state) (\<lambda>st.
            io_lift (finish_run executable st)))))))"

definition cmd_run :: "proc_os \<Rightarrow> string list \<Rightarrow> nat \<Rightarrow> 32 word \<Rightarrow> (32 word) option \<Rightarrow> string io" where
  "cmd_run os command timeout effective_uid effective_gid =
     run_inner os command timeout effective_uid effective_gid False"

definition run_without_descendants :: "proc_os \<Rightarrow> string list \<Rightarrow> nat \<Rightarrow> 32 word \<Rightarrow> (32 word) option \<Rightarrow> string io" where
  "run_without_descendants os command timeout effective_uid effective_gid =
     run_inner os command timeout effective_uid effective_gid True"

section \<open>Which events the parts emit\<close>

lemma drain_output_run:
  assumes "drain_output os s out eof tr = Some y" and "P (Proc (ReadPipe s))"
  shows "\<exists>evs. snd y = tr @ evs \<and> list_all P evs"
  using assms
proof (induction os s out eof tr y rule: drain_output.raw_induct [rotated 1, consumes 1, case_names 1])
  case (1 rec os s out eof tr y)
  have "emits P (rec os s out' eof)" for out'
    by (rule emits_of_run) (rule 1(1) [OF _ 1(3)])
  then show ?case
    by (intro emits_run_match [OF 1(2)] emits_intros) (auto simp: read_chunk_def intro!: emits_intros 1(3))
qed

lemma emits_drain_output [emits_intros]: "P (Proc (ReadPipe s)) \<Longrightarrow> emits P (drain_output os s out eof)"
  by (blast intro: emits_of_run drain_output_run)

lemma wait_for_output_run:
  assumes "wait_for_output os oe ee deadline tr = Some y" and "P ClockNow"
    and "\<And>ms. 1 \<le> ms \<Longrightarrow> ms < 2 ^ 31 \<Longrightarrow> (oe \<and> ee \<longrightarrow> ms \<le> 10) \<Longrightarrow> P (Proc (PollPipes (\<not> oe) (\<not> ee) ms))"
  shows "\<exists>evs. snd y = tr @ evs \<and> list_all P evs"
  using assms
proof (induction os oe ee deadline tr y rule: wait_for_output.raw_induct [rotated 1, consumes 1, case_names 1])
  case (1 rec os oe ee deadline tr y)
  have "emits P (rec os oe ee deadline)"
    by (rule emits_of_run) (rule 1(1) [OF _ 1(3,4)])
  moreover have "1 \<le> poll_millis b n \<and> poll_millis b n < 2 ^ 31 \<and> (b \<longrightarrow> poll_millis b n \<le> 10)" for b n
    by (auto simp: poll_millis_def Let_def)
  ultimately show ?case
    by (intro emits_run_bind [OF 1(2)] emits_intros) (auto simp: now_def intro!: emits_intros 1(3,4))
qed

text \<open>The deadline of a poll: at least a millisecond, and no longer than a \<open>c_int\<close> holds.\<close>

definition poll_in_bounds :: "event \<Rightarrow> bool" where
  "poll_in_bounds ev = (case ev of
     Proc (PollPipes a b ms) \<Rightarrow> 1 \<le> ms \<and> ms < 2 ^ 31 \<and> (\<not> a \<and> \<not> b \<longrightarrow> ms \<le> 10) | _ \<Rightarrow> True)"

lemma emits_wait_for_output [emits_intros]:
  "P ClockNow \<Longrightarrow> (\<And>ms. 1 \<le> ms \<Longrightarrow> ms < 2 ^ 31 \<Longrightarrow> (oe \<and> ee \<longrightarrow> ms \<le> 10) \<Longrightarrow> P (Proc (PollPipes (\<not> oe) (\<not> ee) ms))) \<Longrightarrow>
     emits P (wait_for_output os oe ee deadline)"
  by (blast intro: emits_of_run wait_for_output_run)

text \<open>The events of the parent after the fork.\<close>

definition parent_event :: "event \<Rightarrow> bool" where
  "parent_event ev \<longleftrightarrow> poll_in_bounds ev \<and> (case ev of
     ClockNow \<Rightarrow> True
   | Proc (ReadPipe _) \<Rightarrow> True | Proc (PollPipes _ _ _) \<Rightarrow> True | Proc TryWait \<Rightarrow> True
   | Proc (KillGroup _) \<Rightarrow> True | Proc KillChild \<Rightarrow> True | Proc WaitChild \<Rightarrow> True
   | Proc (GetPipeFlags _) \<Rightarrow> True | Proc (SetPipeFlags _ _) \<Rightarrow> True | _ \<Rightarrow> False)"

lemma parent_event_simps [simp]:
  "parent_event ClockNow" "parent_event (Proc (ReadPipe s))" "parent_event (Proc TryWait)"
  "parent_event (Proc (KillGroup n))" "parent_event (Proc KillChild)" "parent_event (Proc WaitChild)"
  "parent_event (Proc (GetPipeFlags s))" "parent_event (Proc (SetPipeFlags s fl))" "\<not> parent_event (Proc (Child c))" "\<not> parent_event (Proc Fork)"
  "parent_event (Proc (PollPipes a b ms)) \<longleftrightarrow> 1 \<le> ms \<and> ms < 2 ^ 31 \<and> (\<not> a \<and> \<not> b \<longrightarrow> ms \<le> 10)"
  by (simp_all add: parent_event_def poll_in_bounds_def)

lemma emits_terminate_and_reap [emits_intros]: "emits parent_event (terminate_and_reap os pid)"
  unfolding terminate_and_reap_def by (intro emits_intros) simp_all

lemma emits_or_reap [emits_intros]: "emits parent_event m \<Longrightarrow> emits parent_event (or_reap os pid f m)"
  unfolding or_reap_def by (intro emits_intros)

lemma emits_set_nonblocking [emits_intros]: "emits parent_event (set_nonblocking os s)"
  unfolding set_nonblocking_def Let_def by (intro emits_intros) simp_all

lemma emits_run_pass [emits_intros]: "emits parent_event (run_pass os pid command timeout deadline st)"
  unfolding run_pass_def drain_both_def collect_and_wait_def now_def by (intro emits_intros) auto

lemma run_loop_run:
  assumes "run_loop os pid command timeout deadline st tr = Some y"
  shows "\<exists>evs. snd y = tr @ evs \<and> list_all parent_event evs"
  using assms
proof (induction os pid command timeout deadline st tr y rule: run_loop.raw_induct [rotated 1, consumes 1, case_names 1])
  case (1 rec os pid command timeout deadline st tr y)
  have "emits parent_event (rec os pid command timeout deadline st')" for st'
    by (rule emits_of_run) (rule 1(1))
  then show ?case
    by (intro emits_run_bind [OF 1(2)] emits_intros)
qed

lemma emits_run_loop [emits_intros]: "emits parent_event (run_loop os pid command timeout deadline st)"
  by (blast intro: emits_of_run run_loop_run)

section \<open>The child gives up its privileges before it runs the helper\<close>

text \<open>The system calls of the child in order, and that all of them succeeded.\<close>

definition privilege_drop :: "bool \<Rightarrow> bool \<Rightarrow> 32 word \<Rightarrow> 32 word \<Rightarrow> child_event list" where
  "privilege_drop prevent_descendants clear_groups gid uid =
     (if prevent_descendants then [SetRlimitNproc 0 0] else []) @
     (if clear_groups then [SetGroupsEmpty] else []) @ [SetGid (unat gid), SetUid (unat uid)]"

definition child_trace :: "child_event list \<Rightarrow> trace" where
  "child_trace cs = map (\<lambda>c. Proc (Child c)) cs"

definition all_succeed :: "proc_os \<Rightarrow> child_event list \<Rightarrow> trace \<Rightarrow> bool" where
  "all_succeed os cs tr \<longleftrightarrow> (\<forall>i<length cs. os_child_call os (cs ! i) (tr @ child_trace (take i cs)) = None)"

lemma child_trace_simps [simp]:
  "child_trace [] = []" "child_trace (c # cs) = Proc (Child c) # child_trace cs"
  "child_trace (cs @ ds) = child_trace cs @ child_trace ds"
  by (simp_all add: child_trace_def)

lemma all_succeed_simps [simp]:
  "all_succeed os [] tr"
  "all_succeed os (c # cs) tr \<longleftrightarrow> os_child_call os c tr = None \<and> all_succeed os cs (tr @ [Proc (Child c)])"
  by (auto simp: all_succeed_def less_Suc_eq_0_disj)

lemma all_succeed_append:
  "all_succeed os (cs @ ds) tr \<longleftrightarrow> all_succeed os cs tr \<and> all_succeed os ds (tr @ child_trace cs)"
  by (induction cs arbitrary: tr) auto

fun child_calls :: "proc_os \<Rightarrow> child_event list \<Rightarrow> unit io" where
  "child_calls os [] = io_return ()"
| "child_calls os (c # cs) = io_bind (child_call os c) (\<lambda>_. child_calls os cs)"

lemma child_call_run: "child_call os c tr = Some (case os_child_call os c tr of
    None \<Rightarrow> Inr () | Some n \<Rightarrow> Inl (Io (OsError n)), tr @ [Proc (Child c)])"
  by (simp add: child_call_def split: option.split)

lemma child_calls_run:
  assumes "child_calls os cs tr = Some (r, tr')"
  obtains (succeeded) "r = Inr ()" "all_succeed os cs tr" "tr' = tr @ child_trace cs"
  | (failed) n k where "r = Inl (Io (OsError n))" "k < length cs"
      "tr' = tr @ child_trace (take (Suc k) cs)" "all_succeed os (take k cs) tr"
      "os_child_call os (cs ! k) (tr @ child_trace (take k cs)) = Some n"
  using assms
proof (induction cs arbitrary: tr thesis)
  case Nil
  then show ?case by simp
next
  case (Cons c cs)
  show ?case
  proof (cases "os_child_call os c tr")
    case None
    then have rest: "child_calls os cs (tr @ [Proc (Child c)]) = Some (r, tr')"
      using Cons.prems(3) by (simp add: io_bind_def child_call_run)
    show ?thesis
      using rest None by (cases rule: Cons.IH [OF _ _ rest, case_names succeeded failed])
        (use Cons.prems(1) None in force, use Cons.prems(2) [of _ "Suc _"] None in force)
  next
    case (Some n)
    then show ?thesis
      using Cons.prems(2) [of n 0] Cons.prems(3) by (simp add: io_bind_def child_call_run)
  qed
qed

lemma child_calls_append: "child_calls os (cs @ ds) = io_bind (child_calls os cs) (\<lambda>_. child_calls os ds)"
proof (induction cs)
  case (Cons c cs)
  then show ?case
    by (auto simp: io_bind_def fun_eq_iff split: option.split sum.split)
qed (simp add: io_bind_def io_return_def)

lemma pre_exec_calls: "pre_exec os prevent clear gid uid = child_calls os (privilege_drop prevent clear gid uid)"
proof -
  have "io_bind m (\<lambda>_. io_return ()) = m" for m :: "unit io"
    by (auto simp: io_bind_def io_return_def fun_eq_iff split: option.split sum.split)
  then show ?thesis
    by (simp add: pre_exec_def privilege_drop_def child_calls_append)
qed

lemma spawn_calls: "spawn os img (pre_exec os prevent clear gid uid) =
     io_bind (io_sys (Proc Fork) (os_fork os)) (\<lambda>pid.
     io_match (child_calls os (privilege_drop prevent clear gid uid @ [Execve img])) (\<lambda>r. case r of
       Inr _ \<Rightarrow> io_return pid
     | Inl e \<Rightarrow> io_bind (io_emit (Proc WaitChild)) (\<lambda>_. io_throw e)))"
proof -
  have "io_bind m (\<lambda>_. io_return ()) = m" for m :: "unit io"
    by (auto simp: io_bind_def io_return_def fun_eq_iff split: option.split sum.split)
  then have "io_bind (child_calls os cs) (\<lambda>_. child_call os c) = child_calls os (cs @ [c])" for cs c
    by (simp add: child_calls_append)
  then show ?thesis
    by (simp add: spawn_def pre_exec_calls)
qed

lemma spawn_run:
  assumes "spawn os img (pre_exec os prevent clear gid uid) tr = Some (r, tr')"
  obtains (fork_failed) e where "os_fork os tr = Inl e" "r = Inl (Io e)" "tr' = tr @ [Proc Fork]"
  | (started) pid where "os_fork os tr = Inr pid" "r = Inr pid"
      "all_succeed os (privilege_drop prevent clear gid uid @ [Execve img]) (tr @ [Proc Fork])"
      "tr' = tr @ Proc Fork # child_trace (privilege_drop prevent clear gid uid) @ [Proc (Child (Execve img))]"
  | (child_failed) pid n k where "os_fork os tr = Inr pid" "r = Inl (Io (OsError n))"
      "k < length (privilege_drop prevent clear gid uid @ [Execve img])"
      "all_succeed os (take k (privilege_drop prevent clear gid uid @ [Execve img])) (tr @ [Proc Fork])"
      "tr' = tr @ Proc Fork # child_trace (take (Suc k) (privilege_drop prevent clear gid uid @ [Execve img])) @
         [Proc WaitChild]"
proof (cases "os_fork os tr")
  case (Inl e)
  with assms fork_failed show thesis by (simp add: spawn_calls io_step)
next
  case (Inr pid)
  let ?cs = "privilege_drop prevent clear gid uid @ [Execve img]"
  obtain q tr1 where calls: "child_calls os ?cs (tr @ [Proc Fork]) = Some (q, tr1)"
    and rest: "(case q of Inr _ \<Rightarrow> io_return pid
     | Inl e \<Rightarrow> io_bind (io_emit (Proc WaitChild)) (\<lambda>_. io_throw e)) tr1 = Some (r, tr')"
  proof -
    have "io_match (child_calls os ?cs) (\<lambda>r. case r of
       Inr _ \<Rightarrow> io_return pid
     | Inl e \<Rightarrow> io_bind (io_emit (Proc WaitChild)) (\<lambda>_. io_throw e)) (tr @ [Proc Fork]) = Some (r, tr')"
      using assms Inr by (simp add: spawn_calls io_step)
    then show thesis using that unfolding io_match_Some by blast
  qed
  from calls show thesis
  proof (cases rule: child_calls_run [OF calls, case_names succeeded failed])
    case succeeded
    with rest Inr started show thesis by simp
  next
    case (failed n k)
    have "r = Inl (Io (OsError n))" "tr' = tr1 @ [Proc WaitChild]"
      using rest failed(1) by (auto simp: io_step)
    with failed Inr show thesis by (intro child_failed) simp_all
  qed
qed

lemma run_inner_run:
  assumes "run_inner os command timeout uid egid prevent tr = Some (r, tr')"
  obtains (refused) e where "r = Inl e" "tr' = tr"
  | (spawned) exe args gid q tr1 where "command = exe # args" "is_absolute exe"
      "(case egid of Some g \<Rightarrow> Inr g | None \<Rightarrow> default_low_privilege_gid os) = Inr gid"
      "spawn os (command_image exe args) (pre_exec os prevent (os_geteuid os = 0) gid uid) (tr @ [ClockNow]) = Some (q, tr1)"
      "(case q of Inl e \<Rightarrow> io_throw e | Inr pid \<Rightarrow>
          io_bind (or_reap os pid id (io_bind (set_nonblocking os Stdout) (\<lambda>_. set_nonblocking os Stderr))) (\<lambda>_.
          io_bind (run_loop os pid exe timeout (os_now os tr + timeout) initial_run_state) (\<lambda>st.
          io_lift (finish_run exe st)))) tr1 = Some (r, tr')"
proof (cases command)
  case Nil
  with assms refused show thesis by (simp add: run_inner_def)
next
  case (Cons exe args)
  show thesis
  proof (cases "is_absolute exe")
    case False
    with assms Cons refused show thesis by (simp add: run_inner_def)
  next
    case True
    show thesis
    proof (cases "case egid of Some g \<Rightarrow> Inr g | None \<Rightarrow> default_low_privilege_gid os")
      case (Inl e)
      with assms Cons True refused [of e] show thesis by (simp add: run_inner_def io_bind_def io_lift_def)
    next
      case (Inr gid)
      let ?rest = "\<lambda>pid. io_bind (or_reap os pid id (io_bind (set_nonblocking os Stdout) (\<lambda>_. set_nonblocking os Stderr))) (\<lambda>_.
          io_bind (run_loop os pid exe timeout (os_now os tr + timeout) initial_run_state) (\<lambda>st.
          io_lift (finish_run exe st)))"
      let ?spawn = "spawn os (command_image exe args) (pre_exec os prevent (os_geteuid os = 0) gid uid)"
      have "io_bind ?spawn ?rest (tr @ [ClockNow]) = Some (r, tr')"
        using assms Cons True Inr by (simp add: run_inner_def now_def Let_def io_step)
      then obtain q tr1 where "?spawn (tr @ [ClockNow]) = Some (q, tr1)"
        and "(case q of Inl e \<Rightarrow> io_throw e | Inr pid \<Rightarrow> ?rest pid) tr1 = Some (r, tr')"
        unfolding io_bind_match [of ?spawn] io_match_Some by blast
      with Cons True Inr show thesis by (rule spawned)
    qed
  qed
qed

text \<open>An image that is executed follows directly on the calls that drop the privileges.\<close>

lemma run_inner_exec:
  assumes "run_inner os command timeout uid egid prevent tr = Some (r, tr @ evs)"
    and "Proc (Child (Execve img)) \<in> set evs"
  shows "\<exists>exe args gid rest. command = exe # args \<and> is_absolute exe \<and>
    (case egid of Some g \<Rightarrow> g = gid | None \<Rightarrow> default_low_privilege_gid os = Inr gid) \<and>
    img = ExecImage exe args [(''LANG'', ''C''), (''LC_ALL'', ''C''), (''PATH'', ''/usr/bin:/bin'')] True \<and>
    evs = [ClockNow, Proc Fork] @ child_trace (privilege_drop prevent (os_geteuid os = 0) gid uid) @
      [Proc (Child (Execve img))] @ rest \<and>
    all_succeed os (privilege_drop prevent (os_geteuid os = 0) gid uid) (tr @ [ClockNow, Proc Fork]) \<and>
    list_all parent_event rest"
  using assms(1)
proof (cases rule: run_inner_run)
  case (refused e)
  with assms(2) show ?thesis by simp
next
  case (spawned exe args gid q tr1)
  let ?drop = "privilege_drop prevent (os_geteuid os = 0) gid uid"
  let ?img = "command_image exe args"
  have only: "c \<noteq> Execve img" if "c \<in> set ?drop" for c
    using that by (auto simp: privilege_drop_def split: if_splits)
  have gid: "case egid of Some g \<Rightarrow> g = gid | None \<Rightarrow> default_low_privilege_gid os = Inr gid"
    using spawned(3) by (auto split: option.splits)
  from spawned(4) show ?thesis
  proof (cases rule: spawn_run)
    case (fork_failed e)
    with spawned(5) assms(2) show ?thesis by simp
  next
    case (started pid)
    have "emits parent_event (case q of Inl e \<Rightarrow> io_throw e | Inr pid \<Rightarrow>
          io_bind (or_reap os pid id (io_bind (set_nonblocking os Stdout) (\<lambda>_. set_nonblocking os Stderr))) (\<lambda>_.
          io_bind (run_loop os pid exe timeout (os_now os tr + timeout) initial_run_state) (\<lambda>st.
          io_lift (finish_run exe st))))"
      by (intro emits_intros)
    with spawned(5) obtain rest where rest: "tr @ evs = tr1 @ rest" "list_all parent_event rest"
      by (blast elim: emitsD)
    then have evs: "evs = [ClockNow, Proc Fork] @ child_trace ?drop @ [Proc (Child (Execve ?img))] @ rest"
      using started(4) by simp
    have "Proc (Child (Execve img)) \<notin> set rest"
      using rest(2) by (auto simp: list_all_iff)
    then have "img = ?img"
      using assms(2) only by (auto simp: evs child_trace_def)
    then show ?thesis
      using spawned(1,2) gid evs rest(2) started(3)
      by (auto simp: command_image_def all_succeed_append)
  next
    case (child_failed pid n k)
    have evs: "evs = [ClockNow, Proc Fork] @ child_trace (take (Suc k) (?drop @ [Execve ?img])) @ [Proc WaitChild]"
      using spawned(5) child_failed(2,5) by simp
    have "k = length ?drop"
    proof (rule ccontr)
      assume "k \<noteq> length ?drop"
      then have "take (Suc k) (?drop @ [Execve ?img]) = take (Suc k) ?drop"
        using child_failed(3) by simp
      then show False
        using assms(2) only by (auto simp: evs child_trace_def dest!: in_set_takeD)
    qed
    then have evs: "evs = [ClockNow, Proc Fork] @ child_trace ?drop @ [Proc (Child (Execve ?img))] @ [Proc WaitChild]"
      and succ: "all_succeed os ?drop (tr @ [ClockNow, Proc Fork])"
      using evs child_failed(4) by simp_all
    then have "img = ?img" using assms(2) only by (auto simp: child_trace_def)
    moreover have "list_all parent_event [Proc WaitChild]" by simp
    ultimately show ?thesis
      using spawned(1,2) gid evs succ unfolding command_image_def by blast
  qed
qed

text \<open>
  C13: if the helper's image is executed at all, then before that, in this order and each with success,
  the child lowered its process limit (in strict mode), dropped its supplementary groups (if the module
  runs as root), and set its group and its user; the image is the absolute program with exactly the
  three variables of the cleared environment, in a process group of its own; and nothing but the
  parent's events follows.
\<close>

theorem helper_drops_privileges:
  assumes "run_inner os command timeout uid egid prevent tr = Some (r, tr @ evs)"
    and "Proc (Child (Execve img)) \<in> set evs"
  shows "\<exists>exe args gid rest. command = exe # args \<and> is_absolute exe \<and>
    (case egid of Some g \<Rightarrow> g = gid | None \<Rightarrow> default_low_privilege_gid os = Inr gid) \<and>
    img = ExecImage exe args [(''LANG'', ''C''), (''LC_ALL'', ''C''), (''PATH'', ''/usr/bin:/bin'')] True \<and>
    evs = [ClockNow, Proc Fork] @ child_trace (privilege_drop prevent (os_geteuid os = 0) gid uid) @
      [Proc (Child (Execve img))] @ rest \<and>
    all_succeed os (privilege_drop prevent (os_geteuid os = 0) gid uid) (tr @ [ClockNow, Proc Fork]) \<and>
    list_all parent_event rest"
  using assms by (rule run_inner_exec)

section \<open>What the loop collects\<close>

text \<open>The bytes that the reads of one pipe returned, in order.\<close>

fun pipe_bytes :: "proc_os \<Rightarrow> stream \<Rightarrow> trace \<Rightarrow> event list \<Rightarrow> string" where
  "pipe_bytes os s tr [] = []"
| "pipe_bytes os s tr (ev # evs) =
     (if ev = Proc (ReadPipe s) then (case os_read_pipe os s tr of Inr c \<Rightarrow> take 8192 c | Inl _ \<Rightarrow> []) else []) @
     pipe_bytes os s (tr @ [ev]) evs"

lemma pipe_bytes_append: "pipe_bytes os s tr (evs @ fvs) = pipe_bytes os s tr evs @ pipe_bytes os s (tr @ evs) fvs"
  by (induction evs arbitrary: tr) simp_all

lemma pipe_bytes_none: "list_all (\<lambda>ev. ev \<noteq> Proc (ReadPipe s)) evs \<Longrightarrow> pipe_bytes os s tr evs = []"
  by (induction evs arbitrary: tr) simp_all

text \<open>A read of the pipe found its end. Only the end of a pipe is answered with an empty read.\<close>

fun read_to_end :: "proc_os \<Rightarrow> stream \<Rightarrow> trace \<Rightarrow> event list \<Rightarrow> bool" where
  "read_to_end os s tr [] = False"
| "read_to_end os s tr (ev # evs) \<longleftrightarrow>
     ev = Proc (ReadPipe s) \<and> os_read_pipe os s tr = Inr [] \<or> read_to_end os s (tr @ [ev]) evs"

lemma read_to_end_append:
  "read_to_end os s tr (evs @ fvs) \<longleftrightarrow> read_to_end os s tr evs \<or> read_to_end os s (tr @ evs) fvs"
  by (induction evs arbitrary: tr) auto

text \<open>
  The pipe delivers the text \<open>w\<close>: each successful read takes the next bytes of it, and is empty only when
  nothing of it is left. A pipe that was read to its end has then been read completely.
\<close>

fun delivers :: "proc_os \<Rightarrow> stream \<Rightarrow> trace \<Rightarrow> event list \<Rightarrow> string \<Rightarrow> bool" where
  "delivers os s tr [] w = True"
| "delivers os s tr (ev # evs) w =
     (if ev \<noteq> Proc (ReadPipe s) then delivers os s (tr @ [ev]) evs w
      else (case os_read_pipe os s tr of
          Inl _ \<Rightarrow> delivers os s (tr @ [ev]) evs w
        | Inr c \<Rightarrow> (c = [] \<longrightarrow> w = []) \<and> starts_with (take 8192 c) w \<and>
            delivers os s (tr @ [ev]) evs (drop (length (take 8192 c)) w)))"

lemma delivers_prefix: "delivers os s tr evs w \<Longrightarrow> \<exists>rest. w = pipe_bytes os s tr evs @ rest"
proof (induction evs arbitrary: tr w)
  case (Cons ev evs)
  show ?case
  proof (cases "\<exists>c. ev = Proc (ReadPipe s) \<and> os_read_pipe os s tr = Inr c")
    case True
    then obtain c where c: "ev = Proc (ReadPipe s)" "os_read_pipe os s tr = Inr c" by blast
    then obtain v where v: "w = take 8192 c @ v" and "delivers os s (tr @ [ev]) evs v"
      using Cons.prems by (auto simp: starts_with_iff)
    with Cons.IH c show ?thesis by fastforce
  next
    case False
    then show ?thesis using Cons by (cases "os_read_pipe os s tr") (auto split: if_splits)
  qed
qed simp

lemma delivers_all: "delivers os s tr evs w \<Longrightarrow> read_to_end os s tr evs \<Longrightarrow> pipe_bytes os s tr evs = w"
proof (induction evs arbitrary: tr w)
  case (Cons ev evs)
  show ?case
  proof (cases "\<exists>c. ev = Proc (ReadPipe s) \<and> os_read_pipe os s tr = Inr c")
    case True
    then obtain c where c: "ev = Proc (ReadPipe s)" "os_read_pipe os s tr = Inr c" by blast
    then obtain v where v: "w = take 8192 c @ v" and rest: "delivers os s (tr @ [ev]) evs v" and "c = [] \<longrightarrow> v = []"
      using Cons.prems(1) by (auto simp: starts_with_iff)
    moreover have "pipe_bytes os s (tr @ [ev]) evs = v"
    proof (cases "c = []")
      case True
      then show ?thesis using delivers_prefix [OF rest] \<open>c = [] \<longrightarrow> v = []\<close> by simp
    next
      case False
      then show ?thesis using Cons.IH [OF rest] Cons.prems(2) c by simp
    qed
    ultimately show ?thesis using c by simp
  next
    case False
    then show ?thesis using Cons by (cases "os_read_pipe os s tr") (auto split: if_splits)
  qed
qed simp

lemma read_chunk_run: "read_chunk os s tr = Some (map_err Io (map_sum id (take 8192) (os_read_pipe os s tr)), tr @ [Proc (ReadPipe s)])"
  by (simp add: read_chunk_def)

lemma drain_output_ok:
  assumes "drain_output os s out eof tr = Some y" and "y = (Inr (out', eof'), tr')"
  shows "\<exists>evs. tr' = tr @ evs \<and> list_all (\<lambda>ev. ev = Proc (ReadPipe s)) evs \<and>
    out' = out @ pipe_bytes os s tr evs \<and> (length out \<le> MAX_OUTPUT_BYTES \<longrightarrow> length out' \<le> MAX_OUTPUT_BYTES) \<and>
    (eof' \<longrightarrow> eof \<or> read_to_end os s tr evs)"
  using assms
proof (induction os s out eof tr y rule: drain_output.raw_induct [rotated 1, consumes 1, case_names step])
  case (step rec os s out eof tr y)
  let ?goal = "\<lambda>evs. tr' = tr @ evs \<and> list_all (\<lambda>ev. ev = Proc (ReadPipe s)) evs \<and>
    out' = out @ pipe_bytes os s tr evs \<and> (length out \<le> MAX_OUTPUT_BYTES \<longrightarrow> length out' \<le> MAX_OUTPUT_BYTES) \<and>
    (eof' \<longrightarrow> eof \<or> read_to_end os s tr evs)"
  have later: "\<exists>evs. ?goal evs"
    if run: "rec os s out1 eof (tr @ [Proc (ReadPipe s)]) = Some (Inr (out', eof'), tr')"
      and out1: "out1 = out @ (case os_read_pipe os s tr of Inr c \<Rightarrow> take 8192 c | Inl _ \<Rightarrow> [])"
      and len: "length out \<le> MAX_OUTPUT_BYTES \<longrightarrow> length out1 \<le> MAX_OUTPUT_BYTES" for out1
  proof -
    from step.IH [OF run refl] obtain evs where "tr' = tr @ Proc (ReadPipe s) # evs"
      "list_all (\<lambda>ev. ev = Proc (ReadPipe s)) evs" "out' = out1 @ pipe_bytes os s (tr @ [Proc (ReadPipe s)]) evs"
      "length out1 \<le> MAX_OUTPUT_BYTES \<longrightarrow> length out' \<le> MAX_OUTPUT_BYTES"
      "eof' \<longrightarrow> eof \<or> read_to_end os s (tr @ [Proc (ReadPipe s)]) evs" by auto
    then have "?goal (Proc (ReadPipe s) # evs)" using out1 len by auto
    then show ?thesis by blast
  qed
  have stop: "\<exists>evs. ?goal evs" if "out' = out" "tr' = tr @ [Proc (ReadPipe s)]"
      "(case os_read_pipe os s tr of Inr c \<Rightarrow> take 8192 c | Inl _ \<Rightarrow> []) = []"
      "eof' \<longrightarrow> eof \<or> os_read_pipe os s tr = Inr []"
    using that by (intro exI [of _ "[Proc (ReadPipe s)]"]) simp
  show ?case
  proof (cases "os_read_pipe os s tr")
    case (Inl e)
    have "(if error_kind (Io e) = Some KWouldBlock then io_return (out, eof)
         else if error_kind (Io e) = Some KInterrupted then rec os s out eof
         else io_throw (Io e)) (tr @ [Proc (ReadPipe s)]) = Some (Inr (out', eof'), tr')"
      using step(2) unfolding step.prems by (simp add: io_match_def read_chunk_run Inl)
    then show ?thesis
      using later [of out] stop by (simp add: Inl split: if_splits)
  next
    case (Inr c)
    have body: "(if take 8192 c = [] then io_return (out, True)
         else if length out + length (take 8192 c) > MAX_OUTPUT_BYTES
         then io_throw (Io (IoNew KInvalidData ''output limit exceeded''))
         else rec os s (out @ take 8192 c) eof) (tr @ [Proc (ReadPipe s)]) = Some (Inr (out', eof'), tr')"
      using step(2) unfolding step.prems by (simp only: io_match_def read_chunk_run Inr option.case sum.case map_sum.simps map_err_simps prod.case)
    have run: "(if b then io_return (out, True) else if l then io_throw x else m) t = Some (Inr (out', eof'), tr') \<Longrightarrow>
        b \<and> out' = out \<and> tr' = t \<or> \<not> l \<and> m t = Some (Inr (out', eof'), tr')" for b l x m t
      by (cases b; cases l) auto
    from run [OF body] show ?thesis
    proof
      assume "take 8192 c = [] \<and> out' = out \<and> tr' = tr @ [Proc (ReadPipe s)]"
      then show ?thesis using stop by (simp add: Inr)
    next
      assume more: "\<not> length out + length (take 8192 c) > MAX_OUTPUT_BYTES \<and>
        rec os s (out @ take 8192 c) eof (tr @ [Proc (ReadPipe s)]) = Some (Inr (out', eof'), tr')"
      show ?thesis
        by (rule later [OF more [THEN conjunct2]]) (use more in \<open>simp_all only: Inr sum.case length_append not_less simp_thms\<close>)
    qed
  qed
qed

lemma terminate_and_reap_run:
  "\<exists>u. terminate_and_reap os pid tr = Some (Inr (), u @ [Proc WaitChild])"
proof -
  have "io_emit ev t = Some (Inr (), t @ [ev])" for ev t by simp
  then show ?thesis
    by (cases "unat pid < 2 ^ 31") (auto simp: terminate_and_reap_def io_step)
qed

lemma reap_and_throw: "io_bind (terminate_and_reap os pid) (\<lambda>_. io_throw d) t = Some (r, tr') \<Longrightarrow>
    r = Inl d \<and> (\<exists>u. tr' = u @ [Proc WaitChild])"
  using terminate_and_reap_run [of os pid t] by (auto simp: io_bind_def)

lemma or_reap_run: "or_reap os pid f m tr = (case m tr of None \<Rightarrow> None | Some (Inr y, t) \<Rightarrow> Some (Inr y, t)
     | Some (Inl e, t) \<Rightarrow> io_bind (terminate_and_reap os pid) (\<lambda>_. io_throw (f e)) t)"
  by (simp add: or_reap_def io_match_def io_return_def split: option.split sum.split)

lemma or_reap_Inr: "or_reap os pid f m tr = Some (Inr x, tr') \<longleftrightarrow> m tr = Some (Inr x, tr')"
  by (auto simp: or_reap_run dest: reap_and_throw split: option.splits sum.splits)

lemma or_reap_Inl: "or_reap os pid f m tr = Some (Inl e, tr') \<Longrightarrow> \<exists>u. tr' = u @ [Proc WaitChild]"
  by (auto simp: or_reap_run dest: reap_and_throw split: option.splits sum.splits)

lemma drain_both_Inl: "drain_both os pid st tr = Some (Inl e, tr') \<Longrightarrow> \<exists>u. tr' = u @ [Proc WaitChild]"
  by (auto simp: drain_both_def io_bind_Inl dest: or_reap_Inl split: prod.splits)

lemma collect_and_wait_Inl:
  "collect_and_wait os pid command timeout deadline st tr = Some (Inl e, tr') \<Longrightarrow> \<exists>u. tr' = u @ [Proc WaitChild]"
  by (auto simp: collect_and_wait_def io_bind_Inl [of "or_reap os pid f m" for f m] now_def io_step
      dest: or_reap_Inl reap_and_throw split: if_splits)

lemma run_pass_Inl: "run_pass os pid command timeout deadline st tr = Some (Inl e, tr') \<Longrightarrow> \<exists>u. tr' = u @ [Proc WaitChild]"
  by (auto simp: run_pass_def io_bind_Inl dest: drain_both_Inl collect_and_wait_Inl split: if_splits)

lemma drain_both_ok:
  assumes "drain_both os pid st tr = Some (Inr st', tr')"
  shows "\<exists>evs. tr' = tr @ evs \<and>
    stdout_bytes st' = stdout_bytes st @ pipe_bytes os Stdout tr evs \<and>
    stderr_bytes st' = stderr_bytes st @ pipe_bytes os Stderr tr evs \<and>
    (length (stdout_bytes st) \<le> MAX_OUTPUT_BYTES \<longrightarrow> length (stdout_bytes st') \<le> MAX_OUTPUT_BYTES) \<and>
    (stdout_eof st' \<longrightarrow> stdout_eof st \<or> read_to_end os Stdout tr evs) \<and>
    (stderr_eof st' \<longrightarrow> stderr_eof st \<or> read_to_end os Stderr tr evs) \<and>
    child_status st' = child_status st"
proof -
  obtain out oe tr1 err ee where
      out: "drain_output os Stdout (stdout_bytes st) (stdout_eof st) tr = Some (Inr (out, oe), tr1)"
    and err: "drain_output os Stderr (stderr_bytes st) (stderr_eof st) tr1 = Some (Inr (err, ee), tr')"
    and st': "st' = st\<lparr>stdout_bytes := out, stdout_eof := oe, stderr_bytes := err, stderr_eof := ee\<rparr>"
    using assms by (auto simp: drain_both_def io_bind_Inr or_reap_Inr split: prod.splits)
  obtain evs1 where evs1: "tr1 = tr @ evs1" "list_all (\<lambda>ev. ev = Proc (ReadPipe Stdout)) evs1"
      "out = stdout_bytes st @ pipe_bytes os Stdout tr evs1"
      "length (stdout_bytes st) \<le> MAX_OUTPUT_BYTES \<longrightarrow> length out \<le> MAX_OUTPUT_BYTES"
      "oe \<longrightarrow> stdout_eof st \<or> read_to_end os Stdout tr evs1"
    using drain_output_ok [OF out refl] by blast
  obtain evs2 where evs2: "tr' = tr1 @ evs2" "list_all (\<lambda>ev. ev = Proc (ReadPipe Stderr)) evs2"
      "err = stderr_bytes st @ pipe_bytes os Stderr tr1 evs2"
      "ee \<longrightarrow> stderr_eof st \<or> read_to_end os Stderr tr1 evs2"
    using drain_output_ok [OF err refl] by blast
  have "pipe_bytes os Stderr t evs1 = []" "pipe_bytes os Stdout t evs2 = []" for t
    using evs1(2) evs2(2) by (auto intro!: pipe_bytes_none simp: list_all_iff)
  with evs1 evs2 st' show ?thesis
    by (intro exI [of _ "evs1 @ evs2"]) (auto simp: pipe_bytes_append read_to_end_append)
qed

lemma collect_and_wait_ok:
  assumes "collect_and_wait os pid command timeout deadline st tr = Some (Inr st', tr')"
  shows "\<exists>evs status. tr' = tr @ evs \<and> list_all (\<lambda>ev. \<forall>s. ev \<noteq> Proc (ReadPipe s)) evs \<and>
    st' = st\<lparr>child_status := status\<rparr> \<and>
    (status = child_status st \<or> (\<exists>b. evs = Proc TryWait # b \<and> os_try_wait os tr = Inr status))"
proof -
  obtain status tr1 where status: "(if child_status st = None
        then or_reap os pid id (io_sys (Proc TryWait) (os_try_wait os))
        else io_return (child_status st)) tr = Some (Inr status, tr1)"
      and wait: "wait_for_output os (stdout_eof st) (stderr_eof st) deadline (tr1 @ [ClockNow]) = Some (Inr (), tr')"
      and st': "st' = st\<lparr>child_status := status\<rparr>"
    using assms by (auto simp: collect_and_wait_def io_bind_Inr [of "or_reap os pid f m" for f m]
        io_bind_Inr [of "if c then a else b" for a b c] now_def io_step or_reap_Inr dest: reap_and_throw split: if_split_asm)
  have "emits (\<lambda>ev. \<forall>s. ev \<noteq> Proc (ReadPipe s)) (wait_for_output os (stdout_eof st) (stderr_eof st) deadline)"
    by (intro emits_intros) auto
  with wait obtain evs2 where evs2: "tr' = tr1 @ ClockNow # evs2" "list_all (\<lambda>ev. \<forall>s. ev \<noteq> Proc (ReadPipe s)) evs2"
    by (auto elim: emitsD)
  show ?thesis
  proof (cases "child_status st = None")
    case True
    with status have "tr1 = tr @ [Proc TryWait]" "os_try_wait os tr = Inr status"
      by (auto simp: or_reap_Inr result_simps)
    with evs2 st' show ?thesis
      by (intro exI [of _ "Proc TryWait # ClockNow # evs2"] exI [of _ status]) simp
  next
    case False
    with status have "tr1 = tr" "status = child_status st" by auto
    with evs2 st' show ?thesis
      by (intro exI [of _ "ClockNow # evs2"] exI [of _ status]) simp
  qed
qed

subsection \<open>The invariant of the loop\<close>

text \<open>The child was collected with this status by a \<open>try_wait\<close> among these events.\<close>

definition collected :: "proc_os \<Rightarrow> trace \<Rightarrow> event list \<Rightarrow> exit_status \<Rightarrow> bool" where
  "collected os tr evs status \<longleftrightarrow>
     (\<exists>a b. evs = a @ Proc TryWait # b \<and> os_try_wait os (tr @ a) = Inr (Some status))"

lemma collected_append: "collected os tr evs status \<Longrightarrow> collected os tr (evs @ fvs) status"
  unfolding collected_def by (metis append.assoc append_Cons)

definition loop_invariant :: "proc_os \<Rightarrow> trace \<Rightarrow> event list \<Rightarrow> run_state \<Rightarrow> bool" where
  "loop_invariant os tr evs st \<longleftrightarrow>
     stdout_bytes st = pipe_bytes os Stdout tr evs \<and>
     stderr_bytes st = pipe_bytes os Stderr tr evs \<and>
     length (stdout_bytes st) \<le> MAX_OUTPUT_BYTES \<and>
     (stdout_eof st \<longrightarrow> read_to_end os Stdout tr evs) \<and>
     (stderr_eof st \<longrightarrow> read_to_end os Stderr tr evs) \<and>
     (\<forall>status. child_status st = Some status \<longrightarrow> collected os tr evs status)"

lemma loop_invariant_drain:
  assumes "loop_invariant os tr evs st" and "drain_both os pid st (tr @ evs) = Some (Inr st', tr')"
  shows "\<exists>fvs. tr' = tr @ evs @ fvs \<and> loop_invariant os tr (evs @ fvs) st'"
  using drain_both_ok [OF assms(2)] assms(1)
  by (auto simp: loop_invariant_def pipe_bytes_append read_to_end_append collected_append)

lemma loop_invariant_wait:
  assumes "loop_invariant os tr evs st"
    and "collect_and_wait os pid command timeout deadline st (tr @ evs) = Some (Inr st', tr')"
  shows "\<exists>fvs. tr' = tr @ evs @ fvs \<and> loop_invariant os tr (evs @ fvs) st'"
proof -
  obtain fvs status where fvs: "tr' = tr @ evs @ fvs" "list_all (\<lambda>ev. \<forall>s. ev \<noteq> Proc (ReadPipe s)) fvs"
      "st' = st\<lparr>child_status := status\<rparr>"
      "status = child_status st \<or> (\<exists>b. fvs = Proc TryWait # b \<and> os_try_wait os (tr @ evs) = Inr status)"
    using collect_and_wait_ok [OF assms(2)] by auto
  have "pipe_bytes os s t fvs = []" for s t
    using fvs(2) by (auto intro!: pipe_bytes_none simp: list_all_iff)
  moreover have "collected os tr (evs @ fvs) s" if "status = Some s" for s
  proof (cases "status = child_status st")
    case True
    then show ?thesis using assms(1) that by (auto simp: loop_invariant_def collected_append)
  next
    case False
    then show ?thesis using fvs(4) that by (auto simp: collected_def)
  qed
  ultimately show ?thesis
    using assms(1) fvs(1,3) by (auto simp: loop_invariant_def pipe_bytes_append read_to_end_append)
qed

definition loop_result :: "proc_os \<Rightarrow> trace \<Rightarrow> run_state result \<Rightarrow> trace \<Rightarrow> bool" where
  "loop_result os tr r tr' = (case r of
     Inl _ \<Rightarrow> \<exists>u. tr' = u @ [Proc WaitChild]
   | Inr st \<Rightarrow> \<exists>evs. tr' = tr @ evs \<and> loop_invariant os tr evs st \<and> child_status st \<noteq> None \<and>
       stdout_eof st \<and> stderr_eof st)"

lemma run_loop_result:
  assumes "run_loop os pid command timeout deadline st cur = Some y"
    and "cur = tr @ evs" and "loop_invariant os tr evs st"
  shows "loop_result os tr (fst y) (snd y)"
  using assms
proof (induction os pid command timeout deadline st cur y arbitrary: evs
    rule: run_loop.raw_induct [rotated 1, consumes 1, case_names step])
  case (step rec os pid command timeout deadline st cur y)
  obtain r cur' where y: "y = (r, cur')" by (cases y)
  let ?k = "\<lambda>p. if snd p then io_return (fst p) else rec os pid command timeout deadline (fst p)"
  have body: "io_bind (run_pass os pid command timeout deadline st) ?k cur = Some (r, cur')"
    using step(2) y by simp
  then obtain q cur1 where pass: "run_pass os pid command timeout deadline st cur = Some (q, cur1)"
      and cont: "(case q of Inl e \<Rightarrow> io_throw e | Inr p \<Rightarrow> ?k p) cur1 = Some (r, cur')"
    unfolding io_bind_match io_match_Some by blast
  show ?case
  proof (cases q)
    case (Inl e)
    with pass cont y show ?thesis
      by (auto simp: loop_result_def dest: run_pass_Inl)
  next
    case (Inr p)
    from pass Inr step.prems(1) obtain st1 cur2 where
        drain: "drain_both os pid st (tr @ evs) = Some (Inr st1, cur2)"
      and rest: "(if child_status st1 \<noteq> None \<and> stdout_eof st1 \<and> stderr_eof st1 then io_return (st1, True)
          else io_bind (collect_and_wait os pid command timeout deadline st1) (\<lambda>st. io_return (st, False))) cur2 = Some (Inr p, cur1)"
      by (auto simp: run_pass_def io_bind_Inr)
    obtain fvs where fvs: "cur2 = tr @ evs @ fvs" "loop_invariant os tr (evs @ fvs) st1"
      using loop_invariant_drain [OF step.prems(2) drain] by blast
    show ?thesis
    proof (cases "child_status st1 \<noteq> None \<and> stdout_eof st1 \<and> stderr_eof st1")
      case True
      with rest cont Inr y fvs show ?thesis
        by (auto simp: loop_result_def)
    next
      case False
      with rest obtain st2 where wait: "collect_and_wait os pid command timeout deadline st1 (tr @ (evs @ fvs)) = Some (Inr st2, cur1)"
          and p: "p = (st2, False)"
        by (auto simp: io_bind_Inr fvs(1))
      obtain gvs where gvs: "cur1 = tr @ (evs @ fvs) @ gvs" "loop_invariant os tr ((evs @ fvs) @ gvs) st2"
        using loop_invariant_wait [OF fvs(2) wait] by blast
      have "rec os pid command timeout deadline st2 cur1 = Some y"
        using cont Inr p y by simp
      from step.IH [OF this gvs] show ?thesis .
    qed
  qed
qed

lemma loop_invariant_initial: "loop_invariant os tr [] initial_run_state"
  by (simp add: loop_invariant_def initial_run_state_def)

lemma collected_shift: "collected os (tr @ pre) evs status \<Longrightarrow> collected os tr (pre @ evs) status"
  unfolding collected_def by (metis append.assoc)

text \<open>How a run that started the child goes on.\<close>

lemma run_inner_started:
  assumes "run_inner os command timeout uid egid prevent tr = Some (r, tr')"
  obtains (not_started) e where "r = Inl e" "Proc Fork \<in> set (drop (length tr) tr') \<Longrightarrow>
      (\<exists>d. os_fork os (tr @ [ClockNow]) = Inl d) \<or> (\<exists>u. tr' = u @ [Proc WaitChild] \<and> length u \<ge> length tr)"
  | (failed) e u where "r = Inl e" "tr' = u @ [Proc WaitChild]" "length u \<ge> length tr"
  | (looped) st pre evs where "tr' = tr @ pre @ evs" "loop_invariant os (tr @ pre) evs st"
      "child_status st \<noteq> None" "stdout_eof st" "stderr_eof st" "r = finish_run (hd command) st"
      "list_all (\<lambda>ev. \<forall>s. ev \<noteq> Proc (ReadPipe s)) pre"
  using assms
proof (cases rule: run_inner_run)
  case (refused e)
  then show thesis by (intro not_started) auto
next
  case (spawned exe args gid q tr1)
  let ?drop = "privilege_drop prevent (os_geteuid os = 0) gid uid"
  let ?pipes = "\<lambda>pid. or_reap os pid id (io_bind (set_nonblocking os Stdout) (\<lambda>_. set_nonblocking os Stderr))"
  let ?loop = "\<lambda>pid. run_loop os pid exe timeout (os_now os tr + timeout) initial_run_state"
  from spawned(4) show thesis
  proof (cases rule: spawn_run)
    case (fork_failed e)
    with spawned(5) show thesis by (intro not_started) auto
  next
    case (child_failed pid n k)
    with spawned(5) have "r = Inl (Io (OsError n))" "tr' = (tr @ ClockNow # Proc Fork # child_trace (take (Suc k)
        (?drop @ [Execve (command_image exe args)]))) @ [Proc WaitChild]" by simp_all
    then show thesis by (rule failed) simp
  next
    case (started pid)
    let ?rest = "io_bind (?pipes pid) (\<lambda>_. io_bind (?loop pid) (\<lambda>st. io_lift (finish_run exe st)))"
    have body: "?rest tr1 = Some (r, tr')" using spawned(5) started(2) by simp
    then obtain q2 tr2 where pipes: "?pipes pid tr1 = Some (q2, tr2)"
        and cont: "(case q2 of Inl e \<Rightarrow> io_throw e | Inr _ \<Rightarrow> io_bind (?loop pid) (\<lambda>st. io_lift (finish_run exe st))) tr2 = Some (r, tr')"
      unfolding io_bind_match [of "?pipes pid"] io_match_Some by blast
    have len: "length tr \<le> length tr1" using started(4) by simp
    have "emits (\<lambda>_. True) (?pipes pid)" "emits (\<lambda>_. True) (?loop pid)"
      by (rule emits_mono [where P = parent_event], intro emits_intros, simp)+
    then have grow: "length tr1 \<le> length tr2" using pipes by (auto elim: emitsD)
    show thesis
    proof (cases q2)
      case (Inl e)
      with pipes obtain u where u: "tr2 = u @ [Proc WaitChild]" by (auto dest: or_reap_Inl)
      have "tr1 \<noteq> tr2"
      proof
        assume "tr1 = tr2"
        then have "last tr1 = Proc WaitChild" using u by simp
        then show False using started(4) by simp
      qed
      then have "length tr1 < length tr2"
        using \<open>emits (\<lambda>_. True) (?pipes pid)\<close> pipes by (auto elim!: emitsD)
      then show thesis using failed Inl cont u len by auto
    next
      case (Inr x)
      have "io_bind (set_nonblocking os Stdout) (\<lambda>_. set_nonblocking os Stderr) tr1 = Some (Inr x, tr2)"
        using pipes Inr by (simp add: or_reap_Inr)
      then obtain fl1 fl2 where tr2: "tr2 = tr1 @ [Proc (GetPipeFlags Stdout), Proc (SetPipeFlags Stdout fl1),
          Proc (GetPipeFlags Stderr), Proc (SetPipeFlags Stderr fl2)]"
        by (auto simp: set_nonblocking_def io_bind_Inr Let_def)
      from Inr cont obtain q3 tr3 where loop: "?loop pid tr2 = Some (q3, tr3)"
          and fin: "(case q3 of Inl e \<Rightarrow> io_throw e | Inr st \<Rightarrow> io_lift (finish_run exe st)) tr3 = Some (r, tr')"
        by (auto simp: io_bind_match io_match_Some)
      have result: "loop_result os tr2 q3 tr3"
        using run_loop_result [OF loop _ loop_invariant_initial] by simp
      let ?pre = "ClockNow # Proc Fork # child_trace ?drop @ [Proc (Child (Execve (command_image exe args))),
        Proc (GetPipeFlags Stdout), Proc (SetPipeFlags Stdout fl1), Proc (GetPipeFlags Stderr), Proc (SetPipeFlags Stderr fl2)]"
      have tr2_pre: "tr2 = tr @ ?pre" using tr2 started(4) by simp
      show thesis
      proof (cases q3)
        case (Inl e)
        with result obtain u where u: "tr3 = u @ [Proc WaitChild]" by (auto simp: loop_result_def)
        have "length tr2 \<le> length tr3" using \<open>emits (\<lambda>_. True) (?loop pid)\<close> loop by (auto elim: emitsD)
        then have "length tr \<le> length u" using u tr2_pre by simp
        with failed Inl fin u show thesis by auto
      next
        case (Inr st)
        with result fin tr2_pre spawned(1) looped [of ?pre _ st] show thesis
          by (auto simp: loop_result_def child_trace_def list_all_iff)
      qed
    qed
  qed
qed

lemma suffix_ends:
  assumes "tr @ evs = u @ [ev]" and "length tr \<le> length u"
  shows "ev \<in> set evs"
proof -
  have "evs \<noteq> []" using arg_cong [OF assms(1), of length] assms(2) by auto
  then have "last evs = ev" using arg_cong [OF assms(1), of last] by simp
  with \<open>evs \<noteq> []\<close> show ?thesis using last_in_set by blast
qed

text \<open>
  C14: no helper is left behind. Whenever the run returns after a successful fork, with a result or an
  error, the child has been collected: by \<open>wait\<close>, or by a \<open>try_wait\<close> that returned its status.
\<close>

theorem helper_always_reaped:
  assumes "run_inner os command timeout uid egid prevent tr = Some (r, tr @ evs)"
    and "Proc Fork \<in> set evs" and "os_fork os (tr @ [ClockNow]) = Inr pid"
  shows "Proc WaitChild \<in> set evs \<or> (\<exists>status. collected os tr evs status)"
  using assms(1)
proof (cases rule: run_inner_started)
  case (not_started e)
  with assms(2,3) show ?thesis by (auto dest: suffix_ends)
next
  case (failed e u)
  then show ?thesis by (auto dest: suffix_ends)
next
  case (looped st pre fvs)
  then obtain status where "collected os (tr @ pre) fvs status"
    by (auto simp: loop_invariant_def)
  then show ?thesis using looped(1) by (auto dest: collected_shift)
qed

text \<open>
  C15: what a successful run returns. It is the standard output of the helper, all bytes of all reads in
  order and at most one mebibyte, with trailing white space removed; both streams were valid UTF-8, and the
  helper was collected with exit status zero. Nothing is cut off: both pipes were read to their end, so
  if the pipe delivers the text \<open>w\<close>, the result is the whole of \<open>w\<close> but for the white space at its end.
\<close>

theorem helper_output:
  assumes "run_inner os command timeout uid egid prevent tr = Some (Inr out, tr @ evs)"
  shows "out = trim_end (pipe_bytes os Stdout tr evs) \<and>
    length (pipe_bytes os Stdout tr evs) \<le> MAX_OUTPUT_BYTES \<and>
    utf8_valid (pipe_bytes os Stdout tr evs) \<and>
    (pipe_bytes os Stderr tr evs \<noteq> [] \<longrightarrow> utf8_valid (pipe_bytes os Stderr tr evs)) \<and>
    collected os tr evs (Exited 0) \<and>
    read_to_end os Stdout tr evs \<and> read_to_end os Stderr tr evs \<and>
    (\<forall>w. delivers os Stdout tr evs w \<longrightarrow> out = trim_end w) \<and>
    (\<forall>w. delivers os Stderr tr evs w \<longrightarrow> pipe_bytes os Stderr tr evs = w)"
  using assms
proof (cases rule: run_inner_started)
  case (looped st pre fvs)
  note invariant = looped(2) [unfolded loop_invariant_def]
  have pre: "pipe_bytes os s tr pre = []" for s
    using looped(7) by (auto intro!: pipe_bytes_none simp: list_all_iff)
  have evs: "evs = pre @ fvs" using looped(1) by simp
  have bytes: "pipe_bytes os Stdout tr evs = stdout_bytes st" "pipe_bytes os Stderr tr evs = stderr_bytes st"
    using invariant by (simp_all add: evs pre pipe_bytes_append)
  obtain status where status: "child_status st = Some status" using looped(3) by blast
  have fin: "finish_run (hd command) st = Inr out" using looped(6) by simp
  then have "status = Exited 0"
    using status by (auto simp: finish_run_def result_simps split: exit_status.splits if_splits)
  moreover have "collected os tr evs status"
    using invariant status evs by (auto dest: collected_shift)
  moreover have "out = trim_end (stdout_bytes st)" "utf8_valid (stdout_bytes st)"
      "stderr_bytes st \<noteq> [] \<longrightarrow> utf8_valid (stderr_bytes st)"
    using fin by (auto simp: finish_run_def result_simps split: if_splits)
  moreover have "read_to_end os Stdout tr evs" "read_to_end os Stderr tr evs"
    using invariant looped(4,5) by (simp_all add: evs read_to_end_append)
  moreover from this have "\<forall>w. delivers os Stdout tr evs w \<longrightarrow> stdout_bytes st = w"
      "\<forall>w. delivers os Stderr tr evs w \<longrightarrow> stderr_bytes st = w"
    using delivers_all unfolding bytes [symmetric] by blast+
  moreover have "length (stdout_bytes st) \<le> MAX_OUTPUT_BYTES" using invariant by blast
  ultimately show ?thesis
    unfolding bytes by (intro conjI) auto
qed simp_all

section \<open>The run returns\<close>

text \<open>The clock passes every instant, and reads are interrupted only finitely often.\<close>

definition clock_progresses :: "(trace \<Rightarrow> nat) \<Rightarrow> bool" where
  "clock_progresses clock \<longleftrightarrow> (\<forall>b. \<exists>n. \<forall>tr. n \<le> length tr \<longrightarrow> b \<le> clock tr)"

definition finitely_interrupted :: "proc_os \<Rightarrow> bool" where
  "finitely_interrupted os \<longleftrightarrow>
     (\<exists>n. \<forall>tr s e. n \<le> length tr \<longrightarrow> os_read_pipe os s tr = Inl e \<longrightarrow> io_kind_of e \<noteq> KInterrupted)"

lemma total_drain_output:
  assumes "\<forall>tr s e. n \<le> length tr \<longrightarrow> os_read_pipe os s tr = Inl e \<longrightarrow> io_kind_of e \<noteq> KInterrupted"
  shows "drain_output os s out eof tr \<noteq> None"
proof (induction "(MAX_OUTPUT_BYTES + 1 - length out) + (n - length tr)" arbitrary: out tr rule: less_induct)
  case less
  show ?case
  proof (cases "os_read_pipe os s tr")
    case (Inl e)
    have again: "drain_output os s out eof (tr @ [Proc (ReadPipe s)]) \<noteq> None" if "io_kind_of e = KInterrupted"
    proof (rule less)
      have "length tr < n" using assms Inl that by (meson not_less)
      then show "MAX_OUTPUT_BYTES + 1 - length out + (n - length (tr @ [Proc (ReadPipe s)]))
          < MAX_OUTPUT_BYTES + 1 - length out + (n - length tr)" by simp
    qed
    have "error_kind (Io e) = Some (io_kind_of e)" by (simp add: error_kind_def)
    then show ?thesis
      using again by (subst drain_output.simps) (simp add: io_match_def read_chunk_run Inl io_return_def io_throw_def)
  next
    case (Inr c)
    let ?c = "take 8192 c"
    have again: "drain_output os s (out @ ?c) eof (tr @ [Proc (ReadPipe s)]) \<noteq> None"
      if "?c \<noteq> []" "\<not> length out + length ?c > MAX_OUTPUT_BYTES"
    proof (rule less)
      have "0 < length ?c" using that(1) by (simp only: length_greater_0_conv) simp
      then have "MAX_OUTPUT_BYTES + 1 - length (out @ ?c) < MAX_OUTPUT_BYTES + 1 - length out"
        using that(2) unfolding length_append by linarith
      then show "MAX_OUTPUT_BYTES + 1 - length (out @ ?c) + (n - length (tr @ [Proc (ReadPipe s)]))
          < MAX_OUTPUT_BYTES + 1 - length out + (n - length tr)"
        unfolding length_append by linarith
    qed
    have "map_err Io (map_sum id (take 8192) (os_read_pipe os s tr)) = Inr ?c" by (simp add: Inr)
    then show ?thesis
      using again
      by (subst drain_output.simps) (simp only: io_match_def read_chunk_run option.case prod.case sum.case
        io_return_def io_throw_def split: if_split, simp)
  qed
qed

lemma total_wait_for_output:
  assumes "\<forall>tr. n \<le> length tr \<longrightarrow> deadline \<le> os_now os tr"
  shows "wait_for_output os oe ee deadline tr \<noteq> None"
proof (induction "n - length tr" arbitrary: tr rule: less_induct)
  case less
  show ?case
  proof (cases "deadline - os_now os tr = 0")
    case True
    then show ?thesis by (subst wait_for_output.simps) (simp add: now_def io_step)
  next
    case False
    then have early: "length tr < n" using assms by (metis diff_is_0_eq not_le)
    have "wait_for_output os oe ee deadline (tr @ [ClockNow, ev]) \<noteq> None" for ev
      by (rule less) (use early in simp)
    then show ?thesis
      using False by (subst wait_for_output.simps) (auto simp: now_def io_step io_throw_def io_return_def split: sum.split)
  qed
qed

lemma total_terminate_and_reap [total_intros]: "total_io (terminate_and_reap os pid)"
  unfolding terminate_and_reap_def by (intro total_intros)

lemma total_or_reap [total_intros]: "total_io m \<Longrightarrow> total_io (or_reap os pid f m)"
  unfolding or_reap_def by (intro total_intros)

lemma total_run_pass:
  assumes "\<forall>tr s e. n \<le> length tr \<longrightarrow> os_read_pipe os s tr = Inl e \<longrightarrow> io_kind_of e \<noteq> KInterrupted"
    and "\<forall>tr. m \<le> length tr \<longrightarrow> deadline \<le> os_now os tr"
  shows "total_io (run_pass os pid command timeout deadline st)"
proof -
  have "total_io (drain_output os s out eof)" for s out eof
    using total_drain_output [OF assms(1)] by (simp add: total_io_def)
  moreover have "total_io (wait_for_output os oe ee deadline)" for oe ee
    using total_wait_for_output [OF assms(2)] by (simp add: total_io_def)
  ultimately show ?thesis
    unfolding run_pass_def drain_both_def collect_and_wait_def now_def
    by (intro total_intros) (auto intro!: total_intros split: prod.split)
qed

text \<open>A pass that goes on has seen a clock before the deadline, and has looked at the clock.\<close>

lemma run_pass_again:
  assumes "run_pass os pid command timeout deadline st tr = Some (Inr (st', False), tr')"
  shows "\<exists>t. length tr \<le> length t \<and> length t < length tr' \<and> os_now os t < deadline"
proof -
  obtain st1 tr1 where drain: "drain_both os pid st tr = Some (Inr st1, tr1)"
    and rest: "(if child_status st1 \<noteq> None \<and> stdout_eof st1 \<and> stderr_eof st1 then io_return (st1, True)
          else io_bind (collect_and_wait os pid command timeout deadline st1) (\<lambda>st. io_return (st, False))) tr1 = Some (Inr (st', False), tr')"
    using assms unfolding run_pass_def io_bind_Inr by blast
  have wait: "collect_and_wait os pid command timeout deadline st1 tr1 = Some (Inr st', tr')"
    using rest by (auto simp: io_bind_Inr split: if_splits)
  have len1: "length tr \<le> length tr1" using drain_both_ok [OF drain] by auto
  obtain status tr2 where status: "(if child_status st1 = None
        then or_reap os pid id (io_sys (Proc TryWait) (os_try_wait os))
        else io_return (child_status st1)) tr1 = Some (Inr status, tr2)"
    and clock: "\<not> os_now os tr2 \<ge> deadline"
    and waited: "wait_for_output os (stdout_eof st1) (stderr_eof st1) deadline (tr2 @ [ClockNow]) = Some (Inr (), tr')"
    using wait by (auto simp: collect_and_wait_def io_bind_Inr [of "or_reap os pid f m" for f m]
        io_bind_Inr [of "if c then a else b" for a b c] now_def io_step or_reap_Inr dest: reap_and_throw split: if_split_asm)
  have "length tr1 \<le> length tr2"
    using status by (auto simp: or_reap_Inr split: if_splits)
  moreover have "emits (\<lambda>_. True) (wait_for_output os (stdout_eof st1) (stderr_eof st1) deadline)"
    by (intro emits_intros) auto
  then have "length tr2 < length tr'" using waited by (auto elim!: emitsD)
  ultimately show ?thesis using len1 clock by (intro exI [of _ tr2]) auto
qed

lemma total_run_loop:
  assumes "\<forall>tr s e. n \<le> length tr \<longrightarrow> os_read_pipe os s tr = Inl e \<longrightarrow> io_kind_of e \<noteq> KInterrupted"
    and "\<forall>tr. m \<le> length tr \<longrightarrow> deadline \<le> os_now os tr"
  shows "run_loop os pid command timeout deadline st tr \<noteq> None"
proof (induction "m - length tr" arbitrary: st tr rule: less_induct)
  case less
  obtain r tr1 where pass: "run_pass os pid command timeout deadline st tr = Some (r, tr1)"
    using total_run_pass [OF assms] by (blast elim: total_ioE)
  show ?case
  proof (cases "\<exists>st1. r = Inr (st1, False)")
    case True
    then obtain st1 where r: "r = Inr (st1, False)" by blast
    obtain t where t: "length tr \<le> length t" "length t < length tr1" "os_now os t < deadline"
      using run_pass_again pass unfolding r by blast
    then have "length t < m" using assms(2) by (meson not_le)
    with t have "m - length tr1 < m - length tr" by linarith
    then have "run_loop os pid command timeout deadline st1 tr1 \<noteq> None" by (rule less)
    then show ?thesis
      by (subst run_loop.simps) (simp add: io_bind_def pass r)
  next
    case False
    then show ?thesis
      by (subst run_loop.simps) (auto simp: io_bind_def pass io_return_def split: sum.split)
  qed
qed

lemma run_inner_returns:
  assumes "clock_progresses (os_now os)" and "finitely_interrupted os"
  shows "\<exists>r tr'. run_inner os command timeout uid egid prevent tr = Some (r, tr')"
proof -
  obtain n where n: "\<forall>tr s e. n \<le> length tr \<longrightarrow> os_read_pipe os s tr = Inl e \<longrightarrow> io_kind_of e \<noteq> KInterrupted"
    using assms(2) unfolding finitely_interrupted_def by blast
  have "total_io (run_loop os pid exe timeout deadline st)" for pid exe deadline st
  proof -
    obtain m where "\<forall>tr. m \<le> length tr \<longrightarrow> deadline \<le> os_now os tr"
      using assms(1) unfolding clock_progresses_def by blast
    then show ?thesis using total_run_loop [OF n] by (simp add: total_io_def)
  qed
  then have "total_io (run_inner os command timeout uid egid prevent)"
    unfolding run_inner_def spawn_def pre_exec_def child_call_def set_nonblocking_def now_def
    by (cases command) (auto simp: Let_def intro!: total_intros)
  then show ?thesis by (meson total_ioE)
qed

text \<open>
  C17: the run returns. If the clock passes every instant and reads are interrupted only finitely
  often, then running a helper returns a result or an error, whatever else the helper and the system
  do: a helper that never exits, never closes its pipes or floods them cannot hang the module.
\<close>

theorem helper_run_returns:
  assumes "clock_progresses (os_now os)" and "finitely_interrupted os"
  shows "\<exists>r tr'. run_inner os command timeout uid egid prevent tr = Some (r, tr')"
  using assms by (rule run_inner_returns)

section \<open>Reads do not block\<close>

lemma append_after:
  assumes "xs @ ys = pre @ x # post" and "x \<notin> set xs"
  obtains zs where "pre = xs @ zs" "ys = zs @ x # post"
proof -
  from assms show thesis
    using that by (auto simp: append_eq_append_conv2 append_eq_Cons_conv)
qed

text \<open>An event other than a read of a pipe.\<close>

definition no_read :: "event \<Rightarrow> bool" where
  "no_read ev \<longleftrightarrow> (\<forall>s. ev \<noteq> Proc (ReadPipe s))"

lemma emits_no_read:
  "emits no_read (or_reap os pid id (io_bind (set_nonblocking os Stdout) (\<lambda>_. set_nonblocking os Stderr)))"
  unfolding or_reap_def terminate_and_reap_def set_nonblocking_def Let_def
  by (intro emits_intros) (simp_all add: no_read_def)

text \<open>
  Among the events \<open>evs\<close> after \<open>tr\<close>, the flags of the pipe were read, and set with \<open>O_NONBLOCK\<close> added, both with success.
\<close>

definition made_nonblocking :: "proc_os \<Rightarrow> stream \<Rightarrow> trace \<Rightarrow> trace \<Rightarrow> bool" where
  "made_nonblocking os s tr evs \<longleftrightarrow> (\<exists>before old after. let flags = old OR O_NONBLOCK (os_platform os) in
     evs = before @ [Proc (GetPipeFlags s), Proc (SetPipeFlags s flags)] @ after \<and>
     os_pipe_getfl os s (tr @ before) = Inr old \<and>
     os_pipe_setfl os s flags (tr @ before @ [Proc (GetPipeFlags s)]) = Inr ())"

lemma made_nonblocking_append: "made_nonblocking os s tr evs \<Longrightarrow> made_nonblocking os s tr (evs @ evs')"
  unfolding made_nonblocking_def Let_def by fastforce

lemma made_nonblocking_later:
  assumes "made_nonblocking os s (tr @ evs) evs'"
  shows "made_nonblocking os s tr (evs @ evs')"
proof -
  from assms obtain before old after where "evs' = before @ [Proc (GetPipeFlags s),
      Proc (SetPipeFlags s (old OR O_NONBLOCK (os_platform os)))] @ after"
    "os_pipe_getfl os s ((tr @ evs) @ before) = Inr old"
    "os_pipe_setfl os s (old OR O_NONBLOCK (os_platform os)) ((tr @ evs) @ before @ [Proc (GetPipeFlags s)]) = Inr ()"
    unfolding made_nonblocking_def Let_def by blast
  then show ?thesis unfolding made_nonblocking_def Let_def
    by (intro exI [of _ "evs @ before"] exI [of _ old] exI [of _ after]) simp
qed

lemma set_nonblocking_run:
  assumes "set_nonblocking os s tr = Some (Inr x, tr')"
  obtains evs where "tr' = tr @ evs" "list_all no_read evs" "made_nonblocking os s tr evs"
proof -
  from assms obtain old where old: "os_pipe_getfl os s tr = Inr old"
    and set: "os_pipe_setfl os s (old OR O_NONBLOCK (os_platform os)) (tr @ [Proc (GetPipeFlags s)]) = Inr ()"
    and tr': "tr' = tr @ [Proc (GetPipeFlags s), Proc (SetPipeFlags s (old OR O_NONBLOCK (os_platform os)))]"
    by (auto simp: set_nonblocking_def io_bind_Inr Let_def result_simps)
  show thesis
  proof (rule that [OF tr'])
    show "made_nonblocking os s tr [Proc (GetPipeFlags s), Proc (SetPipeFlags s (old OR O_NONBLOCK (os_platform os)))]"
      unfolding made_nonblocking_def Let_def
      by (intro exI [of _ "[]"] exI [of _ old]) (simp add: old set)
  qed (simp add: no_read_def)
qed

lemma both_nonblocking:
  assumes "io_bind (set_nonblocking os Stdout) (\<lambda>_. set_nonblocking os Stderr) tr = Some (Inr x, tr @ evs)"
  shows "made_nonblocking os s tr evs"
proof -
  from assms obtain y tr1 where first: "set_nonblocking os Stdout tr = Some (Inr y, tr1)"
    and second: "set_nonblocking os Stderr tr1 = Some (Inr x, tr @ evs)" by (auto simp: io_bind_Inr)
  obtain evs1 where evs1: "tr1 = tr @ evs1" "made_nonblocking os Stdout tr evs1"
    using set_nonblocking_run [OF first] by blast
  obtain evs2 where evs2: "evs = evs1 @ evs2" "made_nonblocking os Stderr tr1 evs2"
    using set_nonblocking_run [OF second] evs1(1) by auto
  show ?thesis
    using evs1 evs2 by (cases s) (simp_all add: made_nonblocking_append made_nonblocking_later)
qed

lemma quiet_reads: "list_all no_read evs \<Longrightarrow> evs \<noteq> pre @ Proc (ReadPipe s) # post"
  by (auto simp: no_read_def)

lemma emits_spawn_quiet: "emits no_read (spawn os img (pre_exec os prevent clear gid uid))"
  unfolding spawn_def pre_exec_def child_call_def by (intro emits_intros) (simp_all add: no_read_def)

lemma run_inner_nonblocking:
  assumes "run_inner os command timeout uid egid prevent tr = Some (r, tr @ pre @ Proc (ReadPipe s) # post)"
  shows "made_nonblocking os s tr pre"
  using assms
proof (cases rule: run_inner_run)
  case (refused e)
  then show ?thesis by simp
next
  case (spawned exe args gid q tr1)
  let ?pipes = "\<lambda>pid. or_reap os pid id (io_bind (set_nonblocking os Stdout) (\<lambda>_. set_nonblocking os Stderr))"
  let ?loop = "\<lambda>pid. run_loop os pid exe timeout (os_now os tr + timeout) initial_run_state"
  let ?rest = "\<lambda>pid. io_bind (?pipes pid) (\<lambda>_. io_bind (?loop pid) (\<lambda>st. io_lift (finish_run exe st)))"
  have "emits no_read (spawn os (command_image exe args) (pre_exec os prevent (os_geteuid os = 0) gid uid))"
    by (rule emits_spawn_quiet)
  with spawned(4) obtain evs where tr1: "tr1 = (tr @ [ClockNow]) @ evs" and evs: "list_all no_read evs"
    by (blast elim: emitsD)
  show ?thesis
  proof (cases q)
    case (Inl e)
    then have "ClockNow # evs = pre @ Proc (ReadPipe s) # post" using spawned(5) tr1 by simp
    moreover have "list_all no_read (ClockNow # evs)" using evs by (simp add: no_read_def)
    ultimately show ?thesis using quiet_reads by blast
  next
    case (Inr pid)
    then have "?rest pid tr1 = Some (r, tr @ pre @ Proc (ReadPipe s) # post)" using spawned(5) by simp
    then obtain q2 tr2 where pipes: "?pipes pid tr1 = Some (q2, tr2)"
        and cont: "(case q2 of Inl e \<Rightarrow> io_throw e | Inr _ \<Rightarrow> io_bind (?loop pid) (\<lambda>st. io_lift (finish_run exe st))) tr2
          = Some (r, tr @ pre @ Proc (ReadPipe s) # post)"
      unfolding io_bind_match [of "?pipes pid"] io_match_Some by blast
    obtain evs2 where tr2: "tr2 = tr1 @ evs2" and evs2: "list_all no_read evs2"
      using emits_no_read pipes by (blast elim: emitsD)
    show ?thesis
    proof (cases q2)
      case (Inl e)
      then have "ClockNow # evs @ evs2 = pre @ Proc (ReadPipe s) # post" using cont tr1 tr2 by simp
      moreover have "list_all no_read (ClockNow # evs @ evs2)" using evs evs2 by (simp add: no_read_def)
      ultimately show ?thesis using quiet_reads by blast
    next
      case (Inr x)
      have "io_bind (set_nonblocking os Stdout) (\<lambda>_. set_nonblocking os Stderr) tr1 = Some (Inr x, tr2)"
        using pipes Inr by (simp add: or_reap_Inr)
      then have made: "made_nonblocking os s tr1 evs2"
        unfolding tr2 by (rule both_nonblocking)
      have "emits (\<lambda>_. True) (io_bind (?loop pid) (\<lambda>st. io_lift (finish_run exe st)))"
        by (rule emits_mono [where P = parent_event], intro emits_intros, simp)
      with cont Inr obtain evs3 where "tr @ pre @ Proc (ReadPipe s) # post = tr2 @ evs3"
        by (auto elim: emitsD)
      then have "((ClockNow # evs) @ evs2) @ evs3 = pre @ Proc (ReadPipe s) # post"
        using tr1 tr2 by simp
      moreover have "Proc (ReadPipe s) \<notin> set ((ClockNow # evs) @ evs2)"
        using evs evs2 by (auto simp: no_read_def list_all_iff)
      ultimately obtain zs where "pre = ((ClockNow # evs) @ evs2) @ zs" by (rule append_after)
      then show ?thesis
        using made_nonblocking_append [OF made_nonblocking_later [of os s tr "ClockNow # evs" evs2]] made tr1 by simp
    qed
  qed
qed

text \<open>
  C16: no read of the helper's output can block. Before any read of a pipe the flags of that pipe were read and set
  again with \<open>O_NONBLOCK\<close> added, and both calls succeeded.
\<close>

theorem pipe_reads_nonblocking:
  assumes "run_inner os command timeout uid egid prevent tr = Some (r, tr @ before @ Proc (ReadPipe s) # rest)"
  shows "made_nonblocking os s tr before"
  using assms by (rule run_inner_nonblocking)

section \<open>A concrete run\<close>

text \<open>A helper that writes one line, closes its pipes and exits with status zero.\<close>

definition example_proc :: proc_os where
  "example_proc = \<lparr>os_platform = Linux, os_nobody_gid = None, os_geteuid = 0, os_fork = (\<lambda>_. Inr 42),
     os_child_call = (\<lambda>_ _. None), os_pipe_getfl = (\<lambda>_ _. Inr 0),
     os_pipe_setfl = (\<lambda>_ _ _. Inr ()),
     os_read_pipe = (\<lambda>s tr. if s = Stdout \<and> last tr = Proc (SetPipeFlags Stderr 2048) then Inr ''key '' else Inr []),
     os_try_wait = (\<lambda>_. Inr (Some (Exited 0))), os_now = length, os_poll_pipes = (\<lambda>_. Inr 1)\<rparr>"

definition example_run_trace :: trace where
  "example_run_trace = [ClockNow, Proc Fork, Proc (Child (SetRlimitNproc 0 0)), Proc (Child SetGroupsEmpty),
     Proc (Child (SetGid 65534)), Proc (Child (SetUid 1000)),
     Proc (Child (Execve (ExecImage ''/k'' [''ann''] [(''LANG'', ''C''), (''LC_ALL'', ''C''), (''PATH'', ''/usr/bin:/bin'')] True))),
     Proc (GetPipeFlags Stdout), Proc (SetPipeFlags Stdout 2048), Proc (GetPipeFlags Stderr),
     Proc (SetPipeFlags Stderr 2048), Proc (ReadPipe Stdout), Proc (ReadPipe Stdout),
     Proc (ReadPipe Stderr), Proc TryWait, ClockNow, ClockNow, Proc (PollPipes False False 1),
     Proc (ReadPipe Stdout), Proc (ReadPipe Stderr)]"

lemma example_drain_first:
  "last tr = Proc (SetPipeFlags Stderr 2048) \<Longrightarrow> drain_output example_proc Stdout [] False tr =
     Some (Inr (''key '', True), tr @ [Proc (ReadPipe Stdout), Proc (ReadPipe Stdout)])"
  by (simp add: drain_output.simps io_match_def read_chunk_run example_proc_def MAX_OUTPUT_BYTES_def io_return_def)

lemma example_drain:
  "last tr \<noteq> Proc (SetPipeFlags Stderr 2048) \<Longrightarrow> drain_output example_proc s out eof tr =
     Some (Inr (out, True), tr @ [Proc (ReadPipe s)])"
  by (simp add: drain_output.simps io_match_def read_chunk_run example_proc_def io_return_def)

lemma example_wait:
  "length tr = 16 \<Longrightarrow> wait_for_output example_proc True True 1000 tr =
     Some (Inr (), tr @ [ClockNow, Proc (PollPipes False False 1)])"
  by (simp add: wait_for_output.simps now_def io_step example_proc_def poll_millis_def nanos_per_milli_def io_return_def)

lemma example_loop:
  assumes "length tr = 11" and "last tr = Proc (SetPipeFlags Stderr 2048)"
  shows "run_loop example_proc pid command 1000 1000 initial_run_state tr =
    Some (Inr \<lparr>stdout_bytes = ''key '', stderr_bytes = [], stdout_eof = True, stderr_eof = True,
        child_status = Some (Exited 0)\<rparr>,
      tr @ [Proc (ReadPipe Stdout), Proc (ReadPipe Stdout), Proc (ReadPipe Stderr), Proc TryWait, ClockNow, ClockNow,
        Proc (PollPipes False False 1), Proc (ReadPipe Stdout), Proc (ReadPipe Stderr)])"
proof -
  have sys: "os_try_wait example_proc t = Inr (Some (Exited 0))" "os_now example_proc t = length t" for t
    by (simp_all add: example_proc_def)
  have first: "run_pass example_proc pid command 1000 1000 initial_run_state tr =
    Some (Inr (\<lparr>stdout_bytes = ''key '', stderr_bytes = [], stdout_eof = True, stderr_eof = True,
        child_status = Some (Exited 0)\<rparr>, False),
      tr @ [Proc (ReadPipe Stdout), Proc (ReadPipe Stdout), Proc (ReadPipe Stderr), Proc TryWait, ClockNow, ClockNow,
        Proc (PollPipes False False 1)])"
    using assms by (simp add: run_pass_def drain_both_def collect_and_wait_def or_reap_run initial_run_state_def
      example_drain_first example_drain example_wait now_def io_step io_bind_app
      io_bind_app io_bind_app
      io_return_def io_throw_def io_ask_def io_sys_def io_call_def sys)
  have second: "run_pass example_proc pid command 1000 1000 \<lparr>stdout_bytes = ''key '', stderr_bytes = [],
      stdout_eof = True, stderr_eof = True, child_status = Some (Exited 0)\<rparr> t =
    Some (Inr (\<lparr>stdout_bytes = ''key '', stderr_bytes = [], stdout_eof = True, stderr_eof = True,
        child_status = Some (Exited 0)\<rparr>, True), t @ [Proc (ReadPipe Stdout), Proc (ReadPipe Stderr)])"
    if "last t \<noteq> Proc (SetPipeFlags Stderr 2048)" for t
    using that by (simp add: run_pass_def drain_both_def or_reap_run example_drain
      io_bind_app io_bind_app io_return_def io_throw_def)
  have "run_loop example_proc pid command 1000 1000 \<lparr>stdout_bytes = ''key '', stderr_bytes = [],
      stdout_eof = True, stderr_eof = True, child_status = Some (Exited 0)\<rparr> t =
    Some (Inr \<lparr>stdout_bytes = ''key '', stderr_bytes = [], stdout_eof = True, stderr_eof = True,
        child_status = Some (Exited 0)\<rparr>, t @ [Proc (ReadPipe Stdout), Proc (ReadPipe Stderr)])"
    if "last t \<noteq> Proc (SetPipeFlags Stderr 2048)" for t
    by (subst run_loop.simps) (simp add: io_bind_app second [OF that] io_return_def)
  then show ?thesis
    by (subst run_loop.simps) (simp add: io_bind_app first)
qed

lemma example_run:
  "run_inner example_proc [''/k'', ''ann''] 1000 1000 None True [] = Some (Inr ''key'', example_run_trace)"
proof -
  have "utf8_valid ''key ''" by (rule ascii_utf8_valid) (simp add: ascii_def)
  moreover have "trim_end ''key '' = ''key''"
    by (rule trim_end_ascii [where c = "CHR '' ''"]) (simp_all add: ascii_def is_whitespace_def)
  moreover note texts = calculation
  have sys: "os_fork example_proc t = Inr 42" "os_child_call example_proc c t = None" "os_platform example_proc = Linux"
    "os_pipe_getfl example_proc s t = Inr 0" "os_pipe_setfl example_proc s fl t = Inr ()" "os_geteuid example_proc = 0" "os_now example_proc t = length t" for t c s fl
    by (simp_all add: example_proc_def)
  show ?thesis
    by (simp add: run_inner_def is_absolute_def default_low_privilege_gid_def sys now_def io_step Let_def
      spawn_def pre_exec_def child_call_def command_image_def set_nonblocking_def io_bind_app io_match_app
      or_reap_run example_loop io_return_def io_throw_def io_ask_def io_sys_def io_call_def io_lift_def
      finish_run_def from_utf8_def texts example_run_trace_def)
qed

lemma helper_drops_privileges_witness:
  "all_succeed example_proc [SetRlimitNproc 0 0, SetGroupsEmpty, SetGid 65534, SetUid 1000] [ClockNow, Proc Fork]"
proof -
  have "run_inner example_proc [''/k'', ''ann''] 1000 1000 None True [] = Some (Inr ''key'', [] @ example_run_trace)"
    using example_run by simp
  from helper_drops_privileges [OF this, of "ExecImage ''/k'' [''ann'']
      [(''LANG'', ''C''), (''LC_ALL'', ''C''), (''PATH'', ''/usr/bin:/bin'')] True"]
  show ?thesis
    by (auto simp: example_run_trace_def privilege_drop_def example_proc_def default_low_privilege_gid_def)
qed

lemma pipe_reads_nonblocking_witness:
  "made_nonblocking example_proc Stdout [] (take 11 example_run_trace)"
proof -
  have "run_inner example_proc [''/k'', ''ann''] 1000 1000 None True [] =
    Some (Inr ''key'', [] @ take 11 example_run_trace @ Proc (ReadPipe Stdout) # drop 12 example_run_trace)"
    unfolding example_run by (simp add: example_run_trace_def)
  then show ?thesis by (rule pipe_reads_nonblocking)
qed

lemma helper_always_reaped_witness:
  "Proc WaitChild \<in> set example_run_trace \<or> (\<exists>status. collected example_proc [] example_run_trace status)"
  by (rule helper_always_reaped [where tr = "[]", simplified, OF example_run])
     (simp_all add: example_run_trace_def example_proc_def)

lemma helper_output_witness:
  "trim_end (pipe_bytes example_proc Stdout [] example_run_trace) = ''key'' \<and>
   collected example_proc [] example_run_trace (Exited 0) \<and>
   read_to_end example_proc Stdout [] example_run_trace \<and> read_to_end example_proc Stderr [] example_run_trace \<and>
   delivers example_proc Stdout [] example_run_trace ''key '' \<and> ''key'' = trim_end ''key ''"
proof -
  have "delivers example_proc Stdout [] example_run_trace ''key ''"
    by (simp add: example_run_trace_def example_proc_def)
  moreover note helper_output [where tr = "[]", simplified, OF example_run]
  ultimately show ?thesis by (metis (no_types))
qed

lemma helper_run_returns_witness:
  "\<exists>r tr'. run_inner example_proc [''/k''] 5 0 None False [] = Some (r, tr')"
proof (rule helper_run_returns)
  show "clock_progresses (os_now example_proc)"
    by (auto simp: clock_progresses_def example_proc_def)
  show "finitely_interrupted example_proc"
    by (simp add: finitely_interrupted_def example_proc_def)
qed

end
