(* ===== verification/SshKey.thy ===== *)
theory SshKey imports System begin

text \<open>
  The interface of the crates \<open>ssh-key\<close> and \<open>ssh-agent-client-rs\<close>, which are not part of the
  repository: a parameter of the model. The type \<open>'k\<close> is the crate's \<open>KeyData\<close>, \<open>'c\<close> its
  \<open>Certificate\<close>; what the sources call on them are the fields of \<open>ssh_key\<close>. Of a \<open>PublicKey\<close> the
  sources use the key data only. The agent answers by arbitrary functions of the trace.

  Then \<open>agent.rs\<close>: the trait \<open>SSHAgent\<close> and its implementation for \<open>Client\<close>.
\<close>

datatype ecdsa_curve = NistP256 | NistP384 | NistP521

datatype hash_alg = Sha256 | Sha512 | OtherHash

datatype algorithm = Ecdsa ecdsa_curve | Ed25519 | Rsa "hash_alg option" | SkEcdsaSha2NistP256
  | SkEd25519 | OtherAlgorithm string

record signature =
  sig_algorithm :: algorithm
  sig_bytes :: "8 word list"

text \<open>An entry of an \<open>authorized_keys\<close> file: the key and its options.\<close>

record 'k auth_entry =
  entry_key :: 'k
  entry_opts :: "string list"

datatype ('k, 'c) identity = PublicKey 'k | Certificate 'c

record ('k, 'c) ssh_key =
  authorized_keys :: "string \<Rightarrow> (string + 'k auth_entry) list"
  from_openssh :: "string \<Rightarrow> error + 'k"
  is_sk_ed25519 :: "'k \<Rightarrow> bool"
  is_sk_ecdsa_p256 :: "'k \<Rightarrow> bool"
  fingerprint_sha256 :: "'k \<Rightarrow> string"
  cert_signature_key :: "'c \<Rightarrow> 'k"
  cert_public_key :: "'c \<Rightarrow> 'k"
  cert_is_user :: "'c \<Rightarrow> bool"
  cert_valid_principals :: "'c \<Rightarrow> string list"
  cert_critical_options :: "'c \<Rightarrow> (string \<times> string) list"
  cert_validate_at :: "'c \<Rightarrow> nat \<Rightarrow> string list \<Rightarrow> bool"

text \<open>
  The client of \<open>ssh-agent-client-rs\<close>: three operations on an open connection. \<open>client_connect\<close> and
  \<open>client_with_read_write\<close> are its constructors: from a path, which may wait for ever and is then \<open>None\<close>, and
  over a given stream, which it may use as it likes.
\<close>

record ('k, 'c) ssh_client =
  client_list_all_identities :: "('k, 'c) identity list io"
  client_sign :: "('k, 'c) identity \<Rightarrow> 8 word list \<Rightarrow> signature io"
  client_sign_with_ref :: "('k, 'c) identity \<Rightarrow> 8 word list \<Rightarrow> signature io"

record read_write =
  rw_read :: "nat \<Rightarrow> string io"
  rw_write :: "string \<Rightarrow> nat io"
  rw_flush :: "unit io"

record ('k, 'c) client_lib =
  client_connect :: "string \<Rightarrow> trace \<Rightarrow> (sac_error + ('k, 'c) ssh_client) option"
  client_with_read_write :: "read_write \<Rightarrow> ('k, 'c) ssh_client"

text \<open>
  \<open>agent.rs\<close>: the trait has a default for \<open>sign_with_ref\<close>, which the implementation for \<open>Client\<close>
  overrides with the client's own method. A request is marked in the trace.
\<close>

record ('k, 'c) ssh_agent =
  agent_list_identities :: "('k, 'c) identity list io"
  agent_sign :: "('k, 'c) identity \<Rightarrow> 8 word list \<Rightarrow> signature io"
  agent_sign_with_ref :: "('k, 'c) identity \<Rightarrow> 8 word list \<Rightarrow> signature io"

definition default_sign_with_ref ::
    "(('k, 'c) identity \<Rightarrow> 8 word list \<Rightarrow> signature io) \<Rightarrow> ('k, 'c) identity \<Rightarrow> 8 word list \<Rightarrow> signature io" where
  "default_sign_with_ref sign key data = sign key data"

definition client_agent :: "('k, 'c) ssh_client \<Rightarrow> ('k, 'c) ssh_agent" where
  "client_agent client = \<lparr>
     agent_list_identities = io_bind (io_emit (Agent ListIdentities)) (\<lambda>_. client_list_all_identities client),
     agent_sign = (\<lambda>key data. io_bind (io_emit (Agent (SignRequest data))) (\<lambda>_. client_sign client key data)),
     agent_sign_with_ref = (\<lambda>key data.
       io_bind (io_emit (Agent (SignRequest data))) (\<lambda>_. client_sign_with_ref client key data)) \<rparr>"

lemma client_agent_simps [simp]:
  "agent_list_identities (client_agent client) tr = client_list_all_identities client (tr @ [Agent ListIdentities])"
  "agent_sign_with_ref (client_agent client) key data tr =
     client_sign_with_ref client key data (tr @ [Agent (SignRequest data)])"
  by (simp_all add: client_agent_def io_step)

end
