(* ===== verification/KeyPolicy.thy ===== *)
theory KeyPolicy imports Trust Cmd SshKey begin

text \<open>
  The rest of \<open>filter.rs\<close>: reading the policy (files of trusted keys, and the output of a helper),
  in the legacy and the strict mode, and the test whether an identity is trusted. A \<open>HashSet\<close> is a
  set. What these functions log is in the theory \<open>Journal\<close>.
\<close>

datatype policy_mode = Legacy | Strict

datatype 'k authorized = Key 'k | CAKey 'k

record 'k identity_filter =
  flt_keys :: "'k set"
  flt_ca_keys :: "'k set"
  flt_strict :: bool

definition MAX_POLICY_ENTRIES :: nat where "MAX_POLICY_ENTRIES = 1024"

definition MAX_DURATION :: nat where "MAX_DURATION = 10 * nanos_per_sec"

section \<open>Parsing a policy\<close>

definition cert_authority :: string where "cert_authority = ''cert-authority''"

text \<open>One item of the iterator in the legacy mode: a line that does not parse is skipped.\<close>

definition legacy_entry :: "bool \<Rightarrow> string + 'k auth_entry \<Rightarrow> 'k authorized option" where
  "legacy_entry ca_keys ak = (case ak of
     Inr entry \<Rightarrow>
       if \<not> ca_keys \<and> \<not> list_ex (\<lambda>opt. opt = cert_authority) (entry_opts entry)
       then Some (Key (entry_key entry))
       else Some (CAKey (entry_key entry))
   | Inl _ \<Rightarrow> None)"

text \<open>The loop of \<open>from_str_strict\<close> over the enumerated entries.\<close>

fun strict_entries :: "string \<Rightarrow> bool \<Rightarrow> nat \<Rightarrow> 'k authorized list \<Rightarrow> (string + 'k auth_entry) list
    \<Rightarrow> 'k authorized list result" where
  "strict_entries what ca_keys index authorized [] = Inr authorized"
| "strict_entries what ca_keys index authorized (Inl error # es) =
     Inl (Anyhow ''Failed to parse line {what}:{index}: {error}'' [Str what, Num (int index), Str error])"
| "strict_entries what ca_keys index authorized (Inr entry # es) =
     (let options = entry_opts entry;
          is_ca = (ca_keys \<or> options = [cert_authority]) in
      if \<not> is_ca \<and> options \<noteq> [] \<or> is_ca \<and> options \<noteq> [] \<and> options \<noteq> [cert_authority]
      then Inl (Anyhow ''Unsupported authorized_keys options at {what}:{index}'' [Str what, Num (int index)])
      else if length authorized \<ge> MAX_POLICY_ENTRIES
      then Inl (Anyhow ''Trusted-key policy exceeds {MAX_POLICY_ENTRIES} entries'' [Num (int MAX_POLICY_ENTRIES)])
      else strict_entries what ca_keys (index + 1)
             (authorized @ [if is_ca then CAKey (entry_key entry) else Key (entry_key entry)]) es)"

definition from_str_strict :: "('k, 'c) ssh_key \<Rightarrow> string \<Rightarrow> string \<Rightarrow> bool \<Rightarrow> 'k authorized list result" where
  "from_str_strict lib buf what ca_keys = strict_entries what ca_keys 0 [] (authorized_keys lib buf)"

definition parse_policy :: "('k, 'c) ssh_key \<Rightarrow> string \<Rightarrow> string \<Rightarrow> bool \<Rightarrow> policy_mode \<Rightarrow> 'k authorized list result" where
  "parse_policy lib buf what ca_keys mode =
     (if mode = Strict then from_str_strict lib buf what ca_keys
      else Inr (List.map_filter (legacy_entry ca_keys) (authorized_keys lib buf)))"

section \<open>Reading a policy\<close>

definition from_file :: "('k, 'c) ssh_key \<Rightarrow> fs_os \<Rightarrow> string \<Rightarrow> bool \<Rightarrow> policy_mode \<Rightarrow> 'k authorized list io" where
  "from_file lib fs filename ca_keys mode =
     io_bind (case mode of
         Legacy \<Rightarrow> read_to_string fs filename
       | Strict \<Rightarrow> read_strict_file fs filename 0) (\<lambda>contents.
     io_lift (and_then (if utf8_valid filename then Inr filename else Inl (Anyhow ''invalid filename'' []))
       (\<lambda>name. parse_policy lib contents name ca_keys mode)))"

definition from_command :: "('k, 'c) ssh_key \<Rightarrow> fs_os \<Rightarrow> proc_os \<Rightarrow> string \<Rightarrow> uid \<Rightarrow> string \<Rightarrow> policy_mode
    \<Rightarrow> 'k authorized list io" where
  "from_command lib fs proc command uid calling_user mode =
     io_bind (if mode = Strict then
         io_bind (validate_trust_path fs command 0) (\<lambda>canonical.
         if utf8_valid canonical then io_return canonical
         else io_throw (Anyhow ''Strict helper path is not valid UTF-8'' []))
       else io_return command) (\<lambda>command.
     io_bind (if mode = Strict
         then run_without_descendants proc [command, calling_user] MAX_DURATION uid None
         else cmd_run proc [command, calling_user] MAX_DURATION uid None) (\<lambda>buf.
     io_lift (parse_policy lib buf (command @ '':(output):'') False mode)))"

section \<open>\<open>IdentityFilter\<close>\<close>

text \<open>The loop of \<open>IdentityFilter::from\<close>.\<close>

fun insert_authorized :: "'k authorized list \<Rightarrow> 'k set \<Rightarrow> 'k set \<Rightarrow> 'k set \<times> 'k set" where
  "insert_authorized [] keys ca_keys = (keys, ca_keys)"
| "insert_authorized (Key k # as) keys ca_keys = insert_authorized as (insert k keys) ca_keys"
| "insert_authorized (CAKey k # as) keys ca_keys = insert_authorized as keys (insert k ca_keys)"

definition filter_from :: "'k authorized list \<Rightarrow> bool \<Rightarrow> 'k identity_filter" where
  "filter_from authorized strict =
     (let (keys, ca_keys) = insert_authorized authorized {} {} in
      \<lparr>flt_keys = keys, flt_ca_keys = ca_keys, flt_strict = strict\<rparr>)"

text \<open>An error that is an \<open>io::Error\<close> of kind \<open>NotFound\<close>.\<close>

definition is_not_found :: "error \<Rightarrow> bool" where
  "is_not_found e = (case downcast_io e of None \<Rightarrow> False | Some i \<Rightarrow> io_kind_of i = KNotFound)"

definition new_with_mode :: "('k, 'c) ssh_key \<Rightarrow> host \<Rightarrow> fs_os \<Rightarrow> proc_os \<Rightarrow> string \<Rightarrow> string option
    \<Rightarrow> string option \<Rightarrow> string option \<Rightarrow> string \<Rightarrow> policy_mode \<Rightarrow> 'k identity_filter io" where
  "new_with_mode lib hst fs proc authorized_keys_file ca_keys_file authorized_keys_command
       authorized_keys_command_user calling_user mode =
     io_bind (io_match (from_file lib fs authorized_keys_file False mode) (\<lambda>r. case r of
         Inr keys \<Rightarrow> io_return keys
       | Inl error \<Rightarrow> if mode = Legacy \<and> is_not_found error then io_return [] else io_throw error)) (\<lambda>identities.
     io_bind (case ca_keys_file of
         None \<Rightarrow> io_return identities
       | Some f \<Rightarrow> io_bind (from_file lib fs f True mode) (\<lambda>keys. io_return (identities @ keys))) (\<lambda>identities.
     io_bind (case authorized_keys_command of
         None \<Rightarrow> io_return identities
       | Some cmd \<Rightarrow>
           let user = (case authorized_keys_command_user of Some u \<Rightarrow> u | None \<Rightarrow> calling_user) in
           io_bind (io_lift (get_uid hst user)) (\<lambda>uid.
           io_bind (from_command lib fs proc cmd uid calling_user mode) (\<lambda>keys.
           io_return (identities @ keys)))) (\<lambda>identities.
     io_return (filter_from identities (mode = Strict)))))"

definition filter_new :: "('k, 'c) ssh_key \<Rightarrow> host \<Rightarrow> fs_os \<Rightarrow> proc_os \<Rightarrow> string \<Rightarrow> string option
    \<Rightarrow> string option \<Rightarrow> string option \<Rightarrow> string \<Rightarrow> 'k identity_filter io" where
  "filter_new lib hst fs proc authorized_keys_file ca_keys_file authorized_keys_command
       authorized_keys_command_user calling_user =
     new_with_mode lib hst fs proc authorized_keys_file ca_keys_file authorized_keys_command
       authorized_keys_command_user calling_user Legacy"

definition filter_new_strict :: "('k, 'c) ssh_key \<Rightarrow> host \<Rightarrow> fs_os \<Rightarrow> proc_os \<Rightarrow> string \<Rightarrow> string option
    \<Rightarrow> string option \<Rightarrow> string option \<Rightarrow> string \<Rightarrow> 'k identity_filter io" where
  "filter_new_strict lib hst fs proc authorized_keys_file ca_keys_file authorized_keys_command
       authorized_keys_command_user calling_user =
     new_with_mode lib hst fs proc authorized_keys_file ca_keys_file authorized_keys_command
       authorized_keys_command_user calling_user Strict"

definition from_authorized_file :: "('k, 'c) ssh_key \<Rightarrow> host \<Rightarrow> fs_os \<Rightarrow> proc_os \<Rightarrow> string \<Rightarrow> 'k identity_filter io" where
  "from_authorized_file lib hst fs proc authorized_keys_file =
     filter_new lib hst fs proc authorized_keys_file None None None []"

fun identity_trusted :: "('k, 'c) ssh_key \<Rightarrow> 'k identity_filter \<Rightarrow> ('k, 'c) identity \<Rightarrow> bool" where
  "identity_trusted lib flt (PublicKey key) = (key \<in> flt_keys flt)"
| "identity_trusted lib flt (Certificate cert) = (cert_signature_key lib cert \<in> flt_ca_keys flt)"

section \<open>What a policy text authorizes\<close>

text \<open>The meaning of one entry: a certificate authority, or a plain key.\<close>

definition classify :: "bool \<Rightarrow> 'k auth_entry \<Rightarrow> 'k authorized" where
  "classify ca_keys entry =
     (if ca_keys \<or> cert_authority \<in> set (entry_opts entry) then CAKey (entry_key entry) else Key (entry_key entry))"

lemma classify_Key [simp]: "Key k = classify ca e \<longleftrightarrow> \<not> ca \<and> cert_authority \<notin> set (entry_opts e) \<and> k = entry_key e"
  by (auto simp: classify_def)

lemma classify_CAKey [simp]: "CAKey k = classify ca e \<longleftrightarrow> (ca \<or> cert_authority \<in> set (entry_opts e)) \<and> k = entry_key e"
  by (auto simp: classify_def)

lemma legacy_entry_classify: "legacy_entry ca ak = (case ak of Inl _ \<Rightarrow> None | Inr e \<Rightarrow> Some (classify ca e))"
  by (auto simp: legacy_entry_def classify_def list_ex_iff split: sum.split)

definition strict_options :: "string list \<Rightarrow> bool" where
  "strict_options opts \<longleftrightarrow> opts = [] \<or> opts = [cert_authority]"

lemma strict_entries_ok:
  "strict_entries what ca n as es = Inr bs \<longleftrightarrow>
     (\<exists>entries. es = map Inr entries \<and> list_all (\<lambda>e. strict_options (entry_opts e)) entries \<and>
        (es = [] \<or> length as + length es \<le> MAX_POLICY_ENTRIES) \<and> bs = as @ map (classify ca) entries)"
proof (induction es arbitrary: n as)
  case Nil
  then show ?case by auto
next
  case (Cons e es)
  show ?case
  proof (cases e)
    case (Inl d)
    then show ?thesis by (auto simp: Cons_eq_map_conv)
  next
    case (Inr entry)
    let ?a = "if ca \<or> entry_opts entry = [cert_authority] then CAKey (entry_key entry) else Key (entry_key entry)"
    have opts: "\<not> (\<not> (ca \<or> entry_opts entry = [cert_authority]) \<and> entry_opts entry \<noteq> [] \<or>
        (ca \<or> entry_opts entry = [cert_authority]) \<and> entry_opts entry \<noteq> [] \<and> entry_opts entry \<noteq> [cert_authority]) \<longleftrightarrow>
        strict_options (entry_opts entry)"
      by (auto simp: strict_options_def)
    have kind: "?a = classify ca entry" if "strict_options (entry_opts entry)"
      using that by (auto simp: strict_options_def classify_def)
    have step: "strict_entries what ca n as (e # es) = Inr bs \<longleftrightarrow>
        strict_options (entry_opts entry) \<and> length as < MAX_POLICY_ENTRIES \<and>
        strict_entries what ca (n + 1) (as @ [?a]) es = Inr bs"
      unfolding Inr strict_entries.simps Let_def opts [symmetric] by (simp add: not_le)
    have "strict_entries what ca n as (e # es) = Inr bs \<longleftrightarrow>
        strict_options (entry_opts entry) \<and> length as < MAX_POLICY_ENTRIES \<and>
        strict_entries what ca (n + 1) (as @ [classify ca entry]) es = Inr bs"
      unfolding step using kind by (cases "strict_options (entry_opts entry)") simp_all
    then show ?thesis
      unfolding Cons.IH by (auto simp: Inr Cons_eq_map_conv)
  qed
qed

text \<open>
  The contract of a policy parser: what it authorizes is in the text, with the class the text gives
  it. Both modes keep it; the clients below use nothing else.
\<close>

locale policy_parser =
  fixes parse :: "bool \<Rightarrow> (string + 'k auth_entry) list \<Rightarrow> 'k authorized list result"
  assumes sound: "parse ca es = Inr as \<Longrightarrow> a \<in> set as \<Longrightarrow> \<exists>entry. Inr entry \<in> set es \<and> a = classify ca entry"
begin

lemma plain_key: "parse ca es = Inr as \<Longrightarrow> Key k \<in> set as \<Longrightarrow>
    \<not> ca \<and> (\<exists>entry. Inr entry \<in> set es \<and> entry_key entry = k \<and> cert_authority \<notin> set (entry_opts entry))"
  using sound by fastforce

lemma authority: "parse ca es = Inr as \<Longrightarrow> CAKey k \<in> set as \<Longrightarrow>
    \<exists>entry. Inr entry \<in> set es \<and> entry_key entry = k \<and> (ca \<or> cert_authority \<in> set (entry_opts entry))"
  using sound by fastforce

lemma ca_file_has_no_plain_key: "parse True es = Inr as \<Longrightarrow> Key k \<notin> set as"
  using plain_key by blast

lemma empty_policy: "parse ca [] = Inr as \<Longrightarrow> as = []"
  using sound [of ca "[]" as] by (cases as) auto

end

interpretation legacy: policy_parser "\<lambda>ca es. Inr (List.map_filter (legacy_entry ca) es)"
proof
  fix ca :: bool and es :: "(string + 'a auth_entry) list" and as a
  assume "(Inr (List.map_filter (legacy_entry ca) es) :: 'a authorized list result) = Inr as" and "a \<in> set as"
  then show "\<exists>entry. Inr entry \<in> set es \<and> a = classify ca entry"
    by (induction es arbitrary: as) (fastforce simp: map_filter_simps legacy_entry_classify split: sum.splits)+
qed

interpretation strict: policy_parser "\<lambda>ca es. strict_entries what ca 0 [] es" for what
proof
  fix ca :: bool and es :: "(string + 'a auth_entry) list" and as a
  assume "strict_entries what ca 0 [] es = Inr as" and "a \<in> set as"
  then obtain entries where "es = map Inr entries" and "a \<in> classify ca ` set entries"
    by (auto simp: strict_entries_ok)
  then show "\<exists>entry. Inr entry \<in> set es \<and> a = classify ca entry"
    by (auto intro: imageI)
qed

text \<open>So \<open>parse_policy\<close> is sound in either mode.\<close>

interpretation policy: policy_parser "\<lambda>ca es. if mode = Strict then strict_entries what ca 0 [] es
    else Inr (List.map_filter (legacy_entry ca) es)" for what mode
proof
  fix ca :: bool and es :: "(string + 'a auth_entry) list" and as a
  assume "(if mode = Strict then strict_entries what ca 0 [] es
    else Inr (List.map_filter (legacy_entry ca) es)) = Inr as" and "a \<in> set as"
  then show "\<exists>entry. Inr entry \<in> set es \<and> a = classify ca entry"
    by (cases "mode = Strict") (simp_all add: strict.sound legacy.sound)
qed

lemma parse_policy_entries: "parse_policy lib buf what ca mode =
    (if mode = Strict then strict_entries what ca 0 [] (authorized_keys lib buf)
     else Inr (List.map_filter (legacy_entry ca) (authorized_keys lib buf)))"
  by (simp add: parse_policy_def from_str_strict_def)

lemma insert_authorized: "insert_authorized as keys cas = (keys \<union> {k. Key k \<in> set as}, cas \<union> {k. CAKey k \<in> set as})"
  by (induction as keys cas rule: insert_authorized.induct) auto

lemma filter_from_simps [simp]:
  "flt_keys (filter_from as strict) = {k. Key k \<in> set as}"
  "flt_ca_keys (filter_from as strict) = {k. CAKey k \<in> set as}"
  "flt_strict (filter_from as strict) = strict"
  by (simp_all add: filter_from_def insert_authorized)

section \<open>What a parsed policy contains\<close>

lemma parse_policy_sound:
  assumes "parse_policy lib buf what ca mode = Inr as" and "a \<in> set as"
  obtains entry where "Inr entry \<in> set (authorized_keys lib buf)" and "a = classify ca entry"
    and "mode = Strict \<Longrightarrow> strict_options (entry_opts entry)"
proof (cases mode)
  case Legacy
  then obtain entry where "Inr entry \<in> set (authorized_keys lib buf)" "a = classify ca entry"
    using assms policy.sound unfolding parse_policy_entries by blast
  with that Legacy show thesis by auto
next
  case Strict
  then obtain entries where "authorized_keys lib buf = map Inr entries"
      "list_all (\<lambda>e. strict_options (entry_opts e)) entries" "as = map (classify ca) entries"
    using assms(1) by (auto simp: parse_policy_entries strict_entries_ok)
  with assms(2) that show thesis by (auto simp: list_all_iff)
qed

text \<open>
  C25: a strict policy text is accepted exactly when every line parses, has no option or only
  \<open>cert-authority\<close>, and there are at most 1024 of them; the result is one authorization per line.
\<close>

theorem strict_policy_exact:
  "from_str_strict lib buf what ca_keys = Inr authorized \<longleftrightarrow>
     (\<exists>entries. authorized_keys lib buf = map Inr entries \<and>
        list_all (\<lambda>e. entry_opts e = [] \<or> entry_opts e = [''cert-authority'']) entries \<and>
        length entries \<le> 1024 \<and>
        authorized = map (\<lambda>e. if ca_keys \<or> ''cert-authority'' \<in> set (entry_opts e)
          then CAKey (entry_key e) else Key (entry_key e)) entries)"
  unfolding from_str_strict_def strict_entries_ok
  by (auto simp: strict_options_def classify_def cert_authority_def MAX_POLICY_ENTRIES_def fun_eq_iff)

text \<open>
  A key file that cannot be read. In legacy mode a missing file is an empty policy, so nobody is
  trusted; every other error, and in strict mode every error, is returned.
\<close>

lemma unreadable_key_file:
  assumes "from_file lib fs file_name False mode tr = Some (Inl e, tr')"
  shows "new_with_mode lib hst fs proc file_name None None cmd_user caller mode tr =
    Some (if mode = Legacy \<and> is_not_found e
          then Inr \<lparr>flt_keys = {}, flt_ca_keys = {}, flt_strict = False\<rparr> else Inl e, tr')"
  using assms by (simp add: new_with_mode_def io_bind_app io_match_app io_return_def io_throw_def filter_from_def)

text \<open>
  A library of keys that are numbers, for the concrete instances: the text \<open>key\<close> has one line, the key 1.
\<close>

definition example_keys :: "string \<Rightarrow> (string + nat auth_entry) list" where
  "example_keys buf = (if buf = ''key'' then [Inr \<lparr>entry_key = 1, entry_opts = []\<rparr>] else [])"

definition example_lib :: "(nat, nat) ssh_key" where
  "example_lib = \<lparr>authorized_keys = example_keys, from_openssh = (\<lambda>s. if s = ''one'' then Inr 1 else Inl ParseIntError),
     is_sk_ed25519 = (\<lambda>_. False), is_sk_ecdsa_p256 = (\<lambda>_. False), fingerprint_sha256 = show_nat,
     cert_signature_key = id, cert_public_key = Suc, cert_is_user = (\<lambda>_. True), cert_valid_principals = (\<lambda>_. [''ann'']),
     cert_critical_options = (\<lambda>_. []), cert_validate_at = (\<lambda>_ _ _. True)\<rparr>"

lemma example_filter:
  "new_with_mode example_lib example_host (example_fs ''key'') example_proc ''/k'' None None None ''ann'' Strict [] =
     Some (Inr \<lparr>flt_keys = {1}, flt_ca_keys = {}, flt_strict = True\<rparr>,
       [Fs (Lstat ''/''), Fs (Lstat ''/k''), Fs (Canonicalize ''/k''), Fs (Lstat ''/''), Fs (Lstat ''/k''),
        Fs (Stat ''/k''), Fs (Stat ''/k''), Fs (OpenFile ''/k''), Fs (Fstat 3), Fs (ReadAll 3)])"
proof -
  have "utf8_valid ''/k''" by (rule ascii_utf8_valid) (simp add: ascii_def)
  then show ?thesis
    by (simp add: new_with_mode_def from_file_def io_bind_app io_match_app example_read io_lift_def io_return_def
      parse_policy_def from_str_strict_def example_lib_def example_keys_def MAX_POLICY_ENTRIES_def filter_from_def)
qed

lemma unreadable_key_file_witness:
  "\<exists>tr'. new_with_mode example_lib example_host (example_fs [CHR 0xFF]) example_proc ''/k'' None None None ''ann'' Legacy [] =
     Some (Inl (Io (IoNew KInvalidData ''stream did not contain valid UTF-8'')), tr')"
proof -
  have "\<not> utf8_valid [CHR 0xFF]" by code_simp
  then have "from_file example_lib (example_fs [CHR 0xFF]) ''/k'' False Legacy [] =
      Some (Inl (Io (IoNew KInvalidData ''stream did not contain valid UTF-8'')), [Fs (ReadToString ''/k'')])"
    by (simp add: from_file_def read_to_string_def io_bind_app io_sys_def io_call_def example_fs_def io_throw_def)
  from unreadable_key_file [OF this] show ?thesis
    by (simp add: is_not_found_def)
qed

section \<open>The meaning of a key file\<close>

lemma parse_policy_complete:
  assumes "parse_policy lib buf what ca mode = Inr as" and "Inr entry \<in> set (authorized_keys lib buf)"
  shows "classify ca entry \<in> set as"
proof (cases mode)
  case Legacy
  then have "as = List.map_filter (legacy_entry ca) (authorized_keys lib buf)"
    using assms(1) by (simp add: parse_policy_entries)
  then show ?thesis
    using assms(2) by (force simp: map_filter_def legacy_entry_classify image_iff)
next
  case Strict
  with assms show ?thesis by (auto simp: parse_policy_entries strict_entries_ok)
qed

lemma strict_entries_error: "strict_entries what ca n as es = Inl e \<Longrightarrow> downcast_io e = None"
  by (induction what ca n as es rule: strict_entries.induct) (auto simp: Let_def split: if_splits)

lemma parse_policy_error: "parse_policy lib buf what ca mode = Inl e \<Longrightarrow> downcast_io e = None"
  by (auto simp: parse_policy_entries strict_entries_error split: if_splits)

text \<open>
  What a key file means. With a key file as the only source, an identity is trusted exactly if a line of
  the file that parses names it: a key by a line that is no certificate authority, a certificate by a line
  for its signing key that is one.
\<close>

lemma key_file_exact:
  assumes "new_with_mode lib hst fs proc f None None cmd_user caller mode tr = Some (Inr flt, tr')"
    and "(case mode of Legacy \<Rightarrow> read_to_string fs f | Strict \<Rightarrow> read_strict_file fs f 0) tr = Some (Inr buf, t)"
  shows "identity_trusted lib flt idn \<longleftrightarrow> (\<exists>entry. Inr entry \<in> set (authorized_keys lib buf) \<and>
    (case idn of
       PublicKey k \<Rightarrow> entry_key entry = k \<and> cert_authority \<notin> set (entry_opts entry)
     | Certificate c \<Rightarrow> entry_key entry = cert_signature_key lib c \<and> cert_authority \<in> set (entry_opts entry)))"
proof -
  let ?read = "case mode of Legacy \<Rightarrow> read_to_string fs f | Strict \<Rightarrow> read_strict_file fs f 0"
  have read: "?read tr = Some (Inr buf, t)" using assms(2) by (cases mode) simp_all
  obtain as where as: "parse_policy lib buf f False mode = Inr as" and flt: "flt = filter_from as (mode = Strict)"
  proof (cases "and_then (if utf8_valid f then Inr f else Inl (Anyhow ''invalid filename'' []))
      (\<lambda>name. parse_policy lib buf name False mode)")
    case (Inl e)
    then have "from_file lib fs f False mode tr = Some (Inl e, t)"
      unfolding from_file_def io_bind_app read by (simp add: io_lift_def)
    moreover have "\<not> is_not_found e"
      using Inl by (auto simp: result_simps is_not_found_def dest!: parse_policy_error split: if_splits)
    ultimately show thesis
      using assms(1) by (simp add: new_with_mode_def io_bind_app io_match_app io_return_def io_throw_def)
  next
    case (Inr as)
    then have "from_file lib fs f False mode tr = Some (Inr as, t)"
      unfolding from_file_def io_bind_app read by (simp add: io_lift_def)
    with assms(1) that Inr show thesis
      by (auto simp: new_with_mode_def io_bind_app io_match_app io_return_def result_simps split: if_splits)
  qed
  have "a \<in> set as \<longleftrightarrow> (\<exists>entry. Inr entry \<in> set (authorized_keys lib buf) \<and> a = classify False entry)" for a
    using parse_policy_complete [OF as] parse_policy_sound [OF as] by metis
  then show ?thesis
    by (cases idn) (auto simp: flt)
qed

lemma key_file_exact_witness:
  "\<not> identity_trusted example_lib \<lparr>flt_keys = {1}, flt_ca_keys = {}, flt_strict = True\<rparr> (PublicKey 5)"
proof -
  have "(case Strict of Legacy \<Rightarrow> read_to_string (example_fs ''key'') ''/k'' | Strict \<Rightarrow> read_strict_file (example_fs ''key'') ''/k'' 0) [] =
      Some (Inr ''key'', [Fs (Lstat ''/''), Fs (Lstat ''/k''), Fs (Canonicalize ''/k''), Fs (Lstat ''/''), Fs (Lstat ''/k''),
     Fs (Stat ''/k''), Fs (Stat ''/k''), Fs (OpenFile ''/k''), Fs (Fstat 3), Fs (ReadAll 3)])"
    by (simp add: example_read)
  from key_file_exact [OF example_filter this, of "PublicKey 5"] show ?thesis
    by (simp add: example_lib_def example_keys_def)
qed

section \<open>Building the filter returns\<close>

lemma total_from_file: "total_io (from_file lib fs f ca mode)"
  unfolding from_file_def read_to_string_def
  by (cases mode) (auto intro!: total_intros total_read_strict_file)

lemma total_from_command:
  assumes "clock_progresses (os_now proc)" and "finitely_interrupted proc"
  shows "total_io (from_command lib fs proc command uid caller mode)"
proof -
  have "total_io (run_inner proc cmd timeout u g prevent)" for cmd timeout u g prevent
    using run_inner_returns [OF assms] by (fastforce simp: total_io_def)
  then show ?thesis
    unfolding from_command_def cmd_run_def run_without_descendants_def
    by (intro total_intros total_validate_trust_path)
qed

lemma total_new_with_mode:
  assumes "clock_progresses (os_now proc)" and "finitely_interrupted proc"
  shows "total_io (new_with_mode lib hst fs proc f ca cmd cu caller mode)"
  unfolding new_with_mode_def
  by (intro total_intros total_from_file total_from_command assms)

end
