(* ===== verification/NativeCrypto.thy ===== *)
theory NativeCrypto imports SshKey begin

text \<open>
  \<open>verify.rs\<close> and \<open>nativecrypto.rs\<close>: the check of a signature, by the crate \<open>signature\<close> or, with the
  feature \<open>native-crypto\<close>, by OpenSSL. OpenSSL is a parameter: the record \<open>openssl\<close> of the calls that
  the file makes, over an arbitrary type \<open>'o\<close> of its objects, each of which may fail. The code under
  test is the dispatch: which curve, digest and signature encoding go with which key and algorithm.
\<close>

section \<open>The interfaces\<close>

text \<open>How \<open>KeyData\<close> is matched: the variants that the file names, and the rest.\<close>

datatype key_view = EcdsaKey ecdsa_curve "8 word list" | Ed25519Key "8 word list"
  | RsaKey (rsa_e: "8 word list") (rsa_n: "8 word list") | OtherKey algorithm

datatype nid = X9_62_PRIME256V1 | SECP384R1 | SECP521R1

datatype message_digest = SHA256 | SHA384 | SHA512

record 'o openssl =
  ec_group_from_curve_name :: "nid \<Rightarrow> 'o result"
  bignum_context_new :: "'o result"
  ec_point_from_bytes :: "'o \<Rightarrow> 8 word list \<Rightarrow> 'o \<Rightarrow> 'o result"
  ec_key_from_public_key :: "'o \<Rightarrow> 'o \<Rightarrow> 'o result"
  ec_key_check :: "'o \<Rightarrow> unit result"
  pkey_from_ec_key :: "'o \<Rightarrow> 'o result"
  pkey_ed25519_from_raw :: "8 word list \<Rightarrow> 'o result"
  bignum_from_slice :: "8 word list \<Rightarrow> 'o result"
  rsa_from_public_components :: "'o \<Rightarrow> 'o \<Rightarrow> 'o result"
  pkey_from_rsa :: "'o \<Rightarrow> 'o result"
  verifier_new :: "message_digest \<Rightarrow> 'o \<Rightarrow> 'o result"
  verifier_new_without_digest :: "'o \<Rightarrow> 'o result"
  verify_oneshot :: "'o \<Rightarrow> 8 word list \<Rightarrow> 8 word list \<Rightarrow> bool result"
  ecdsa_to_der :: "ecdsa_curve \<Rightarrow> signature \<Rightarrow> (8 word list) result"

section \<open>\<open>nativecrypto.rs\<close>\<close>

fun curve_parameters :: "ecdsa_curve \<Rightarrow> nid \<times> message_digest option" where
  "curve_parameters NistP256 = (X9_62_PRIME256V1, Some SHA256)"
| "curve_parameters NistP384 = (SECP384R1, Some SHA384)"
| "curve_parameters NistP521 = (SECP521R1, Some SHA512)"

text \<open>The digest of an RSA signature, by its algorithm.\<close>

definition rsa_digest :: "algorithm \<Rightarrow> message_digest result" where
  "rsa_digest alg = (case alg of
     Rsa hash \<Rightarrow> (case hash of
         None \<Rightarrow> Inl (Anyhow ''No RSA hash algorithm specified'' [])
       | Some Sha256 \<Rightarrow> Inr SHA256
       | Some Sha512 \<Rightarrow> Inr SHA512
       | Some OtherHash \<Rightarrow> Inl (Anyhow ''Unsupported RSA hash algorithm'' []))
   | _ \<Rightarrow> Inl (Anyhow ''Trying to read a non-RSA signature with an RSA key: {:?}'' []))"

definition get_key_and_digest :: "'o openssl \<Rightarrow> key_view \<Rightarrow> signature \<Rightarrow> ('o \<times> message_digest option) result" where
  "get_key_and_digest ossl key_data sig = (case key_data of
     EcdsaKey curve bytes \<Rightarrow>
       (let (grp, digest) = curve_parameters curve in
        and_then (ec_group_from_curve_name ossl grp) (\<lambda>grp.
        and_then (bignum_context_new ossl) (\<lambda>ctx.
        and_then (ec_point_from_bytes ossl grp bytes ctx) (\<lambda>point.
        and_then (ec_key_from_public_key ossl grp point) (\<lambda>ec_key.
        and_then (ec_key_check ossl ec_key) (\<lambda>_.
        and_then (pkey_from_ec_key ossl ec_key) (\<lambda>pkey.
        Inr (pkey, digest))))))))
   | Ed25519Key bytes \<Rightarrow>
       and_then (pkey_ed25519_from_raw ossl bytes) (\<lambda>key. Inr (key, None))
   | RsaKey e n \<Rightarrow>
       and_then (bignum_from_slice ossl e) (\<lambda>e.
       and_then (bignum_from_slice ossl n) (\<lambda>n.
       and_then (rsa_from_public_components ossl n e) (\<lambda>rsa.
       and_then (rsa_digest (sig_algorithm sig)) (\<lambda>digest.
       and_then (pkey_from_rsa ossl rsa) (\<lambda>pkey.
       Inr (pkey, Some digest))))))
   | OtherKey _ \<Rightarrow> Inl (Anyhow ''Key type is not supported: {:?}'' []))"

definition convert_signature :: "'o openssl \<Rightarrow> signature \<Rightarrow> (8 word list) result" where
  "convert_signature ossl sig = (case sig_algorithm sig of
     Ecdsa curve \<Rightarrow> ecdsa_to_der ossl curve sig
   | Ed25519 \<Rightarrow> Inr (sig_bytes sig)
   | Rsa _ \<Rightarrow> Inr (sig_bytes sig)
   | _ \<Rightarrow> Inl SignatureError)"

text \<open>\<open>PublicKeyVerifier::verify\<close>: every error becomes a \<open>signature::Error\<close>.\<close>

definition native_verify :: "'o openssl \<Rightarrow> key_view \<Rightarrow> 8 word list \<Rightarrow> signature \<Rightarrow> unit result" where
  "native_verify ossl key_data message sig =
     and_then (map_err (\<lambda>_. SignatureError) (get_key_and_digest ossl key_data sig)) (\<lambda>(key, digest).
     and_then (map_err (\<lambda>_. SignatureError) (case digest of
         None \<Rightarrow> verifier_new_without_digest ossl key
       | Some d \<Rightarrow> verifier_new ossl d key)) (\<lambda>verifier.
     and_then (map_err (\<lambda>_. SignatureError) (convert_signature ossl sig)) (\<lambda>bytes.
     and_then (map_err (\<lambda>_. SignatureError) (verify_oneshot ossl verifier bytes message)) (\<lambda>ok.
     if ok then Inr () else Inl SignatureError))))"

section \<open>\<open>verify.rs\<close>\<close>

text \<open>
  Which implementation is compiled in: \<open>signature::Verifier\<close> for \<open>KeyData\<close>, a function of the crate,
  or the one above with the view of the key.
\<close>

datatype ('k, 'o) crypto = PureRust "'k \<Rightarrow> 8 word list \<Rightarrow> signature \<Rightarrow> bool"
  | NativeCrypto "'o openssl" "'k \<Rightarrow> key_view"

fun verify :: "('k, 'o) crypto \<Rightarrow> 'k \<Rightarrow> 8 word list \<Rightarrow> signature \<Rightarrow> unit result" where
  "verify (PureRust verifies) key_data message sig =
     (if verifies key_data message sig then Inr () else Inl SignatureError)"
| "verify (NativeCrypto ossl view) key_data message sig = native_verify ossl (view key_data) message sig"

section \<open>What a verified signature is\<close>

text \<open>Key and digest that fit together.\<close>

fun digest_fits :: "key_view \<Rightarrow> algorithm \<Rightarrow> message_digest option \<Rightarrow> bool" where
  "digest_fits (EcdsaKey c _) alg d \<longleftrightarrow> d = snd (curve_parameters c)"
| "digest_fits (Ed25519Key _) alg d \<longleftrightarrow> d = None"
| "digest_fits (RsaKey _ _) alg d \<longleftrightarrow> alg = Rsa (Some Sha256) \<and> d = Some SHA256 \<or> alg = Rsa (Some Sha512) \<and> d = Some SHA512"
| "digest_fits (OtherKey _) alg d \<longleftrightarrow> False"

lemma rsa_digest_Inr: "rsa_digest alg = Inr d \<longleftrightarrow>
    alg = Rsa (Some Sha256) \<and> d = SHA256 \<or> alg = Rsa (Some Sha512) \<and> d = SHA512"
  by (auto simp: rsa_digest_def split: algorithm.splits option.splits hash_alg.splits)

text \<open>The OpenSSL key that holds the same public key, built with success in each step, for the key types that are supported.\<close>

fun openssl_key :: "'o openssl \<Rightarrow> key_view \<Rightarrow> 'o \<Rightarrow> bool" where
  "openssl_key ossl (EcdsaKey curve bytes) pkey \<longleftrightarrow> (\<exists>grp ctx point ec_key.
     ec_group_from_curve_name ossl (fst (curve_parameters curve)) = Inr grp \<and> bignum_context_new ossl = Inr ctx \<and>
     ec_point_from_bytes ossl grp bytes ctx = Inr point \<and> ec_key_from_public_key ossl grp point = Inr ec_key \<and>
     ec_key_check ossl ec_key = Inr () \<and> pkey_from_ec_key ossl ec_key = Inr pkey)"
| "openssl_key ossl (Ed25519Key bytes) pkey \<longleftrightarrow> pkey_ed25519_from_raw ossl bytes = Inr pkey"
| "openssl_key ossl (RsaKey e n) pkey \<longleftrightarrow> (\<exists>be bn rsa. bignum_from_slice ossl e = Inr be \<and> bignum_from_slice ossl n = Inr bn \<and>
     rsa_from_public_components ossl bn be = Inr rsa \<and> pkey_from_rsa ossl rsa = Inr pkey)"
| "openssl_key ossl (OtherKey alg) pkey \<longleftrightarrow> False"

lemma get_key_and_digest_Inr:
  "get_key_and_digest ossl key sig = Inr (pkey, d) \<longleftrightarrow> openssl_key ossl key pkey \<and> digest_fits key (sig_algorithm sig) d"
  by (cases key) (auto simp: get_key_and_digest_def result_simps rsa_digest_Inr split: prod.splits)

text \<open>The bytes that OpenSSL gets: DER for ECDSA, as they are for Ed25519 and RSA.\<close>

definition openssl_signature :: "'o openssl \<Rightarrow> signature \<Rightarrow> 8 word list \<Rightarrow> bool" where
  "openssl_signature ossl sig bytes \<longleftrightarrow>
     (\<exists>curve. sig_algorithm sig = Ecdsa curve \<and> ecdsa_to_der ossl curve sig = Inr bytes) \<or>
     (sig_algorithm sig = Ed25519 \<or> (\<exists>hash. sig_algorithm sig = Rsa hash)) \<and> bytes = sig_bytes sig"

lemma convert_signature_Inr: "convert_signature ossl sig = Inr bytes \<longleftrightarrow> openssl_signature ossl sig bytes"
  by (auto simp: convert_signature_def openssl_signature_def split: algorithm.splits)

text \<open>
  C29: when OpenSSL is used, a signature is accepted if and only if OpenSSL itself verifies the message, for the key
  with the same parameters, which is ECDSA, Ed25519 or RSA, with a verifier whose digest belongs to the key's curve, is
  absent for Ed25519, or is the SHA-2 named by the RSA signature, and with the signature in the encoding of its
  algorithm. A key of another type is never accepted, nor is an RSA signature without a supported hash.
\<close>

theorem native_verify_sound:
  "native_verify ossl key message sig = Inr () \<longleftrightarrow> (\<exists>pkey d verifier bytes.
     openssl_key ossl key pkey \<and> digest_fits key (sig_algorithm sig) d \<and>
     (case d of None \<Rightarrow> verifier_new_without_digest ossl pkey | Some md \<Rightarrow> verifier_new ossl md pkey) = Inr verifier \<and>
     openssl_signature ossl sig bytes \<and> verify_oneshot ossl verifier bytes message = Inr True)"
proof -
  have "native_verify ossl key message sig = Inr () \<longleftrightarrow> (\<exists>pkey d verifier bytes.
     get_key_and_digest ossl key sig = Inr (pkey, d) \<and>
     (case d of None \<Rightarrow> verifier_new_without_digest ossl pkey | Some md \<Rightarrow> verifier_new ossl md pkey) = Inr verifier \<and>
     convert_signature ossl sig = Inr bytes \<and> verify_oneshot ossl verifier bytes message = Inr True)"
    by (auto simp: native_verify_def result_simps split: if_splits)
  then show ?thesis unfolding get_key_and_digest_Inr convert_signature_Inr by blast
qed

text \<open>The errors of the check are all \<open>signature::Error\<close>, so they never look like an agent failure.\<close>

lemma verify_error: "verify crypto key message sig = Inl e \<Longrightarrow> e = SignatureError"
  by (cases crypto) (auto simp: native_verify_def result_simps split: if_splits)

text \<open>An OpenSSL whose objects are numbers and which accepts everything, for the concrete instances.\<close>

definition example_openssl :: "nat openssl" where
  "example_openssl = \<lparr>ec_group_from_curve_name = (\<lambda>_. Inr 0), bignum_context_new = Inr 0,
     ec_point_from_bytes = (\<lambda>_ _ _. Inr 0), ec_key_from_public_key = (\<lambda>_ _. Inr 0), ec_key_check = (\<lambda>_. Inr ()),
     pkey_from_ec_key = (\<lambda>_. Inr 0), pkey_ed25519_from_raw = (\<lambda>_. Inr 0), bignum_from_slice = (\<lambda>_. Inr 0),
     rsa_from_public_components = (\<lambda>_ _. Inr 0), pkey_from_rsa = (\<lambda>_. Inr 0), verifier_new = (\<lambda>_ _. Inr 0),
     verifier_new_without_digest = (\<lambda>_. Inr 0), verify_oneshot = (\<lambda>_ _ _. Inr True), ecdsa_to_der = (\<lambda>_ _. Inr [])\<rparr>"

lemma native_verify_sound_witness:
  "\<exists>pkey d. openssl_key example_openssl (RsaKey [] []) pkey \<and> digest_fits (RsaKey [] []) (Rsa (Some Sha512)) d"
proof -
  have "native_verify example_openssl (RsaKey [] []) [] \<lparr>sig_algorithm = Rsa (Some Sha512), sig_bytes = []\<rparr> = Inr ()"
    by code_simp
  then show ?thesis unfolding native_verify_sound signature.select_convs by blast
qed

end
