(* ===== verification/Auth.thy ===== *)
theory Auth imports KeyPolicy NativeCrypto begin

text \<open>
  \<open>auth.rs\<close>: finding an identity of the agent that the filter trusts, having the agent sign a random
  challenge, and checking the signature. The sources of the clock and of random bytes are the record
  \<open>auth_os\<close>; \<open>SystemTime\<close> is a number of seconds relative to the Unix epoch, negative before it.
\<close>

record auth_os =
  os_system_time :: "trace \<Rightarrow> int"
  os_getrandom :: "nat \<Rightarrow> trace \<Rightarrow> (8 word list) option"

definition CHALLENGE_SIZE :: nat where "CHALLENGE_SIZE = 32"

section \<open>Certificates\<close>

definition validate_cert :: "('k, 'c) ssh_key \<Rightarrow> 'c \<Rightarrow> int \<Rightarrow> string \<Rightarrow> bool" where
  "validate_cert lib cert when princ =
     (let ca_key = cert_signature_key lib cert in
      if when < 0 then False
      else if \<not> cert_validate_at lib cert (nat when) [fingerprint_sha256 lib ca_key] then False
      else if \<not> cert_is_user lib cert then False
      else if \<not> list_ex (\<lambda>p. p = princ) (cert_valid_principals lib cert) then False
      else if cert_critical_options lib cert \<noteq> [] then False
      else True)"

section \<open>Security keys\<close>

definition identity_key :: "('k, 'c) ssh_key \<Rightarrow> ('k, 'c) identity \<Rightarrow> 'k" where
  "identity_key lib idn = (case idn of PublicKey key \<Rightarrow> key | Certificate cert \<Rightarrow> cert_public_key lib cert)"

text \<open>The flags are the byte before the four bytes of the counter at the end of the signature.\<close>

definition validate_sk_signature :: "('k, 'c) ssh_key \<Rightarrow> ('k, 'c) identity \<Rightarrow> signature \<Rightarrow> unit result" where
  "validate_sk_signature lib idn sig =
     (let key = identity_key lib idn;
          expected = (if is_sk_ed25519 lib key then Some SkEd25519
                      else if is_sk_ecdsa_p256 lib key then Some SkEcdsaSha2NistP256 else None) in
      case expected of
        None \<Rightarrow> Inr ()
      | Some alg \<Rightarrow>
          if sig_algorithm sig \<noteq> alg \<or> length (sig_bytes sig) < 5
          then Inl (Anyhow ''Invalid security-key signature format'' [])
          else
            (let flags = sig_bytes sig ! (length (sig_bytes sig) - 5) in
             if flags AND 0x01 = 0 \<or> flags AND 0x04 = 0
             then Inl (Anyhow ''Security-key signature requires user presence and verification'' [])
             else Inr ()))"

section \<open>Signing\<close>

definition get_challenge :: "auth_os \<Rightarrow> (8 word list) io" where
  "get_challenge os = io_call (GetRandom CHALLENGE_SIZE)
     (\<lambda>tr. ok_or (Anyhow ''Failed to obtain random data'' []) (os_getrandom os CHALLENGE_SIZE tr))"

definition sign_and_verify :: "('k, 'c) ssh_key \<Rightarrow> ('k, 'o) crypto \<Rightarrow> auth_os \<Rightarrow> ('k, 'c) identity
    \<Rightarrow> ('k, 'c) ssh_agent \<Rightarrow> bool \<Rightarrow> bool io" where
  "sign_and_verify lib crypto os idn agent strict =
     io_bind (get_challenge os) (\<lambda>data.
     io_bind (agent_sign_with_ref agent idn data) (\<lambda>sig.
     io_bind (io_lift (if strict then validate_sk_signature lib idn sig else Inr ())) (\<lambda>_.
     io_bind (io_lift (case idn of
         PublicKey key \<Rightarrow> verify crypto key data sig
       | Certificate cert \<Rightarrow> verify crypto (cert_public_key lib cert) data sig)) (\<lambda>_.
     io_return True))))"

section \<open>\<open>authenticate\<close>\<close>

text \<open>The loop over the identities of the agent: a \<open>continue\<close> is the recursive call.\<close>

fun authenticate_loop :: "('k, 'c) ssh_key \<Rightarrow> ('k, 'o) crypto \<Rightarrow> auth_os \<Rightarrow> 'k identity_filter
    \<Rightarrow> ('k, 'c) ssh_agent \<Rightarrow> string \<Rightarrow> int \<Rightarrow> ('k, 'c) identity list \<Rightarrow> bool io" where
  "authenticate_loop lib crypto os flt agent princ t [] = io_return False"
| "authenticate_loop lib crypto os flt agent princ t (idn # idns) =
     (if identity_trusted lib flt idn then
        (if (case idn of Certificate cert \<Rightarrow> \<not> validate_cert lib cert t princ | PublicKey _ \<Rightarrow> False)
         then authenticate_loop lib crypto os flt agent princ t idns
         else
           io_match (sign_and_verify lib crypto os idn agent (flt_strict flt)) (\<lambda>r. case r of
             Inr res \<Rightarrow> io_return res
           | Inl e \<Rightarrow>
               if downcast_sac e = Some RemoteFailure
               then authenticate_loop lib crypto os flt agent princ t idns
               else io_throw e))
      else authenticate_loop lib crypto os flt agent princ t idns)"

definition authenticate :: "('k, 'c) ssh_key \<Rightarrow> ('k, 'o) crypto \<Rightarrow> auth_os \<Rightarrow> 'k identity_filter
    \<Rightarrow> ('k, 'c) ssh_agent \<Rightarrow> string \<Rightarrow> bool io" where
  "authenticate lib crypto os flt agent princ =
     io_bind (io_ask SystemTimeNow (os_system_time os)) (\<lambda>t.
     io_bind (agent_list_identities agent) (\<lambda>idns.
     authenticate_loop lib crypto os flt agent princ t idns))"

section \<open>What is accepted\<close>

text \<open>
  A certificate is valid exactly when the clock is not before the epoch, the library accepts it at
  that second for its own signing key, it is a user certificate, the principal is listed by name, and
  it has no critical option.
\<close>

lemma validate_cert_exact:
  "validate_cert lib cert when princ \<longleftrightarrow>
     0 \<le> when \<and>
     cert_validate_at lib cert (nat when) [fingerprint_sha256 lib (cert_signature_key lib cert)] \<and>
     cert_is_user lib cert \<and> princ \<in> set (cert_valid_principals lib cert) \<and>
     cert_critical_options lib cert = []"
  by (auto simp: validate_cert_def Let_def list_ex_iff)

text \<open>A security-key signature with the flags for presence and verification.\<close>

definition sk_flags_set :: "signature \<Rightarrow> bool" where
  "sk_flags_set sig \<longleftrightarrow> (\<exists>body flags counter. sig_bytes sig = body @ [flags] @ counter \<and> length counter = 4 \<and>
     bit flags 0 \<and> bit flags 2)"

lemma and_bit_word: "(w AND 0x01 = 0) = (\<not> bit w 0)" "(w AND 0x04 = 0) = (\<not> bit w 2)" for w :: "8 word"
  using and_exp_eq_0_iff_not_bit [of w 0] and_exp_eq_0_iff_not_bit [of w 2] by simp_all

lemma split_at_flags:
  "length bs \<ge> 5 \<Longrightarrow> bs = take (length bs - 5) bs @ [bs ! (length bs - 5)] @ drop (length bs - 4) bs"
  using id_take_nth_drop [of "length bs - 5" bs] by (simp add: Suc_diff_Suc numeral_eq_Suc)

text \<open>
  C23: the check of a security-key signature passes exactly when the key is no security key, or the
  signature has the key's own algorithm and the byte before its four-byte counter has the bits for
  user presence (0) and user verification (2) set.
\<close>

theorem validate_sk_signature_exact:
  "validate_sk_signature lib idn sig = Inr () \<longleftrightarrow>
     (let key = identity_key lib idn in
      \<not> is_sk_ed25519 lib key \<and> \<not> is_sk_ecdsa_p256 lib key \<or>
      sig_algorithm sig = (if is_sk_ed25519 lib key then SkEd25519 else SkEcdsaSha2NistP256) \<and> sk_flags_set sig)"
proof -
  let ?bs = "sig_bytes sig"
  have "sk_flags_set sig \<longleftrightarrow> length ?bs \<ge> 5 \<and> bit (?bs ! (length ?bs - 5)) 0 \<and> bit (?bs ! (length ?bs - 5)) 2"
  proof
    assume "sk_flags_set sig"
    then obtain body flags counter where bs: "?bs = body @ [flags] @ counter" "length counter = 4"
      and set: "bit flags 0" "bit flags 2" unfolding sk_flags_set_def by blast
    have "length ?bs = length body + 5" using bs by simp
    then show "length ?bs \<ge> 5 \<and> bit (?bs ! (length ?bs - 5)) 0 \<and> bit (?bs ! (length ?bs - 5)) 2"
      using bs(1) set by (simp add: nth_append)
  next
    assume "length ?bs \<ge> 5 \<and> bit (?bs ! (length ?bs - 5)) 0 \<and> bit (?bs ! (length ?bs - 5)) 2"
    moreover from this have "length (drop (length ?bs - 4) ?bs) = 4" by simp
    ultimately show "sk_flags_set sig"
      unfolding sk_flags_set_def using split_at_flags by blast
  qed
  then show ?thesis
    by (auto simp: validate_sk_signature_def Let_def and_bit_word not_less split: if_splits)
qed

section \<open>Which identity is used\<close>

text \<open>An identity that may be asked to sign: trusted, and if it is a certificate then valid now.\<close>

definition eligible :: "('k, 'c) ssh_key \<Rightarrow> 'k identity_filter \<Rightarrow> int \<Rightarrow> string \<Rightarrow> ('k, 'c) identity \<Rightarrow> bool" where
  "eligible lib flt t princ idn \<longleftrightarrow> identity_trusted lib flt idn \<and>
     (case idn of PublicKey _ \<Rightarrow> True | Certificate cert \<Rightarrow> validate_cert lib cert t princ)"

text \<open>
  A proof of possession in a run, from the trace \<open>tr\<close> to the trace \<open>tr'\<close>: the challenge of 32 bytes that was drawn at
  \<open>tr\<close>, and the signature that the agent then gave for this identity over this challenge, which verifies under
  the identity's key and in strict mode has the flags of a security key.
\<close>

definition proves_possession :: "('k, 'c) ssh_key \<Rightarrow> ('k, 'o) crypto \<Rightarrow> auth_os \<Rightarrow> ('k, 'c) ssh_agent \<Rightarrow> bool
    \<Rightarrow> ('k, 'c) identity \<Rightarrow> trace \<Rightarrow> trace \<Rightarrow> bool" where
  "proves_possession lib crypto os agent strict idn tr tr' \<longleftrightarrow>
     (\<exists>data sig. os_getrandom os CHALLENGE_SIZE tr = Some data \<and>
        agent_sign_with_ref agent idn data (tr @ [GetRandom CHALLENGE_SIZE]) = Some (Inr sig, tr') \<and>
        (strict \<longrightarrow> validate_sk_signature lib idn sig = Inr ()) \<and>
        verify crypto (identity_key lib idn) data sig = Inr ())"

text \<open>The agent refuses to sign the challenge drawn at \<open>tr\<close>.\<close>

definition refuses :: "auth_os \<Rightarrow> ('k, 'c) ssh_agent \<Rightarrow> ('k, 'c) identity \<Rightarrow> trace \<Rightarrow> trace \<Rightarrow> bool" where
  "refuses os agent idn tr tr' \<longleftrightarrow>
     (\<exists>data. os_getrandom os CHALLENGE_SIZE tr = Some data \<and>
        agent_sign_with_ref agent idn data (tr @ [GetRandom CHALLENGE_SIZE]) = Some (Inl (SshAgent RemoteFailure), tr'))"

text \<open>It refuses one identity after the other.\<close>

fun refuses_all :: "auth_os \<Rightarrow> ('k, 'c) ssh_agent \<Rightarrow> ('k, 'c) identity list \<Rightarrow> trace \<Rightarrow> trace \<Rightarrow> bool" where
  "refuses_all os agent [] tr tr' \<longleftrightarrow> tr' = tr"
| "refuses_all os agent (idn # idns) tr tr' \<longleftrightarrow>
     (\<exists>t. refuses os agent idn tr t \<and> refuses_all os agent idns t tr')"

lemma sign_and_verify_key: "sign_and_verify lib crypto os idn agent strict =
     io_bind (get_challenge os) (\<lambda>data.
     io_bind (agent_sign_with_ref agent idn data) (\<lambda>sig.
     io_bind (io_lift (if strict then validate_sk_signature lib idn sig else Inr ())) (\<lambda>_.
     io_bind (io_lift (verify crypto (identity_key lib idn) data sig)) (\<lambda>_.
     io_return True))))"
proof -
  have "(case idn of PublicKey key \<Rightarrow> verify crypto key data sig
       | Certificate cert \<Rightarrow> verify crypto (cert_public_key lib cert) data sig) =
     verify crypto (identity_key lib idn) data sig" for data sig
    by (cases idn) (simp_all add: identity_key_def)
  then show ?thesis by (simp add: sign_and_verify_def)
qed

lemma sign_and_verify_Inr:
  "sign_and_verify lib crypto os idn agent strict tr = Some (Inr res, tr') \<longleftrightarrow>
     res \<and> proves_possession lib crypto os agent strict idn tr tr'"
  unfolding sign_and_verify_key get_challenge_def proves_possession_def
  by (auto simp: io_bind_Inr result_simps)

lemma validate_sk_signature_error: "validate_sk_signature lib idn sig = Inl e \<Longrightarrow> e \<noteq> SshAgent RemoteFailure"
  by (auto simp: validate_sk_signature_def Let_def split: if_splits)

lemma sign_and_verify_refused:
  "sign_and_verify lib crypto os idn agent strict tr = Some (Inl (SshAgent RemoteFailure), tr') \<longleftrightarrow>
     refuses os agent idn tr tr'"
  unfolding sign_and_verify_key get_challenge_def refuses_def
  by (auto simp: io_bind_Inl result_simps dest: verify_error validate_sk_signature_error split: if_splits)

text \<open>Asking each of a list of identities in turn, passing over those the agent fails to sign with.\<close>

fun try_each :: "('a \<Rightarrow> bool io) \<Rightarrow> 'a list \<Rightarrow> bool io" where
  "try_each sign [] = io_return False"
| "try_each sign (x # xs) = io_match (sign x) (\<lambda>r. case r of
     Inr res \<Rightarrow> io_return res
   | Inl e \<Rightarrow> if e = SshAgent RemoteFailure then try_each sign xs else io_throw e)"

text \<open>
  The loop is the simple search over the eligible identities. Identities that are not trusted,
  and certificates that are not valid, are never sent to the agent and have no other effect.
\<close>

lemma authenticate_loop_try_each:
  "authenticate_loop lib crypto os flt agent princ t idns =
     try_each (\<lambda>idn. sign_and_verify lib crypto os idn agent (flt_strict flt)) (filter (eligible lib flt t princ) idns)"
proof (induction idns)
  case (Cons idn idns)
  have "eligible lib flt t princ idn \<longleftrightarrow> identity_trusted lib flt idn \<and>
      \<not> (case idn of Certificate cert \<Rightarrow> \<not> validate_cert lib cert t princ | PublicKey _ \<Rightarrow> False)"
    by (cases idn) (simp_all add: eligible_def)
  then show ?case unfolding authenticate_loop.simps Cons.IH by simp
qed simp

lemma try_each_Cons:
  "try_each sign (x # xs) tr = Some (Inr b, tr') \<longleftrightarrow> sign x tr = Some (Inr b, tr') \<or>
     (\<exists>t. sign x tr = Some (Inl (SshAgent RemoteFailure), t) \<and> try_each sign xs t = Some (Inr b, tr'))"
proof (cases "sign x tr")
  case None
  then show ?thesis by (simp add: io_match_def)
next
  case (Some res)
  then obtain r t where "sign x tr = Some (r, t)" by (cases res) auto
  then show ?thesis by (cases r) (auto simp: io_match_def io_return_def io_throw_def)
qed

lemma first_proved_Cons:
  "(\<exists>before y after t. x # xs = before @ y # after \<and> refuses_all os agent before tr t \<and> P y t) \<longleftrightarrow>
     P x tr \<or> (\<exists>t1. refuses os agent x tr t1 \<and>
       (\<exists>before y after t. xs = before @ y # after \<and> refuses_all os agent before t1 t \<and> P y t))" (is "?lhs \<longleftrightarrow> ?rhs")
proof
  assume ?lhs
  then obtain before y after t where "x # xs = before @ y # after" "refuses_all os agent before tr t" "P y t" by blast
  then show ?rhs by (cases before) (simp, simp, blast)
next
  assume ?rhs
  then show ?lhs
  proof
    assume "P x tr"
    then have "x # xs = [] @ x # xs" "refuses_all os agent [] tr tr" "P x tr" by simp_all
    then show ?lhs by blast
  next
    assume "\<exists>t1. refuses os agent x tr t1 \<and>
       (\<exists>before y after t. xs = before @ y # after \<and> refuses_all os agent before t1 t \<and> P y t)"
    then obtain t1 before y after t where "refuses os agent x tr t1" "xs = before @ y # after"
        "refuses_all os agent before t1 t" "P y t" by blast
    then have "x # xs = (x # before) @ y # after" "refuses_all os agent (x # before) tr t" by auto
    with \<open>P y t\<close> show ?lhs by blast
  qed
qed

lemma authenticate_search:
  fixes lib :: "('k, 'c) ssh_key"
  defines "search \<equiv> \<lambda>crypto os agent strict. try_each (\<lambda>idn. sign_and_verify lib crypto os idn agent strict)"
  shows "search crypto os agent strict idns tr = Some (Inr True, tr') \<longleftrightarrow>
      (\<exists>before idn after t. idns = before @ idn # after \<and> refuses_all os agent before tr t \<and>
         proves_possession lib crypto os agent strict idn t tr')" (is "?yes idns tr")
    and "search crypto os agent strict idns tr = Some (Inr False, tr') \<longleftrightarrow> refuses_all os agent idns tr tr'" (is "?no idns tr")
proof -
  have "?yes idns tr \<and> ?no idns tr"
  proof (induction idns arbitrary: tr)
    case Nil
    then show ?case by (auto simp: search_def)
  next
    case (Cons idn idns)
    have step: "search crypto os agent strict (idn # idns) tr = Some (Inr b, tr') \<longleftrightarrow>
        b \<and> proves_possession lib crypto os agent strict idn tr tr' \<or>
        (\<exists>t. refuses os agent idn tr t \<and> search crypto os agent strict idns t = Some (Inr b, tr'))" for b
      unfolding search_def try_each_Cons sign_and_verify_Inr sign_and_verify_refused ..
    have "?yes (idn # idns) tr"
      unfolding step first_proved_Cons [where P = "\<lambda>idn t. proves_possession lib crypto os agent strict idn t tr'"] Cons.IH [THEN conjunct1]
      by simp
    moreover have "?no (idn # idns) tr"
      unfolding step refuses_all.simps using Cons.IH by simp
    ultimately show ?case ..
  qed
  then show "?yes idns tr" "?no idns tr" by simp_all
qed

text \<open>The run of a request to the agent that lists the identities \<open>idns\<close>, up to the trace \<open>t\<close>.\<close>

definition lists_identities :: "('k, 'c) ssh_agent \<Rightarrow> trace \<Rightarrow> ('k, 'c) identity list \<Rightarrow> trace \<Rightarrow> bool" where
  "lists_identities agent tr idns t \<longleftrightarrow> agent_list_identities agent (tr @ [SystemTimeNow]) = Some (Inr idns, t)"

text \<open>
  Success: the agent lists its identities, refuses the eligible ones before some eligible one, and for that one
  proves possession of the private key.
\<close>

definition agent_proves :: "('k, 'c) ssh_key \<Rightarrow> ('k, 'o) crypto \<Rightarrow> auth_os \<Rightarrow> 'k identity_filter \<Rightarrow> ('k, 'c) ssh_agent
    \<Rightarrow> string \<Rightarrow> trace \<Rightarrow> trace \<Rightarrow> bool" where
  "agent_proves lib crypto os flt agent princ tr tr' \<longleftrightarrow>
     (\<exists>idns t before idn after t'. lists_identities agent tr idns t \<and>
        filter (eligible lib flt (os_system_time os tr) princ) idns = before @ idn # after \<and>
        refuses_all os agent before t t' \<and>
        proves_possession lib crypto os agent (flt_strict flt) idn t' tr')"

lemma authenticate_Inr:
  "authenticate lib crypto os flt agent princ tr = Some (Inr b, tr') \<longleftrightarrow>
     (\<exists>idns t. lists_identities agent tr idns t \<and>
        try_each (\<lambda>idn. sign_and_verify lib crypto os idn agent (flt_strict flt))
          (filter (eligible lib flt (os_system_time os tr) princ) idns) t = Some (Inr b, tr'))"
  by (simp add: authenticate_def io_step io_bind_Inr authenticate_loop_try_each lists_identities_def)

lemma authenticate_yes:
  "authenticate lib crypto os flt agent princ tr = Some (Inr True, tr') \<longleftrightarrow>
     agent_proves lib crypto os flt agent princ tr tr'"
  unfolding authenticate_Inr authenticate_search agent_proves_def by blast

text \<open>
  C6: authentication is sound and says yes exactly when it should. It says yes, in a given run, if and only if in this
  run the agent listed an identity that the filter trusts and that is valid for the principal at the time the call
  started, refused every eligible one listed before it, and signed for it a challenge that was drawn just before,
  with a signature that verifies under its key.
\<close>

theorem authenticate_sound:
  "authenticate lib crypto os flt agent princ tr = Some (Inr True, tr') \<longleftrightarrow>
     (\<exists>idns t before idn after t'. lists_identities agent tr idns t \<and>
        filter (eligible lib flt (os_system_time os tr) princ) idns = before @ idn # after \<and>
        refuses_all os agent before t t' \<and>
        proves_possession lib crypto os agent (flt_strict flt) idn t' tr')"
  unfolding authenticate_yes agent_proves_def ..

text \<open>
  C7: authentication is complete. It says no if and only if the agent itself refused to sign for each eligible identity
  that it had listed, each with a challenge of its own; a wrong signature or any other trouble is an error, not a no.
\<close>

theorem authenticate_complete:
  "authenticate lib crypto os flt agent princ tr = Some (Inr False, tr') \<longleftrightarrow>
     (\<exists>idns t. lists_identities agent tr idns t \<and>
        refuses_all os agent (filter (eligible lib flt (os_system_time os tr) princ) idns) t tr')"
  unfolding authenticate_Inr authenticate_search ..

section \<open>Authentication returns\<close>

lemma total_sign_and_verify:
  assumes "\<And>idn data. total_io (agent_sign_with_ref agent idn data)"
  shows "total_io (sign_and_verify lib crypto os idn agent strict)"
  unfolding sign_and_verify_key get_challenge_def by (intro total_intros assms)

lemma total_authenticate:
  assumes "total_io (agent_list_identities agent)" and "\<And>idn data. total_io (agent_sign_with_ref agent idn data)"
  shows "total_io (authenticate lib crypto os flt agent princ)"
proof -
  have "total_io (authenticate_loop lib crypto os flt agent princ t idns)" for t idns
    by (induction idns) (auto intro!: total_intros total_sign_and_verify assms(2))
  then show ?thesis
    unfolding authenticate_def by (intro total_intros assms(1))
qed

section \<open>Concrete instances\<close>

definition example_os :: auth_os where
  "example_os = \<lparr>os_system_time = (\<lambda>_. 1000), os_getrandom = (\<lambda>n _. Some (replicate n 7))\<rparr>"

definition example_sig :: signature where
  "example_sig = \<lparr>sig_algorithm = Ed25519, sig_bytes = [1]\<rparr>"

text \<open>An agent that holds the keys 5 and 1, and can sign with 1 only.\<close>

definition example_client :: "(nat, nat) ssh_client" where
  "example_client = \<lparr>client_list_all_identities = io_return [PublicKey 5, PublicKey 1],
     client_sign = (\<lambda>k _. if k = PublicKey 1 then io_return example_sig else io_throw (SshAgent RemoteFailure)),
     client_sign_with_ref = (\<lambda>k _. if k = PublicKey 1 then io_return example_sig else io_throw (SshAgent RemoteFailure))\<rparr>"

definition example_crypto :: "(nat, nat) crypto" where
  "example_crypto = PureRust (\<lambda>k _ sig. sig_bytes sig = [of_nat k])"

lemma example_authenticate:
  "authenticate example_lib example_crypto example_os \<lparr>flt_keys = {1}, flt_ca_keys = {}, flt_strict = True\<rparr>
     (client_agent example_client) ''ann'' [] =
   Some (Inr True, [SystemTimeNow, Agent ListIdentities, GetRandom 32, Agent (SignRequest (replicate 32 7))])"
  by (simp add: authenticate_def authenticate_loop_try_each eligible_def sign_and_verify_key get_challenge_def
    validate_sk_signature_def identity_key_def example_lib_def example_os_def example_client_def example_crypto_def
    example_sig_def CHALLENGE_SIZE_def io_step io_bind_app io_match_app io_ask_def io_call_def io_lift_def io_return_def io_throw_def)

lemma example_authenticate_no:
  "authenticate example_lib example_crypto example_os \<lparr>flt_keys = {5}, flt_ca_keys = {}, flt_strict = True\<rparr>
     (client_agent example_client) ''ann'' [] =
   Some (Inr False, [SystemTimeNow, Agent ListIdentities, GetRandom 32, Agent (SignRequest (replicate 32 7))])"
  by (simp add: authenticate_def authenticate_loop_try_each eligible_def sign_and_verify_key get_challenge_def
    validate_sk_signature_def identity_key_def example_lib_def example_os_def example_client_def example_crypto_def
    example_sig_def CHALLENGE_SIZE_def io_step io_bind_app io_match_app io_ask_def io_call_def io_lift_def io_return_def io_throw_def)

lemma authenticate_sound_witness:
  "\<exists>idns before idn after t t'. filter (eligible example_lib \<lparr>flt_keys = {1}, flt_ca_keys = {}, flt_strict = True\<rparr> 1000 ''ann'') idns =
       before @ idn # after \<and>
     proves_possession example_lib example_crypto example_os (client_agent example_client) True idn t t'"
proof -
  have now: "os_system_time example_os [] = 1000" by (simp add: example_os_def)
  show ?thesis
    using example_authenticate unfolding authenticate_sound now identity_filter.select_convs by blast
qed

lemma authenticate_complete_witness:
  "\<exists>t t'. refuses_all example_os (client_agent example_client) [PublicKey 5] t t'"
proof -
  obtain idns t where "lists_identities (client_agent example_client) [] idns t"
      "refuses_all example_os (client_agent example_client) (filter (eligible example_lib
         \<lparr>flt_keys = {5}, flt_ca_keys = {}, flt_strict = True\<rparr> (os_system_time example_os []) ''ann'') idns) t
         [SystemTimeNow, Agent ListIdentities, GetRandom 32, Agent (SignRequest (replicate 32 7))]"
    using example_authenticate_no unfolding authenticate_complete by blast
  moreover have "filter (eligible example_lib \<lparr>flt_keys = {5}, flt_ca_keys = {}, flt_strict = True\<rparr> x ''ann'') idns = [PublicKey 5]" for x
    using calculation(1) by (auto simp: lists_identities_def example_client_def io_return_def eligible_def)
  ultimately show ?thesis by metis
qed

end
