(* ===== verification/AgentConnection.thy ===== *)
theory AgentConnection imports Cmd SshKey begin

text \<open>
  \<open>agent_connection.rs\<close>: connecting to the socket of the agent, with a deadline that also bounds
  every later read and write. The socket interface of the system is the record \<open>sock_os\<close>; there is one
  socket, so the descriptor is not named. \<open>OwnedFd\<close> closes the socket when it is dropped, which is on
  every error after it was created.
\<close>

section \<open>The socket interface\<close>

record sock_os =
  os_socket :: "trace \<Rightarrow> io_error + unit"
  os_fcntl :: "fd_setting \<Rightarrow> trace \<Rightarrow> io_error + unit"
  os_getfl :: "trace \<Rightarrow> io_error + 32 word"
  os_connect :: "string \<Rightarrow> trace \<Rightarrow> io_error + unit"
  os_poll_connect :: "trace \<Rightarrow> io_error + nat"
  os_so_error :: "trace \<Rightarrow> io_error + errno option"
  os_instant :: "trace \<Rightarrow> nat"
  os_set_read_timeout :: "nat \<Rightarrow> trace \<Rightarrow> io_error + unit"
  os_set_write_timeout :: "nat \<Rightarrow> trace \<Rightarrow> io_error + unit"
  os_sock_read :: "nat \<Rightarrow> trace \<Rightarrow> io_error + string"
  os_sock_write :: "string \<Rightarrow> trace \<Rightarrow> io_error + nat"
  os_sock_flush :: "trace \<Rightarrow> io_error + unit"

text \<open>\<open>sockaddr_un.sun_path.len()\<close> and \<open>offset_of!(sockaddr_un, sun_path)\<close> of the two platforms.\<close>

fun sun_path_len :: "platform \<Rightarrow> nat" where
  "sun_path_len Linux = 108"
| "sun_path_len MacOS = 104"

definition sun_path_offset :: nat where "sun_path_offset = 2"

definition instant_now :: "sock_os \<Rightarrow> nat io" where
  "instant_now os = io_ask ClockNow (os_instant os)"

definition connection_timed_out :: error where
  "connection_timed_out = Io (IoNew KTimedOut ''SSH-agent connection timed out'')"

definition operation_timed_out :: error where
  "operation_timed_out = Io (IoNew KTimedOut ''SSH-agent operation timed out'')"

section \<open>Connecting\<close>

definition set_fd_flags :: "sock_os \<Rightarrow> fd_setting \<Rightarrow> unit io" where
  "set_fd_flags os setting = io_sys (Sock (Fcntl setting)) (os_fcntl os setting)"

definition connect_millis :: "nat \<Rightarrow> nat" where
  "connect_millis remaining = max 1 (min 2147483647 (remaining div nanos_per_milli))"

partial_function (option) wait_for_connect :: "sock_os \<Rightarrow> nat \<Rightarrow> unit io" where
  "wait_for_connect os deadline tr =
     io_bind (instant_now os) (\<lambda>t.
     if deadline - t = 0 then io_throw connection_timed_out
     else
       io_match (io_sys (Sock (PollConnect (connect_millis (deadline - t)))) (os_poll_connect os)) (\<lambda>r. case r of
         Inl e \<Rightarrow>
           if error_kind e = Some KInterrupted then wait_for_connect os deadline
           else io_throw e
       | Inr n \<Rightarrow>
           if n = 0 then io_throw connection_timed_out
           else
             io_bind (io_sys (Sock GetSockError) (os_so_error os)) (\<lambda>socket_error.
             case socket_error of
               Some n \<Rightarrow> io_throw (Io (OsError n))
             | None \<Rightarrow> io_return ()))) tr"

text \<open>The life of the \<open>OwnedFd\<close>: an error drops it.\<close>

definition or_close :: "'a io \<Rightarrow> 'a io" where
  "or_close m = io_match m (\<lambda>r. case r of
     Inr x \<Rightarrow> io_return x
   | Inl e \<Rightarrow> io_bind (io_emit (Sock CloseSocket)) (\<lambda>_. io_throw e))"

text \<open>\<open>connect_unix\<close> after the socket exists.\<close>

definition connect_socket :: "platform \<Rightarrow> sock_os \<Rightarrow> string \<Rightarrow> nat \<Rightarrow> unit io" where
  "connect_socket pf os path deadline =
     io_bind (set_fd_flags os SetCloexec) (\<lambda>_.
     io_bind (io_sys (Sock GetStatusFlags) (os_getfl os)) (\<lambda>status_flags.
     io_bind (set_fd_flags os (SetStatusFlags (status_flags OR O_NONBLOCK pf))) (\<lambda>_.
     io_bind (io_match (io_sys (Sock (Connect path)) (os_connect os path)) (\<lambda>r. case r of
         Inr _ \<Rightarrow> io_return ()
       | Inl e \<Rightarrow>
           if e \<noteq> Io (OsError EINPROGRESS) then io_throw e
           else wait_for_connect os deadline)) (\<lambda>_.
     set_fd_flags os (SetStatusFlags status_flags)))))"

definition connect_unix :: "platform \<Rightarrow> sock_os \<Rightarrow> string \<Rightarrow> nat \<Rightarrow> unit io" where
  "connect_unix pf os path deadline =
     (if path = [] \<or> CHR 0x00 \<in> set path \<or> length path \<ge> sun_path_len pf
      then io_throw (Io (IoNew KInvalidInput ''invalid Unix socket path''))
      else if pf = MacOS \<and> sun_path_offset + length path + 1 \<ge> 256
      then io_throw (Io (IoNew KInvalidInput ''Unix socket path is too long''))
      else
        io_bind (io_sys (Sock Socket) (os_socket os)) (\<lambda>_.
        or_close (connect_socket pf os path deadline)))"

section \<open>\<open>DeadlineStream\<close>\<close>

definition remaining :: "sock_os \<Rightarrow> nat \<Rightarrow> nat io" where
  "remaining os deadline =
     io_bind (instant_now os) (\<lambda>t.
     if deadline - t = 0 then io_throw operation_timed_out else io_return (deadline - t))"

definition map_timeout :: "io_error \<Rightarrow> io_error" where
  "map_timeout e =
     (if io_kind_of e = KTimedOut \<or> io_kind_of e = KWouldBlock
      then IoNew KTimedOut ''SSH-agent operation timed out'' else e)"

definition stream_read :: "sock_os \<Rightarrow> nat \<Rightarrow> nat \<Rightarrow> string io" where
  "stream_read os deadline len =
     io_bind (remaining os deadline) (\<lambda>left.
     io_bind (io_sys (Sock (SetReadTimeout left)) (os_set_read_timeout os left)) (\<lambda>_.
     io_sys (Sock (SockRead len)) (\<lambda>tr. map_sum map_timeout (take len) (os_sock_read os len tr))))"

definition stream_write :: "sock_os \<Rightarrow> nat \<Rightarrow> string \<Rightarrow> nat io" where
  "stream_write os deadline buffer =
     io_bind (remaining os deadline) (\<lambda>left.
     io_bind (io_sys (Sock (SetWriteTimeout left)) (os_set_write_timeout os left)) (\<lambda>_.
     io_sys (Sock (SockWrite buffer)) (\<lambda>tr. map_sum map_timeout id (os_sock_write os buffer tr))))"

definition stream_flush :: "sock_os \<Rightarrow> nat \<Rightarrow> unit io" where
  "stream_flush os deadline =
     io_bind (remaining os deadline) (\<lambda>left.
     io_bind (io_sys (Sock (SetWriteTimeout left)) (os_set_write_timeout os left)) (\<lambda>_.
     io_sys (Sock SockFlush) (\<lambda>tr. map_sum map_timeout id (os_sock_flush os tr))))"

definition deadline_stream :: "sock_os \<Rightarrow> nat \<Rightarrow> read_write" where
  "deadline_stream os deadline = \<lparr>rw_read = stream_read os deadline, rw_write = stream_write os deadline,
     rw_flush = stream_flush os deadline\<rparr>"

section \<open>\<open>connect\<close>\<close>

text \<open>The timeout is a number of seconds.\<close>

definition agent_connect :: "platform \<Rightarrow> ('k, 'c) client_lib \<Rightarrow> sock_os \<Rightarrow> string \<Rightarrow> nat option \<Rightarrow> ('k, 'c) ssh_client io" where
  "agent_connect pf cl os path timeout = (case timeout of
     None \<Rightarrow> io_blocking (Agent (ClientConnect path)) (\<lambda>tr. map_option (map_err SshAgent) (client_connect cl path tr))
   | Some secs \<Rightarrow>
       io_bind (instant_now os) (\<lambda>t.
       let deadline = t + secs * nanos_per_sec in
       io_bind (connect_unix pf os path deadline) (\<lambda>_.
       io_return (client_with_read_write cl (deadline_stream os deadline)))))"

section \<open>Every operation on the stream is bounded by the deadline\<close>

text \<open>
  The contract that the three operations share: after the deadline an operation fails without touching
  the socket; before it, the socket is first given the time that is left as its timeout.
\<close>

locale deadline_operation =
  fixes clock :: "trace \<Rightarrow> nat" and deadline :: nat and arm :: "nat \<Rightarrow> event" and op :: "'a io"
  assumes expired: "deadline \<le> clock tr \<Longrightarrow> op tr = Some (Inl operation_timed_out, tr @ [ClockNow])"
    and armed: "clock tr < deadline \<Longrightarrow>
      \<exists>r rest. op tr = Some (r, tr @ [ClockNow, arm (deadline - clock tr)] @ rest) \<and> length rest \<le> 1"
begin

lemma returns: "\<exists>r tr'. op tr = Some (r, tr')"
  using expired [of tr] armed [of tr] by (cases "deadline \<le> clock tr") (auto simp: not_le)

lemma success_in_time: "op tr = Some (Inr x, tr') \<Longrightarrow> clock tr < deadline"
  using expired [of tr] by (cases "deadline \<le> clock tr") auto

lemma timeout_is_time_left:
  assumes "op tr = Some (r, tr')"
  shows "tr' = tr @ [ClockNow] \<and> r = Inl operation_timed_out \<or>
    (\<exists>n rest. tr' = tr @ [ClockNow, arm n] @ rest \<and> length rest \<le> 1 \<and> 0 < n \<and> clock tr + n = deadline)"
proof (cases "deadline \<le> clock tr")
  case True
  then show ?thesis using assms expired [of tr] by simp
next
  case False
  then obtain q rest where "op tr = Some (q, tr @ [ClockNow, arm (deadline - clock tr)] @ rest)" "length rest \<le> 1"
    using armed [of tr] by (auto simp: not_le)
  with False assms show ?thesis by (intro disjI2 exI [of _ "deadline - clock tr"] exI [of _ rest]) simp
qed

end

lemma remaining_step: "io_bind (remaining os deadline) k tr =
    (if deadline \<le> os_instant os tr then Some (Inl operation_timed_out, tr @ [ClockNow])
     else k (deadline - os_instant os tr) (tr @ [ClockNow]))"
  by (simp add: remaining_def instant_now_def io_bind_app [of "io_bind m f" for m f] io_step io_throw_def io_return_def)

interpretation read_op: deadline_operation "os_instant os" deadline "\<lambda>n. Sock (SetReadTimeout n)" "stream_read os deadline len"
  for os deadline len
proof
  show "os_instant os tr < deadline \<Longrightarrow> \<exists>r rest. stream_read os deadline len tr =
      Some (r, tr @ [ClockNow, Sock (SetReadTimeout (deadline - os_instant os tr))] @ rest) \<and> length rest \<le> 1" for tr
    by (auto simp: stream_read_def remaining_step io_bind_sys_step io_sys_app split: sum.split)
qed (simp add: stream_read_def remaining_step)

interpretation write_op: deadline_operation "os_instant os" deadline "\<lambda>n. Sock (SetWriteTimeout n)" "stream_write os deadline buf"
  for os deadline buf
proof
  show "os_instant os tr < deadline \<Longrightarrow> \<exists>r rest. stream_write os deadline buf tr =
      Some (r, tr @ [ClockNow, Sock (SetWriteTimeout (deadline - os_instant os tr))] @ rest) \<and> length rest \<le> 1" for tr
    by (auto simp: stream_write_def remaining_step io_bind_sys_step io_sys_app split: sum.split)
qed (simp add: stream_write_def remaining_step)

interpretation flush_op: deadline_operation "os_instant os" deadline "\<lambda>n. Sock (SetWriteTimeout n)" "stream_flush os deadline"
  for os deadline
proof
  show "os_instant os tr < deadline \<Longrightarrow> \<exists>r rest. stream_flush os deadline tr =
      Some (r, tr @ [ClockNow, Sock (SetWriteTimeout (deadline - os_instant os tr))] @ rest) \<and> length rest \<le> 1" for tr
    by (auto simp: stream_flush_def remaining_step io_bind_sys_step io_sys_app split: sum.split)
qed (simp add: stream_flush_def remaining_step)

text \<open>
  No read from the agent outlives the deadline. Each read returns; if it took place, the socket's
  timeout was set to exactly the time that was left, which is positive, and otherwise the deadline had
  passed, the socket was not used and the error says so. A read that succeeds was started in time.
\<close>

lemma read_within_deadline:
  "\<exists>r tr'. stream_read os deadline len tr = Some (r, tr') \<and>
     (if os_instant os tr < deadline
      then (\<exists>rest. tr' = tr @ [ClockNow, Sock (SetReadTimeout (deadline - os_instant os tr))] @ rest \<and> length rest \<le> 1)
      else r = Inl operation_timed_out \<and> tr' = tr @ [ClockNow])"
proof (cases "os_instant os tr < deadline")
  case True
  obtain r rest where "stream_read os deadline len tr =
      Some (r, tr @ [ClockNow, Sock (SetReadTimeout (deadline - os_instant os tr))] @ rest)" "length rest \<le> 1"
    using read_op.armed [OF True, of len] by blast
  with True show ?thesis by simp
next
  case False
  then show ?thesis using read_op.expired [of deadline os tr len] by (simp add: not_less)
qed

section \<open>Connecting within the deadline\<close>


lemma wait_for_connect_run:
  assumes "wait_for_connect os deadline tr = Some y" and "P ClockNow" and "P (Sock GetSockError)"
    and "\<And>ms. 1 \<le> ms \<Longrightarrow> ms < 2 ^ 31 \<Longrightarrow> P (Sock (PollConnect ms))"
  shows "\<exists>evs. snd y = tr @ evs \<and> list_all P evs"
  using assms
proof (induction os deadline tr y rule: wait_for_connect.raw_induct [rotated 1, consumes 1, case_names 1])
  case (1 rec os deadline tr y)
  have "emits P (rec os deadline)"
    by (rule emits_of_run) (rule 1(1) [OF _ 1(3,4,5)])
  moreover have "1 \<le> connect_millis n \<and> connect_millis n < 2 ^ 31" for n
    by (simp add: connect_millis_def)
  ultimately show ?case
    by (intro emits_run_bind [OF 1(2)] emits_intros) (auto simp: instant_now_def intro!: emits_intros 1(3-5))
qed

definition connect_wait_event :: "event \<Rightarrow> bool" where
  "connect_wait_event ev = (case ev of ClockNow \<Rightarrow> True | Sock GetSockError \<Rightarrow> True
     | Sock (PollConnect ms) \<Rightarrow> 1 \<le> ms \<and> ms < 2 ^ 31 | _ \<Rightarrow> False)"

lemma emits_wait_for_connect [emits_intros]: "emits connect_wait_event (wait_for_connect os deadline)"
  by (rule emits_of_run, erule wait_for_connect_run) (simp_all add: connect_wait_event_def)

lemma total_wait_for_connect:
  assumes "\<forall>tr. n \<le> length tr \<longrightarrow> deadline \<le> os_instant os tr"
  shows "wait_for_connect os deadline tr \<noteq> None"
proof (induction "n - length tr" arbitrary: tr rule: less_induct)
  case less
  show ?case
  proof (cases "deadline - os_instant os tr = 0")
    case True
    then show ?thesis by (subst wait_for_connect.simps) (simp add: instant_now_def io_step io_throw_def)
  next
    case False
    then have early: "length tr < n" using assms by (metis diff_is_0_eq not_le)
    have "wait_for_connect os deadline (tr @ [ClockNow, ev]) \<noteq> None" for ev
      by (rule less) (use early in simp)
    then show ?thesis
      using False by (subst wait_for_connect.simps)
        (auto simp: instant_now_def io_step io_throw_def io_return_def split: sum.split option.split)
  qed
qed


lemma emits_connect_socket: "emits (\<lambda>ev. ev \<noteq> Sock CloseSocket \<and> ev \<noteq> Sock Socket) (connect_socket pf os path deadline)"
proof -
  have "emits (\<lambda>ev. ev \<noteq> Sock CloseSocket \<and> ev \<noteq> Sock Socket) (wait_for_connect os deadline)"
    by (rule emits_mono [OF emits_wait_for_connect]) (auto simp: connect_wait_event_def)
  then show ?thesis
    unfolding connect_socket_def set_fd_flags_def by (intro emits_intros) auto
qed

text \<open>
  C21: the descriptor does not leak and is not closed twice: if the socket was created and the
  connection then fails, it has been closed exactly once; if the connection succeeds, or the socket
  could not be created, it has not been closed.
\<close>

theorem socket_closed_once:
  assumes "connect_unix pf os path deadline tr = Some (r, tr @ evs)"
  shows "count_list evs (Sock CloseSocket) =
    (if \<not> is_ok r \<and> Sock Socket \<in> set evs \<and> is_ok (os_socket os tr) then 1 else 0)"
proof (cases "(path = [] \<or> CHR 0x00 \<in> set path \<or> length path \<ge> sun_path_len pf) \<or>
    (pf = MacOS \<and> sun_path_offset + length path + 1 \<ge> 256)")
  case True
  then have "evs = []" using assms by (auto simp: connect_unix_def split: if_splits)
  then show ?thesis by simp
next
  case False
  then have body: "io_bind (io_sys (Sock Socket) (os_socket os)) (\<lambda>_. or_close (connect_socket pf os path deadline)) tr = Some (r, tr @ evs)"
    using assms by (auto simp: connect_unix_def split: if_splits)
  show ?thesis
  proof (cases "os_socket os tr")
    case (Inl e)
    with body have "evs = [Sock Socket]" by (auto simp: io_step)
    then show ?thesis by (simp add: Inl)
  next
    case (Inr u)
    with body have "or_close (connect_socket pf os path deadline) (tr @ [Sock Socket]) = Some (r, tr @ evs)"
      by (simp add: io_step)
    then obtain q tr1 where conn: "connect_socket pf os path deadline (tr @ [Sock Socket]) = Some (q, tr1)"
      and fin: "(case q of Inr x \<Rightarrow> io_return x
         | Inl e \<Rightarrow> io_bind (io_emit (Sock CloseSocket)) (\<lambda>_. io_throw e)) tr1 = Some (r, tr @ evs)"
      by (auto simp: or_close_def io_match_Some)
    obtain cvs where cvs: "tr1 = (tr @ [Sock Socket]) @ cvs"
        "list_all (\<lambda>ev. ev \<noteq> Sock CloseSocket \<and> ev \<noteq> Sock Socket) cvs"
      using emitsD [OF emits_connect_socket conn] by blast
    have none: "count_list cvs (Sock CloseSocket) = 0"
      using cvs(2) by (auto simp: count_list_0_iff list_all_iff)
    show ?thesis
    proof (cases q)
      case (Inl e)
      with fin cvs(1) have "evs = Sock Socket # cvs @ [Sock CloseSocket]" "r = Inl e" by (auto simp: io_step)
      then show ?thesis using none Inr by simp
    next
      case (Inr x)
      with fin cvs(1) have "evs = Sock Socket # cvs" "r = Inr x" by auto
      then show ?thesis using none by simp
    qed
  qed
qed

lemma agent_connect_returns:
  assumes "clock_progresses (os_instant os)"
  shows "\<exists>r tr'. agent_connect pf cl os path (Some secs) tr = Some (r, tr')"
proof -
  have "total_io (wait_for_connect os deadline)" for deadline
    using assms total_wait_for_connect unfolding clock_progresses_def total_io_def by metis
  then have "total_io (agent_connect pf cl os path (Some secs))"
    unfolding agent_connect_def connect_unix_def or_close_def connect_socket_def set_fd_flags_def instant_now_def Let_def
    by (simp only: option.case, intro total_intros)
  then show ?thesis by (meson total_ioE)
qed

text \<open>
  C22: connecting with a timeout returns. If the clock passes every instant then \<open>connect\<close> with a timeout
  returns a client or an error, however the peer and the signals that interrupt the wait behave. Without a
  timeout the connection is left to \<open>Client::connect\<close>, which may wait for ever: of that nothing is claimed.
\<close>

theorem connect_returns:
  assumes "clock_progresses (os_instant os)"
  shows "\<exists>r tr'. agent_connect pf cl os path (Some secs) tr = Some (r, tr')"
  using assms by (rule agent_connect_returns)

section \<open>The stream ends in time\<close>

text \<open>A stream whose operations return, and from some point on only report that the deadline has passed.\<close>

definition ends_in_time :: "read_write \<Rightarrow> bool" where
  "ends_in_time rw \<longleftrightarrow>
     (\<forall>len. total_io (rw_read rw len)) \<and> (\<forall>buf. total_io (rw_write rw buf)) \<and> total_io (rw_flush rw) \<and>
     (\<exists>n. \<forall>tr. n \<le> length tr \<longrightarrow>
        (\<forall>len. rw_read rw len tr = Some (Inl operation_timed_out, tr @ [ClockNow])) \<and>
        (\<forall>buf. rw_write rw buf tr = Some (Inl operation_timed_out, tr @ [ClockNow])) \<and>
        rw_flush rw tr = Some (Inl operation_timed_out, tr @ [ClockNow]))"

lemma deadline_stream_simps [simp]:
  "rw_read (deadline_stream os deadline) = stream_read os deadline"
  "rw_write (deadline_stream os deadline) = stream_write os deadline"
  "rw_flush (deadline_stream os deadline) = stream_flush os deadline"
  by (simp_all add: deadline_stream_def)

lemma deadline_stream_ends:
  assumes "clock_progresses (os_instant os)"
  shows "ends_in_time (deadline_stream os deadline)"
proof -
  obtain n where "\<forall>tr. n \<le> length tr \<longrightarrow> deadline \<le> os_instant os tr"
    using assms unfolding clock_progresses_def by blast
  then show ?thesis
    unfolding ends_in_time_def total_io_def deadline_stream_simps
    using read_op.returns write_op.returns flush_op.returns
    by (auto simp: read_op.expired write_op.expired flush_op.expired intro!: exI [of _ n])
qed

section \<open>Concrete instances\<close>

text \<open>A peer that accepts at the second poll, and then reports no error; each event takes a second.\<close>

definition example_sock :: sock_os where
  "example_sock = \<lparr>os_socket = (\<lambda>_. Inr ()), os_fcntl = (\<lambda>_ _. Inr ()), os_getfl = (\<lambda>_. Inr 2),
     os_connect = (\<lambda>_ _. Inl (OsError EINPROGRESS)),
     os_poll_connect = (\<lambda>tr. if length tr \<ge> 8 then Inr 1 else Inl (OsError EINTR)),
     os_so_error = (\<lambda>_. Inr None), os_instant = (\<lambda>tr. length tr * nanos_per_sec),
     os_set_read_timeout = (\<lambda>_ _. Inr ()), os_set_write_timeout = (\<lambda>_ _. Inr ()),
     os_sock_read = (\<lambda>_ _. Inr []), os_sock_write = (\<lambda>_ _. Inr 0), os_sock_flush = (\<lambda>_. Inr ())\<rparr>"



lemma socket_closed_once_witness:
  "count_list [Sock Socket, Sock (Fcntl SetCloexec), Sock CloseSocket] (Sock CloseSocket) = 1"
proof -
  have "connect_unix Linux (example_sock\<lparr>os_fcntl := \<lambda>_ _. Inl (OsError EINVAL)\<rparr>) ''/a'' 0 [] =
      Some (Inl (Io (OsError EINVAL)), [] @ [Sock Socket, Sock (Fcntl SetCloexec), Sock CloseSocket])"
    by (simp add: connect_unix_def or_close_def connect_socket_def set_fd_flags_def example_sock_def
      io_step io_match_app io_bind_app io_sys_app io_emit_def io_ask_def io_call_def io_return_def io_throw_def)
  from socket_closed_once [OF this] show ?thesis by (simp add: example_sock_def)
qed

definition example_client_lib :: "(nat, nat) client_lib" where
  "example_client_lib = \<lparr>client_connect = \<lambda>_ _. None, client_with_read_write = \<lambda>_.
     \<lparr>client_list_all_identities = io_return [], client_sign = \<lambda>_ _. io_throw SignatureError,
      client_sign_with_ref = \<lambda>_ _. io_throw SignatureError\<rparr>\<rparr>"

lemma connect_returns_witness:
  "\<exists>r tr'. agent_connect Linux example_client_lib example_sock ''/a'' (Some 30) [] = Some (r, tr')"
proof (rule connect_returns)
  have "b \<le> length tr * nanos_per_sec" if "b \<le> length tr" for b and tr :: trace
    using that by (simp add: nanos_per_sec_def)
  then show "clock_progresses (os_instant example_sock)"
    by (auto simp: clock_progresses_def example_sock_def)
qed

end
