(* ===== verification/Logging.thy ===== *)
theory Logging imports Paths RustStr begin

text \<open>
  \<open>logging.rs\<close>: the global state of the logger, its initialization, the scope of the debug flag, and
  the lines that are written. The crates \<open>syslog\<close> and \<open>log\<close> are not part of the repository: opening the
  connection and the layout of a line (\<open>Formatter3164::format\<close>) are parameters, the record \<open>log_os\<close>; the
  logger that \<open>log::set_boxed_logger\<close> installs is part of the state. A poisoned lock is used as it is,
  so the locks leave no trace in the model: each function runs under its lock. \<open>LogThreads\<close> has the
  steps of several threads around the locks.
\<close>

section \<open>Escaping\<close>

text \<open>\<open>{:x}\<close>\<close>

definition hex_char :: "nat \<Rightarrow> nat" where
  "hex_char d = (if d < 10 then 48 + d else 87 + d)"

fun show_hex :: "nat \<Rightarrow> nat list" where
  "show_hex n = (if n < 16 then [hex_char n] else show_hex (n div 16) @ [hex_char (n mod 16)])"

declare show_hex.simps [simp del]

text \<open>The arms of the \<open>match\<close>, on code points: 92 is the backslash.\<close>

definition escape_char :: "nat \<Rightarrow> nat list" where
  "escape_char c =
     (if c = 92 then [92, 92]
      else if c = 10 then [92, 110]
      else if c = 13 then [92, 114]
      else if c = 9 then [92, 116]
      else if is_control c then [92, 117, 123] @ show_hex c @ [125]
      else [c])"

definition escape_log_value :: "string \<Rightarrow> string" where
  "escape_log_value v = of_chars (concat (map escape_char (chars v)))"

section \<open>The formatter\<close>

datatype facility = LOG_AUTHPRIV | OtherFacility nat

datatype severity = LOG_ERR | LOG_WARNING | LOG_INFO | LOG_DEBUG

record formatter3164 =
  f3164_facility :: facility
  f3164_hostname :: "string option"
  f3164_process :: string
  f3164_pid :: nat

record prefix_formatter =
  pf_inner :: formatter3164
  pf_prefix :: string

record log_os =
  os_syslog_unix :: "prefix_formatter \<Rightarrow> string + unit"
  os_current_exe :: "io_error + string"
  os_process_id :: nat
  os_format_3164 :: "formatter3164 \<Rightarrow> severity \<Rightarrow> string \<Rightarrow> string"
  os_flush_backend :: "string list \<Rightarrow> io_error + unit"

definition prefix_format :: "log_os \<Rightarrow> prefix_formatter \<Rightarrow> severity \<Rightarrow> string \<Rightarrow> string" where
  "prefix_format os pf severity message =
     (let message = escape_log_value message in
      os_format_3164 os (pf_inner pf) severity (pf_prefix pf @ message))"

definition file_name :: "string \<Rightarrow> string option" where
  "file_name path = (case rev (components path) of Normal s # _ \<Rightarrow> Some s | _ \<Rightarrow> None)"

definition process_name :: "log_os \<Rightarrow> string result" where
  "process_name os =
     and_then (map_err Io (os_current_exe os)) (\<lambda>exe.
     and_then (ok_or (Anyhow ''no filename'' []) (file_name exe)) (\<lambda>name.
     Inr (to_string_lossy name)))"

definition new_prefix_formatter :: "log_os \<Rightarrow> facility \<Rightarrow> string \<Rightarrow> prefix_formatter" where
  "new_prefix_formatter os facility pam_service =
     (let inner = \<lparr>f3164_facility = facility, f3164_hostname = None,
        f3164_process = (case process_name os of Inr name \<Rightarrow> name | Inl _ \<Rightarrow> ''unknown''),
        f3164_pid = os_process_id os\<rparr> in
      \<lparr>pf_inner = inner,
       pf_prefix = ''pam_ssh_agent('' @ escape_log_value pam_service @ '':auth): ''\<rparr>)"

section \<open>The state\<close>

datatype log_level = LError | LWarn | LInfo | LDebug | LTrace

fun level_rank :: "log_level \<Rightarrow> nat" where
  "level_rank LError = 1"
| "level_rank LWarn = 2"
| "level_rank LInfo = 3"
| "level_rank LDebug = 4"
| "level_rank LTrace = 5"

instantiation log_level :: linorder begin

definition less_eq_log_level :: "log_level \<Rightarrow> log_level \<Rightarrow> bool" where
  "less_eq_log_level a b \<longleftrightarrow> level_rank a \<le> level_rank b"

definition less_log_level :: "log_level \<Rightarrow> log_level \<Rightarrow> bool" where
  "less_log_level a b \<longleftrightarrow> level_rank a < level_rank b"

instance
proof
  show "a = b" if "a \<le> b" "b \<le> a" for a b :: log_level
    using that by (cases a; cases b) (simp_all add: less_eq_log_level_def)
qed (auto simp: less_eq_log_level_def less_log_level_def)

end

text \<open>\<open>LOG_LOCK\<close>, \<open>REQUEST_DEBUG\<close>, and of the crate \<open>log\<close> the installed logger and the maximal level; last the lines sent so far.\<close>

record log_state =
  log_lock :: bool
  request_debug :: bool
  installed_logger :: "prefix_formatter option"
  max_level :: "log_level option"
  log_sent :: "string list"

definition init_impl :: "log_os \<Rightarrow> string \<Rightarrow> log_state \<Rightarrow> unit result \<times> log_state" where
  "init_impl os pam_service st =
     (let pf = new_prefix_formatter os LOG_AUTHPRIV pam_service in
      case os_syslog_unix os pf of
        Inl description \<Rightarrow> (Inl (Anyhow ''Failed to set up log: {}'' [Str description]), st)
      | Inr _ \<Rightarrow>
          if installed_logger st \<noteq> None then (Inl (Anyhow ''logger already set'' []), st)
          else (Inr (), st\<lparr>installed_logger := Some pf, max_level := Some LDebug\<rparr>))"

definition init_logging :: "log_os \<Rightarrow> string \<Rightarrow> log_state \<Rightarrow> unit result \<times> log_state" where
  "init_logging os pam_service st =
     (if log_lock st then (Inr (), st)
      else case init_impl os pam_service st of
        (Inl e, st') \<Rightarrow> (Inl e, st')
      | (Inr _, st') \<Rightarrow> (Inr (), st'\<lparr>log_lock := True\<rparr>))"

text \<open>
  The closure acts on the state and ends in some way, of type \<open>'r\<close>: with a value or a panic. The drop of
  \<open>Reset\<close> follows in either case.
\<close>

definition with_debug :: "bool \<Rightarrow> (log_state \<Rightarrow> 'r \<times> log_state) \<Rightarrow> log_state \<Rightarrow> 'r \<times> log_state" where
  "with_debug enabled call st =
     (let previous = request_debug st; (r, st') = call (st\<lparr>request_debug := enabled\<rparr>) in
      (r, st'\<lparr>request_debug := previous\<rparr>))"

section \<open>\<open>PrefixWrappingLogger\<close>\<close>

definition logger_enabled :: "log_state \<Rightarrow> log_level \<Rightarrow> bool" where
  "logger_enabled st level \<longleftrightarrow> level \<le> LInfo \<or> level = LDebug \<and> request_debug st"

fun severity_of :: "log_level \<Rightarrow> severity" where
  "severity_of LError = LOG_ERR"
| "severity_of LWarn = LOG_WARNING"
| "severity_of LInfo = LOG_INFO"
| "severity_of LDebug = LOG_DEBUG"
| "severity_of LTrace = LOG_DEBUG"

definition logger_log :: "log_os \<Rightarrow> prefix_formatter \<Rightarrow> log_level \<Rightarrow> string \<Rightarrow> log_state \<Rightarrow> log_state" where
  "logger_log os pf level message st =
     st\<lparr>log_sent := log_sent st @ [prefix_format os pf (severity_of level) message]\<rparr>"

text \<open>The result of flushing the backend is dropped, and nothing else changes.\<close>

definition logger_flush :: "log_os \<Rightarrow> log_state \<Rightarrow> log_state" where
  "logger_flush os st = (case os_flush_backend os (log_sent st) of Inl _ \<Rightarrow> st | Inr _ \<Rightarrow> st)"

section \<open>An escaped value can be read back and has no control character\<close>

text \<open>Reading the escapes.\<close>

definition hex_value :: "nat \<Rightarrow> nat option" where
  "hex_value c = (if 48 \<le> c \<and> c < 58 then Some (c - 48) else if 97 \<le> c \<and> c < 103 then Some (c - 87) else None)"

fun parse_hex :: "nat \<Rightarrow> nat list \<Rightarrow> (nat \<times> nat list) option" where
  "parse_hex acc [] = None"
| "parse_hex acc (c # cs) =
     (if c = 125 then Some (acc, cs)
      else case hex_value c of None \<Rightarrow> None | Some d \<Rightarrow> parse_hex (acc * 16 + d) cs)"

fun read_escape :: "nat list \<Rightarrow> (nat \<times> nat list) option" where
  "read_escape [] = None"
| "read_escape (c # cs) =
     (if c = 92 then Some (92, cs)
      else if c = 110 then Some (10, cs)
      else if c = 114 then Some (13, cs)
      else if c = 116 then Some (9, cs)
      else if c = 117 \<and> cs \<noteq> [] \<and> hd cs = 123 then parse_hex 0 (tl cs)
      else None)"

lemma parse_hex_shorter: "parse_hex acc cs = Some (n, ds) \<Longrightarrow> length ds < length cs"
  by (induction acc cs rule: parse_hex.induct) (auto split: if_splits option.splits)

lemma read_escape_shorter: "read_escape cs = Some (n, ds) \<Longrightarrow> length ds < length cs"
  by (cases cs) (auto split: if_splits dest!: parse_hex_shorter)

function unescape :: "nat list \<Rightarrow> nat list option" where
  "unescape [] = Some []"
| "unescape (c # cs) =
     (if c \<noteq> 92 then map_option (\<lambda>ds. c # ds) (unescape cs)
      else case read_escape cs of None \<Rightarrow> None | Some (d, ds) \<Rightarrow> map_option (\<lambda>es. d # es) (unescape ds))"
  by pat_completeness auto
termination
  by (relation "measure length") (auto dest!: read_escape_shorter)

lemma hex_value_char: "d < 16 \<Longrightarrow> hex_value (hex_char d) = Some d"
  by (simp add: hex_value_def hex_char_def)

lemma hex_char_range: "d < 16 \<Longrightarrow> 48 \<le> hex_char d \<and> hex_char d < 103"
  by (simp add: hex_char_def)

lemma show_hex_range: "c \<in> set (show_hex n) \<Longrightarrow> 48 \<le> c \<and> c < 103"
proof (induction n arbitrary: c rule: show_hex.induct)
  case (1 n)
  then show ?case
    using hex_char_range [of n] hex_char_range [of "n mod 16"]
    by (cases "n < 16") (auto simp: show_hex.simps [of n])
qed

lemma parse_show_hex: "parse_hex 0 (show_hex n @ cs) = parse_hex n cs"
proof (induction n arbitrary: cs rule: show_hex.induct)
  case (1 n)
  have digit: "parse_hex acc (hex_char d # cs) = parse_hex (acc * 16 + d) cs" if "d < 16" for acc d cs
    using that hex_char_range [OF that] by (simp add: hex_value_char del: parse_hex.simps(1))
  note [simp del] = parse_hex.simps(2)
  show ?case
  proof (cases "n < 16")
    case True
    then show ?thesis by (simp add: show_hex.simps [of n] digit)
  next
    case False
    then show ?thesis by (simp add: show_hex.simps [of n] 1 digit)
  qed
qed

lemma unescape_escape_char: "unescape (escape_char c @ cs) = map_option (\<lambda>ds. c # ds) (unescape cs)"
  by (simp add: escape_char_def parse_show_hex)

text \<open>Escaping is an encoding, and \<open>unescape\<close> decodes it.\<close>

interpretation log_text: decodable "\<lambda>cs. concat (map escape_char cs)" unescape "\<lambda>_. True"
proof
  show "unescape (concat (map escape_char cs)) = Some cs" for cs
    by (induction cs) (simp_all add: unescape_escape_char)
qed simp

lemma escape_char_printable: "d \<in> set (escape_char c) \<Longrightarrow> \<not> is_control d"
  by (auto simp: escape_char_def is_control_def split: if_splits dest: show_hex_range)

lemma escape_char_scalar: "scalar_value c \<Longrightarrow> d \<in> set (escape_char c) \<Longrightarrow> scalar_value d"
  by (auto simp: escape_char_def scalar_value_def split: if_splits dest: show_hex_range)

lemma escaped_scalar: "list_all scalar_value (concat (map escape_char (chars v)))"
  using chars_scalar [of v] escape_char_scalar by (auto simp: list_all_iff)

lemma chars_escape_log_value: "chars (escape_log_value v) = concat (map escape_char (chars v))"
  by (simp add: escape_log_value_def chars_of_chars escaped_scalar)

lemma escape_log_value_valid: "utf8_valid (escape_log_value v)"
  by (simp add: escape_log_value_def utf8_valid_of_chars escaped_scalar)

lemma escape_log_value_printable: "\<forall>c\<in>set (chars (escape_log_value v)). \<not> is_control c"
  by (auto simp: chars_escape_log_value dest: escape_char_printable)

text \<open>
  C31: escaping loses nothing. What \<open>escape_log_value\<close> writes can be read back to exactly the value it was
  given, so two different values never look the same in the log.
\<close>

theorem escape_round_trip:
  assumes "utf8_valid v"
  shows "map_option of_chars (unescape (chars (escape_log_value v))) = Some v"
  using assms by (simp add: chars_escape_log_value log_text.dec_enc list_all_iff of_chars_chars)

lemma escape_round_trip_witness:
  "map_option of_chars (unescape (chars (escape_log_value [CHR 0x5C, CHR ''n'', CHR 0x0A, CHR 0x07]))) =
     Some [CHR 0x5C, CHR ''n'', CHR 0x0A, CHR 0x07]"
proof (rule escape_round_trip)
  show "utf8_valid [CHR 0x5C, CHR ''n'', CHR 0x0A, CHR 0x07]"
    by (rule ascii_utf8_valid) (simp add: ascii_def)
qed

text \<open>
  The text of a line, that is the prefix with the service name and the message, holds no control character, so no line
  break, whatever the service and the message are. The rest of the line is the formatter's.
\<close>

lemma prefix_line_clean:
  "\<exists>text. prefix_format os (new_prefix_formatter os' LOG_AUTHPRIV service) severity message =
       os_format_3164 os (pf_inner (new_prefix_formatter os' LOG_AUTHPRIV service)) severity text \<and>
     utf8_valid text \<and> (\<forall>c\<in>set (chars text). \<not> is_control c)"
proof -
  have lit: "utf8_valid s \<and> chars s = byte_values s" if "ascii s" for s
    using that by (simp add: ascii_utf8_valid chars_ascii)
  have "ascii ''pam_ssh_agent(''" "ascii '':auth): ''" by (simp_all add: ascii_def)
  note parts = lit [OF this(1)] lit [OF this(2)] escape_log_value_valid escape_log_value_printable
  let ?text = "''pam_ssh_agent('' @ escape_log_value service @ '':auth): '' @ escape_log_value message"
  have "chars ?text = chars ''pam_ssh_agent('' @ chars (escape_log_value service) @ chars '':auth): '' @
      chars (escape_log_value message)"
    using parts by (simp only: chars_append utf8_valid_append)
  moreover have "\<forall>c\<in>set (byte_values ''pam_ssh_agent('') \<union> set (byte_values '':auth): ''). \<not> is_control c"
    by (simp add: is_control_def)
  ultimately have "\<forall>c\<in>set (chars ?text). \<not> is_control c"
    using parts by (auto simp del: byte_values_simps)
  moreover have "utf8_valid ?text"
    using parts by (simp only: utf8_valid_append)
  ultimately show ?thesis
    by (intro exI [of _ ?text]) (simp add: prefix_format_def new_prefix_formatter_def Let_def)
qed

section \<open>The state\<close>

text \<open>
  Initialization happens once. A failure changes nothing, so the next call tries again; after a
  success every later call succeeds and changes nothing, also for another service.
\<close>

lemma init_logging_once:
  "case init_logging os service st of
     (Inl _, st') \<Rightarrow> st' = st
   | (Inr _, st') \<Rightarrow> log_lock st' \<and> request_debug st' = request_debug st \<and>
       init_logging os' service' st' = (Inr (), st')"
  by (auto simp: init_logging_def init_impl_def Let_def split: sum.splits)

lemma with_debug_restores: "request_debug (snd (with_debug enabled call st)) = request_debug st"
  by (simp add: with_debug_def split_beta)

lemma with_debug_nested: "with_debug a (with_debug b call) st = with_debug b call st"
  if "\<And>s. request_debug (snd (call s)) = request_debug s"
  by (simp add: with_debug_def split_beta)

text \<open>
  C39: the debug flag does not silence \<open>log\<close>. When the flag is off the logger says that it is not enabled for
  debug records, yet its \<open>log\<close> writes them: it does not ask \<open>enabled\<close>, and the maximal level set at
  initialization lets them through.
\<close>

theorem debug_records_not_filtered:
  assumes "init_logging os service st = (Inr (), st')" and "\<not> log_lock st" and "\<not> request_debug st"
  shows "\<exists>pf. installed_logger st' = Some pf \<and> max_level st' = Some LDebug \<and>
    \<not> logger_enabled st' LDebug \<and>
    log_sent (logger_log os pf LDebug message st') = log_sent st @ [prefix_format os pf LOG_DEBUG message]"
  using assms
  by (auto simp: init_logging_def init_impl_def Let_def logger_log_def logger_enabled_def less_eq_log_level_def
      split: sum.splits if_splits)

definition example_log_os :: log_os where
  "example_log_os = \<lparr>os_syslog_unix = (\<lambda>_. Inr ()), os_current_exe = Inr ''/usr/bin/sudo'', os_process_id = 7,
     os_format_3164 = (\<lambda>_ _ text. text), os_flush_backend = (\<lambda>_. Inr ())\<rparr>"

definition fresh_log_state :: log_state where
  "fresh_log_state = \<lparr>log_lock = False, request_debug = False, installed_logger = None, max_level = None, log_sent = []\<rparr>"

lemma debug_records_not_filtered_witness:
  "\<exists>pf st'. installed_logger st' = Some pf \<and> \<not> logger_enabled st' LDebug \<and>
     log_sent (logger_log example_log_os pf LDebug ''secret'' st') = [prefix_format example_log_os pf LOG_DEBUG ''secret'']"
proof -
  have "init_logging example_log_os ''sudo'' fresh_log_state = (Inr (), snd (init_logging example_log_os ''sudo'' fresh_log_state))"
    by (simp add: init_logging_def init_impl_def example_log_os_def fresh_log_state_def Let_def)
  from debug_records_not_filtered [OF this, of "''secret''"] show ?thesis
    by (auto simp: fresh_log_state_def)
qed

end
