(* ===== verification/PolicySpec.thy ===== *)
theory PolicySpec imports KeyPolicy begin

text \<open>
  What the filter of \<open>filter.rs\<close> is, as a specification: the sources that are configured, the texts that are read from
  them one after the other, each at its place in the run, and what the entries of these texts authorize. The
  contract of \<open>new_with_mode\<close> is that it refines this specification.
\<close>

section \<open>Reading the sources\<close>

datatype policy_source = KeyFile string | AuthorityFile string | HelperOutput string uid

text \<open>The whole text of a file, read from the trace \<open>tr\<close>, in strict mode under the strict rules.\<close>

definition reads_text :: "fs_os \<Rightarrow> policy_mode \<Rightarrow> string \<Rightarrow> trace \<Rightarrow> string \<Rightarrow> trace \<Rightarrow> bool" where
  "reads_text fs mode filename tr buf tr' \<longleftrightarrow> utf8_valid filename \<and>
     (case mode of
        Legacy \<Rightarrow> os_read_path fs filename tr = Inr buf \<and> utf8_valid buf \<and> tr' = tr @ [Fs (ReadToString filename)]
      | Strict \<Rightarrow> strict_read fs filename 0 tr buf tr')"

text \<open>The output of the helper, in strict mode of the file that its checked path leads to, without descendants.\<close>

definition helper_text :: "fs_os \<Rightarrow> proc_os \<Rightarrow> policy_mode \<Rightarrow> string \<Rightarrow> string \<Rightarrow> uid \<Rightarrow> trace \<Rightarrow> string \<Rightarrow> trace \<Rightarrow> bool" where
  "helper_text fs proc mode caller command uid tr buf tr' \<longleftrightarrow>
     (\<exists>image t.
        (case mode of Legacy \<Rightarrow> image = command \<and> t = tr
         | Strict \<Rightarrow> validate_trust_path fs command 0 tr = Some (Inr image, t) \<and> utf8_valid image) \<and>
        run_inner proc [image, caller] MAX_DURATION uid None (mode = Strict) t = Some (Inr buf, tr'))"

text \<open>
  The texts in the order of the sources, each with the mark of a file of authorities. A missing file of plain keys
  is passed over in legacy mode, and only there.
\<close>

inductive loads :: "fs_os \<Rightarrow> proc_os \<Rightarrow> policy_mode \<Rightarrow> string \<Rightarrow> policy_source list \<Rightarrow> trace \<Rightarrow> (bool \<times> string) list \<Rightarrow> trace \<Rightarrow> bool"
  for fs proc mode caller where
  no_more: "loads fs proc mode caller [] tr [] tr"
| key_file: "reads_text fs mode f tr buf t \<Longrightarrow> loads fs proc mode caller srcs t texts tr' \<Longrightarrow>
    loads fs proc mode caller (KeyFile f # srcs) tr ((False, buf) # texts) tr'"
| missing: "mode = Legacy \<Longrightarrow> os_read_path fs f tr = Inl e \<Longrightarrow> io_kind_of e = KNotFound \<Longrightarrow>
    loads fs proc mode caller srcs (tr @ [Fs (ReadToString f)]) texts tr' \<Longrightarrow>
    loads fs proc mode caller (KeyFile f # srcs) tr texts tr'"
| authority_file: "reads_text fs mode f tr buf t \<Longrightarrow> loads fs proc mode caller srcs t texts tr' \<Longrightarrow>
    loads fs proc mode caller (AuthorityFile f # srcs) tr ((True, buf) # texts) tr'"
| helper: "helper_text fs proc mode caller command uid tr buf t \<Longrightarrow> loads fs proc mode caller srcs t texts tr' \<Longrightarrow>
    loads fs proc mode caller (HelperOutput command uid # srcs) tr ((False, buf) # texts) tr'"

inductive_simps loads_Nil: "loads fs proc mode caller [] tr texts tr'"
inductive_simps loads_KeyFile: "loads fs proc mode caller (KeyFile f # srcs) tr texts tr'"
inductive_simps loads_AuthorityFile: "loads fs proc mode caller (AuthorityFile f # srcs) tr texts tr'"
inductive_simps loads_HelperOutput: "loads fs proc mode caller (HelperOutput command uid # srcs) tr texts tr'"

lemmas loads_simps = loads_Nil loads_KeyFile loads_AuthorityFile loads_HelperOutput

text \<open>The sources that the arguments configure; the helper runs for its own user or the calling user.\<close>

definition configured :: "host \<Rightarrow> string \<Rightarrow> string option \<Rightarrow> string option \<Rightarrow> string option \<Rightarrow> string \<Rightarrow> policy_source list \<Rightarrow> bool" where
  "configured hst file ca_file cmd cmd_user caller srcs \<longleftrightarrow>
     (\<exists>helper. (case cmd of None \<Rightarrow> helper = []
        | Some command \<Rightarrow> \<exists>uid. get_uid hst (case cmd_user of Some u \<Rightarrow> u | None \<Rightarrow> caller) = Inr uid \<and>
            helper = [HelperOutput command uid]) \<and>
      srcs = KeyFile file # (case ca_file of None \<Rightarrow> [] | Some f \<Rightarrow> [AuthorityFile f]) @ helper)"

section \<open>What the texts authorize\<close>

text \<open>In strict mode every line parses, with no options but \<open>cert-authority\<close>, and there are at most 1024.\<close>

definition policy_ok :: "('k, 'c) ssh_key \<Rightarrow> policy_mode \<Rightarrow> string \<Rightarrow> bool" where
  "policy_ok lib mode buf \<longleftrightarrow> (mode = Strict \<longrightarrow>
     (\<exists>entries. authorized_keys lib buf = map Inr entries \<and> list_all (\<lambda>e. strict_options (entry_opts e)) entries \<and>
        length entries \<le> MAX_POLICY_ENTRIES))"

definition authorizes :: "('k, 'c) ssh_key \<Rightarrow> (bool \<times> string) list \<Rightarrow> 'k authorized \<Rightarrow> bool" where
  "authorizes lib texts a \<longleftrightarrow>
     (\<exists>(ca, buf)\<in>set texts. \<exists>entry. Inr entry \<in> set (authorized_keys lib buf) \<and> a = classify ca entry)"

definition policy_filter :: "('k, 'c) ssh_key \<Rightarrow> policy_mode \<Rightarrow> (bool \<times> string) list \<Rightarrow> 'k identity_filter" where
  "policy_filter lib mode texts = \<lparr>flt_keys = {k. authorizes lib texts (Key k)},
     flt_ca_keys = {k. authorizes lib texts (CAKey k)}, flt_strict = (mode = Strict)\<rparr>"

text \<open>An entry of one of the texts names the identity, in the class that the text gives it.\<close>

definition named_by :: "('k, 'c) ssh_key \<Rightarrow> (bool \<times> string) list \<Rightarrow> ('k, 'c) identity \<Rightarrow> bool" where
  "named_by lib texts idn \<longleftrightarrow> (\<exists>(ca, buf)\<in>set texts. \<exists>entry. Inr entry \<in> set (authorized_keys lib buf) \<and>
     (case idn of
        PublicKey k \<Rightarrow> entry_key entry = k \<and> \<not> ca \<and> cert_authority \<notin> set (entry_opts entry)
      | Certificate c \<Rightarrow> entry_key entry = cert_signature_key lib c \<and> (ca \<or> cert_authority \<in> set (entry_opts entry))))"

lemma policy_filter_trusts: "identity_trusted lib (policy_filter lib mode texts) idn \<longleftrightarrow> named_by lib texts idn"
  by (cases idn)
    (simp_all add: policy_filter_def authorizes_def named_by_def eq_commute [of "entry_key e" for e] conj_ac)

lemma authorizes_simps:
  "authorizes lib [] a \<longleftrightarrow> False"
  "authorizes lib (xs @ ys) a \<longleftrightarrow> authorizes lib xs a \<or> authorizes lib ys a"
  by (auto simp: authorizes_def)

section \<open>The refinement\<close>

definition policy_entries :: "('k, 'c) ssh_key \<Rightarrow> bool \<Rightarrow> string \<Rightarrow> 'k authorized list" where
  "policy_entries lib ca buf = List.map_filter (legacy_entry ca) (authorized_keys lib buf)"

lemma map_filter_Inr: "List.map_filter (legacy_entry ca) (map Inr entries) = map (classify ca) entries"
  by (induction entries) (simp_all add: map_filter_simps legacy_entry_classify)

lemma parse_policy_Inr:
  "parse_policy lib buf what ca mode = Inr as \<longleftrightarrow> policy_ok lib mode buf \<and> as = policy_entries lib ca buf"
  by (cases mode) (auto simp: parse_policy_entries strict_entries_ok policy_ok_def policy_entries_def map_filter_Inr)

lemma legacy_entry_Some: "legacy_entry ca ak = Some a \<longleftrightarrow> (\<exists>entry. ak = Inr entry \<and> a = classify ca entry)"
  by (cases ak) (auto simp: legacy_entry_classify)

lemma set_policy_entries: "a \<in> set (policy_entries lib ca buf) \<longleftrightarrow> authorizes lib [(ca, buf)] a"
proof -
  have "a \<in> set (policy_entries lib ca buf) \<longleftrightarrow> (\<exists>ak\<in>set (authorized_keys lib buf). legacy_entry ca ak = Some a)"
    by (force simp: policy_entries_def map_filter_def image_iff)
  then show ?thesis by (auto simp: authorizes_def legacy_entry_Some)
qed

lemma from_file_Inr:
  "from_file lib fs f ca mode tr = Some (Inr as, tr') \<longleftrightarrow>
     (\<exists>buf. reads_text fs mode f tr buf tr' \<and> policy_ok lib mode buf \<and> as = policy_entries lib ca buf)"
  by (cases mode) (auto simp: from_file_def io_simps result_simps reads_text_def read_to_string_def
      read_strict_file_exact parse_policy_Inr split: if_splits)

lemma from_command_Inr:
  "from_command lib fs proc command uid caller mode tr = Some (Inr as, tr') \<longleftrightarrow>
     (\<exists>buf. helper_text fs proc mode caller command uid tr buf tr' \<and> policy_ok lib mode buf \<and>
        as = policy_entries lib False buf)"
  by (cases mode) (auto simp: from_command_def io_simps helper_text_def parse_policy_Inr cmd_run_def
      run_without_descendants_def split: if_splits)

lemma from_file_missing:
  "(\<exists>e. from_file lib fs f ca Legacy tr = Some (Inl e, tr') \<and> is_not_found e) \<longleftrightarrow>
     (\<exists>e. os_read_path fs f tr = Inl e \<and> io_kind_of e = KNotFound \<and> tr' = tr @ [Fs (ReadToString f)])"
  by (auto simp: from_file_def io_simps result_simps read_to_string_def is_not_found_def
      dest!: parse_policy_error split: if_splits)


lemma key_file_Inr:
  "io_match (from_file lib fs f False mode) (\<lambda>r. case r of
       Inr keys \<Rightarrow> io_return keys
     | Inl error \<Rightarrow> if mode = Legacy \<and> is_not_found error then io_return [] else io_throw error) tr = Some (Inr as, tr') \<longleftrightarrow>
   (\<exists>buf. reads_text fs mode f tr buf tr' \<and> policy_ok lib mode buf \<and> as = policy_entries lib False buf) \<or>
   mode = Legacy \<and> as = [] \<and> (\<exists>e. os_read_path fs f tr = Inl e \<and> io_kind_of e = KNotFound \<and> tr' = tr @ [Fs (ReadToString f)])"
  (is "?run \<longleftrightarrow> ?read \<or> ?missing")
proof -
  have "?run \<longleftrightarrow> from_file lib fs f False mode tr = Some (Inr as, tr') \<or>
      mode = Legacy \<and> as = [] \<and> (\<exists>e. from_file lib fs f False Legacy tr = Some (Inl e, tr') \<and> is_not_found e)"
    by (cases mode; cases "from_file lib fs f False mode tr")
      (auto simp: io_match_def io_return_def io_throw_def split: sum.splits if_splits)
  then show ?thesis unfolding from_file_Inr from_file_missing by auto
qed

lemma loads_append:
  "loads fs proc mode caller (srcs1 @ srcs2) tr texts tr' \<longleftrightarrow>
     (\<exists>texts1 t texts2. texts = texts1 @ texts2 \<and> loads fs proc mode caller srcs1 tr texts1 t \<and>
        loads fs proc mode caller srcs2 t texts2 tr')"
proof (induction srcs1 arbitrary: tr texts)
  case Nil
  then show ?case by (auto simp: loads_simps)
next
  case (Cons src srcs1)
  show ?case
    by (cases src) (auto simp: loads_simps Cons.IH Cons_eq_append_conv, (metis append_Cons)+)
qed

definition entries_of :: "('k, 'c) ssh_key \<Rightarrow> (bool \<times> string) list \<Rightarrow> 'k authorized list" where
  "entries_of lib texts = concat (map (\<lambda>(ca, buf). policy_entries lib ca buf) texts)"

abbreviation texts_ok :: "('k, 'c) ssh_key \<Rightarrow> policy_mode \<Rightarrow> (bool \<times> string) list \<Rightarrow> bool" where
  "texts_ok lib mode texts \<equiv> list_all (\<lambda>(_, buf). policy_ok lib mode buf) texts"

lemma entries_of_simps [simp]:
  "entries_of lib [] = []" "entries_of lib ((ca, buf) # texts) = policy_entries lib ca buf @ entries_of lib texts"
  "entries_of lib (xs @ ys) = entries_of lib xs @ entries_of lib ys"
  by (simp_all add: entries_of_def)

lemma filter_from_entries: "filter_from (entries_of lib texts) (mode = Strict) = policy_filter lib mode texts"
proof -
  have "a \<in> set (entries_of lib texts) \<longleftrightarrow> authorizes lib texts a" for a
    by (auto simp: entries_of_def set_policy_entries authorizes_def)
  then show ?thesis
    by (intro identity_filter.equality) (simp_all add: policy_filter_def)
qed

lemma loads_one:
  "(\<exists>texts. loads fs proc mode caller [AuthorityFile f] tr texts tr' \<and> Q texts) \<longleftrightarrow>
     (\<exists>buf. reads_text fs mode f tr buf tr' \<and> Q [(True, buf)])"
  "(\<exists>texts. loads fs proc mode caller [HelperOutput command uid] tr texts tr' \<and> Q texts) \<longleftrightarrow>
     (\<exists>buf. helper_text fs proc mode caller command uid tr buf tr' \<and> Q [(False, buf)])"
  "(\<exists>texts. loads fs proc mode caller [] tr texts tr' \<and> Q texts) \<longleftrightarrow> tr' = tr \<and> Q []"
  by (auto simp: loads_simps)

lemma key_file_stage:
  "io_match (from_file lib fs f False mode) (\<lambda>r. case r of
       Inr keys \<Rightarrow> io_return keys
     | Inl error \<Rightarrow> if mode = Legacy \<and> is_not_found error then io_return [] else io_throw error) tr = Some (Inr as, tr') \<longleftrightarrow>
   (\<exists>texts. loads fs proc mode caller [KeyFile f] tr texts tr' \<and> texts_ok lib mode texts \<and> as = entries_of lib texts)"
  unfolding key_file_Inr by (auto simp: loads_simps)

lemma ca_file_stage:
  "(case ca of None \<Rightarrow> io_return ids
     | Some f \<Rightarrow> io_bind (from_file lib fs f True mode) (\<lambda>keys. io_return (ids @ keys))) tr = Some (Inr as, tr') \<longleftrightarrow>
   (\<exists>texts. loads fs proc mode caller (case ca of None \<Rightarrow> [] | Some f \<Rightarrow> [AuthorityFile f]) tr texts tr' \<and>
      texts_ok lib mode texts \<and> as = ids @ entries_of lib texts)"
  by (cases ca) (auto simp: io_bind_Inr from_file_Inr loads_one)

lemma helper_stage:
  "(case cmd of None \<Rightarrow> io_return ids
     | Some cmd \<Rightarrow>
         let user = (case cmd_user of Some u \<Rightarrow> u | None \<Rightarrow> caller) in
         io_bind (io_lift (get_uid hst user)) (\<lambda>uid.
         io_bind (from_command lib fs proc cmd uid caller mode) (\<lambda>keys. io_return (ids @ keys)))) tr = Some (Inr as, tr') \<longleftrightarrow>
   (\<exists>helper texts. (case cmd of None \<Rightarrow> helper = []
        | Some command \<Rightarrow> \<exists>uid. get_uid hst (case cmd_user of Some u \<Rightarrow> u | None \<Rightarrow> caller) = Inr uid \<and>
            helper = [HelperOutput command uid]) \<and>
      loads fs proc mode caller helper tr texts tr' \<and> texts_ok lib mode texts \<and> as = ids @ entries_of lib texts)"
proof (cases cmd)
  case None
  then show ?thesis by (auto simp: loads_one)
next
  case (Some command)
  have "?thesis \<longleftrightarrow> ((\<exists>uid buf. get_uid hst (case cmd_user of Some u \<Rightarrow> u | None \<Rightarrow> caller) = Inr uid \<and>
      helper_text fs proc mode caller command uid tr buf tr' \<and> policy_ok lib mode buf \<and> as = ids @ policy_entries lib False buf) \<longleftrightarrow>
    (\<exists>uid. get_uid hst (case cmd_user of Some u \<Rightarrow> u | None \<Rightarrow> caller) = Inr uid \<and>
      (\<exists>texts. loads fs proc mode caller [HelperOutput command uid] tr texts tr' \<and> texts_ok lib mode texts \<and>
        as = ids @ entries_of lib texts)))"
    unfolding Some by (auto simp: io_bind_Inr from_command_Inr Let_def)
  then show ?thesis unfolding loads_one by auto
qed

text \<open>Three reads in a row, whose results are appended.\<close>

lemma three_stages:
  assumes "\<And>as t. m1 tr = Some (Inr as, t) \<longleftrightarrow> (\<exists>x. P1 x t \<and> as = e x)"
    and "\<And>as bs t t'. m2 as t = Some (Inr bs, t') \<longleftrightarrow> (\<exists>y. P2 t y t' \<and> bs = as @ e y)"
    and "\<And>bs cs t t'. m3 bs t = Some (Inr cs, t') \<longleftrightarrow> (\<exists>z. P3 t z t' \<and> cs = bs @ e z)"
  shows "io_bind m1 (\<lambda>as. io_bind (m2 as) (\<lambda>bs. io_bind (m3 bs) (\<lambda>cs. io_return (k cs)))) tr = Some (Inr r, tr') \<longleftrightarrow>
    (\<exists>x t1 y t2 z. P1 x t1 \<and> P2 t1 y t2 \<and> P3 t2 z tr' \<and> r = k (e x @ e y @ e z))"
proof
  assume "io_bind m1 (\<lambda>as. io_bind (m2 as) (\<lambda>bs. io_bind (m3 bs) (\<lambda>cs. io_return (k cs)))) tr = Some (Inr r, tr')"
  then show "\<exists>x t1 y t2 z. P1 x t1 \<and> P2 t1 y t2 \<and> P3 t2 z tr' \<and> r = k (e x @ e y @ e z)"
    by (auto simp: io_bind_Inr assms) blast
next
  assume "\<exists>x t1 y t2 z. P1 x t1 \<and> P2 t1 y t2 \<and> P3 t2 z tr' \<and> r = k (e x @ e y @ e z)"
  then obtain x t1 y t2 z where P: "P1 x t1" "P2 t1 y t2" "P3 t2 z tr'" and r: "r = k (e x @ e y @ e z)" by blast
  have "m1 tr = Some (Inr (e x), t1)" "m2 (e x) t1 = Some (Inr (e x @ e y), t2)"
      "m3 (e x @ e y) t2 = Some (Inr ((e x @ e y) @ e z), tr')"
    using P assms by blast+
  then show "io_bind m1 (\<lambda>as. io_bind (m2 as) (\<lambda>bs. io_bind (m3 bs) (\<lambda>cs. io_return (k cs)))) tr = Some (Inr r, tr')"
    by (simp add: io_bind_step r)
qed

definition helper_source :: "host \<Rightarrow> string option \<Rightarrow> string option \<Rightarrow> string \<Rightarrow> policy_source list \<Rightarrow> bool" where
  "helper_source hst cmd cmd_user caller helper \<longleftrightarrow> (case cmd of None \<Rightarrow> helper = []
     | Some command \<Rightarrow> \<exists>uid. get_uid hst (case cmd_user of Some u \<Rightarrow> u | None \<Rightarrow> caller) = Inr uid \<and>
         helper = [HelperOutput command uid])"

lemma new_with_mode_exact:
  "new_with_mode lib hst fs proc f ca cmd cu caller mode tr = Some (Inr flt, tr') \<longleftrightarrow>
     (\<exists>srcs texts. configured hst f ca cmd cu caller srcs \<and> loads fs proc mode caller srcs tr texts tr' \<and>
        texts_ok lib mode texts \<and> flt = policy_filter lib mode texts)"
  (is "_ \<longleftrightarrow> ?spec")
proof -
  let ?ca = "case ca of None \<Rightarrow> [] | Some f \<Rightarrow> [AuthorityFile f]"
  let ?run = "\<lambda>srcs t texts t'. loads fs proc mode caller srcs t texts t' \<and> texts_ok lib mode texts"
  have "new_with_mode lib hst fs proc f ca cmd cu caller mode tr = Some (Inr flt, tr') \<longleftrightarrow>
    (\<exists>x t1 y t2 z. ?run [KeyFile f] tr x t1 \<and> ?run ?ca t1 y t2 \<and>
       (\<exists>helper. helper_source hst cmd cu caller helper \<and> ?run helper t2 z tr') \<and>
       flt = filter_from (entries_of lib x @ entries_of lib y @ entries_of lib z) (mode = Strict))"
    unfolding new_with_mode_def
  proof (rule three_stages)
    fix as t
    show "io_match (from_file lib fs f False mode) (\<lambda>r. case r of
         Inr keys \<Rightarrow> io_return keys
       | Inl error \<Rightarrow> if mode = Legacy \<and> is_not_found error then io_return [] else io_throw error) tr = Some (Inr as, t) \<longleftrightarrow>
       (\<exists>x. ?run [KeyFile f] tr x t \<and> as = entries_of lib x)"
      unfolding key_file_stage [where proc = proc and caller = caller] by blast
  next
    fix as bs t t'
    show "(case ca of None \<Rightarrow> io_return as
       | Some f \<Rightarrow> io_bind (from_file lib fs f True mode) (\<lambda>keys. io_return (as @ keys))) t = Some (Inr bs, t') \<longleftrightarrow>
       (\<exists>y. ?run ?ca t y t' \<and> bs = as @ entries_of lib y)"
      unfolding ca_file_stage [where proc = proc and caller = caller] by blast
  qed (unfold helper_stage helper_source_def, blast)
  also have "\<dots> \<longleftrightarrow> (\<exists>helper texts. helper_source hst cmd cu caller helper \<and> ?run ([KeyFile f] @ ?ca @ helper) tr texts tr' \<and>
       flt = filter_from (entries_of lib texts) (mode = Strict))" (is "?stages \<longleftrightarrow> ?whole")
  proof
    assume ?stages
    then obtain x t1 y t2 z helper where "?run [KeyFile f] tr x t1" "?run ?ca t1 y t2"
        "helper_source hst cmd cu caller helper" "?run helper t2 z tr'"
        and flt: "flt = filter_from (entries_of lib x @ entries_of lib y @ entries_of lib z) (mode = Strict)" by blast
    then have "helper_source hst cmd cu caller helper" "?run ([KeyFile f] @ ?ca @ helper) tr (x @ y @ z) tr'"
      unfolding loads_append list_all_append by blast+
    moreover have "flt = filter_from (entries_of lib (x @ y @ z)) (mode = Strict)" using flt by simp
    ultimately show ?whole by blast
  next
    assume ?whole
    then obtain helper texts where helper: "helper_source hst cmd cu caller helper"
        and loads: "loads fs proc mode caller ([KeyFile f] @ ?ca @ helper) tr texts tr'" and ok: "texts_ok lib mode texts"
        and flt: "flt = filter_from (entries_of lib texts) (mode = Strict)" by blast
    from loads obtain x t1 y t2 z where "loads fs proc mode caller [KeyFile f] tr x t1" "loads fs proc mode caller ?ca t1 y t2"
        "loads fs proc mode caller helper t2 z tr'" and texts: "texts = x @ y @ z"
      unfolding loads_append by blast
    moreover have "texts_ok lib mode x" "texts_ok lib mode y" "texts_ok lib mode z" using ok texts by simp_all
    moreover have "flt = filter_from (entries_of lib x @ entries_of lib y @ entries_of lib z) (mode = Strict)"
      using flt texts by simp
    ultimately show ?stages using helper by blast
  qed
  also have "\<dots> \<longleftrightarrow> ?spec"
  proof -
    have "configured hst f ca cmd cu caller srcs \<longleftrightarrow>
        (\<exists>helper. helper_source hst cmd cu caller helper \<and> srcs = [KeyFile f] @ ?ca @ helper)" for srcs
      by (simp add: configured_def helper_source_def)
    then show ?thesis unfolding filter_from_entries by metis
  qed
  finally show ?thesis .
qed

text \<open>
  C10: where trust comes from, exactly. The filter is built, in a given run, if and only if the configured sources
  could be read one after the other in this run, under the rules of the mode, and every text is acceptable;
  it then trusts exactly the identities that an entry of one of these texts names: a plain key by an entry that is no
  authority, a certificate by an entry for its signing key that is one.
\<close>

theorem filter_trust_sources:
  "new_with_mode lib hst fs proc f ca cmd cu caller mode tr = Some (Inr flt, tr') \<longleftrightarrow>
     (\<exists>srcs texts. configured hst f ca cmd cu caller srcs \<and> loads fs proc mode caller srcs tr texts tr' \<and>
        list_all (\<lambda>(_, buf). policy_ok lib mode buf) texts \<and> flt = policy_filter lib mode texts \<and>
        (\<forall>idn. identity_trusted lib flt idn \<longleftrightarrow> named_by lib texts idn))"
  unfolding new_with_mode_exact using policy_filter_trusts by blast

lemma filter_trust_sources_witness:
  "\<exists>srcs texts tr'. loads (example_fs ''key'') example_proc Strict ''ann'' srcs [] texts tr' \<and>
     named_by example_lib texts (PublicKey 1) \<and> \<not> named_by example_lib texts (PublicKey 5)"
proof -
  obtain srcs texts where "loads (example_fs ''key'') example_proc Strict ''ann'' srcs [] texts
       [Fs (Lstat ''/''), Fs (Lstat ''/k''), Fs (Canonicalize ''/k''), Fs (Lstat ''/''), Fs (Lstat ''/k''),
        Fs (Stat ''/k''), Fs (Stat ''/k''), Fs (OpenFile ''/k''), Fs (Fstat 3), Fs (ReadAll 3)]"
      "\<forall>idn. identity_trusted example_lib \<lparr>flt_keys = {1}, flt_ca_keys = {}, flt_strict = True\<rparr> idn \<longleftrightarrow>
         named_by example_lib texts idn"
    using example_filter unfolding filter_trust_sources by blast
  then show ?thesis by force
qed

end
