(* ===== verification/Module.thy ===== *)
theory Module imports Args Auth AgentConnection Logging PolicySpec begin

text \<open>
  \<open>lib.rs\<close>: the PAM module itself, from the entry points that libpam calls down to the components. What
  surrounds the module is one record, \<open>machine\<close>: the interfaces of the other theories. The global state of
  the logger is passed through \<open>run\<close>; what \<open>run\<close> and its callees log is in the theory \<open>Journal\<close>.
\<close>

record ('h, 'k, 'c, 'o) machine =
  m_platform :: platform
  m_libpam :: "'h libpam"
  m_host :: host
  m_fs :: fs_os
  m_proc :: proc_os
  m_sock :: sock_os
  m_auth_os :: auth_os
  m_log_os :: log_os
  m_ssh_key :: "('k, 'c) ssh_key"
  m_client_lib :: "('k, 'c) client_lib"
  m_crypto :: "('k, 'o) crypto"

section \<open>\<open>PamContext\<close>\<close>

record pam_context =
  ctx_calling_user :: string
  ctx_service :: string

definition new_pam_context :: "pam_handle_ext \<Rightarrow> pam_context result" where
  "new_pam_context handle =
     and_then (ext_calling_user handle) (\<lambda>calling_user.
     and_then (ext_service handle) (\<lambda>service.
     Inr \<lparr>ctx_calling_user = calling_user, ctx_service = service\<rparr>))"

definition context_handle :: "pam_context \<Rightarrow> pam_handle_ext" where
  "context_handle ctx = \<lparr>ext_calling_user = Inr (ctx_calling_user ctx), ext_service = Inr (ctx_service ctx)\<rparr>"

section \<open>The checks of \<open>lib.rs\<close>\<close>

definition validate_strict_user :: "host \<Rightarrow> string \<Rightarrow> uid result" where
  "validate_strict_user hst name =
     (if name = [] \<or> \<not> list_all (\<lambda>b. is_ascii_alphanumeric b \<or> b = CHR ''_'' \<or> b = CHR ''-'') name
      then Inl (Anyhow ''strict mode requires a plain local user name'' [])
      else
        and_then (ok_or (Anyhow (''strict mode could not resolve local user '{name}'' @ [CHR 0x27]) [Str name])
          (get_user_by_name hst name)) (\<lambda>user.
        if to_string_lossy (user_name user) \<noteq> name
        then Inl (Anyhow ''strict mode user name does not match the local account'' [])
        else Inr (user_uid user)))"

definition check_sshd_special_case :: "('k, 'c) ssh_key \<Rightarrow> string option \<Rightarrow> 'k identity_filter \<Rightarrow> environment \<Rightarrow> bool result" where
  "check_sshd_special_case lib service flt env = (case service of
     None \<Rightarrow> Inr False
   | Some service \<Rightarrow>
       if service \<noteq> ''sshd'' then Inr False
       else case env_get_env env ''SSH_AUTH_INFO_0'' of
         None \<Rightarrow> Inr False
       | Some key \<Rightarrow>
           and_then (map_err (\<lambda>_. Anyhow ''failed to parse key in SSH_AUTH_INFO_0 environment variable'' [])
             (from_openssh lib key)) (\<lambda>k.
           Inr (identity_trusted lib flt (PublicKey k))))"

definition get_path :: "host \<Rightarrow> args \<Rightarrow> string result" where
  "get_path hst a = (case env_var hst ''SSH_AUTH_SOCK'' of
     Inr path \<Rightarrow> Inr path
   | Inl NotPresent \<Rightarrow> (case args_default_ssh_auth_sock a of
         Some path \<Rightarrow> Inr path
       | None \<Rightarrow> Inl (Anyhow ''SSH_AUTH_SOCK not set and the default_ssh_auth_sock parameter is not set'' []))
   | Inl NotUnicode \<Rightarrow> Inl (Anyhow ''Failed to read environment variable SSH_AUTH_SOCK'' []))"

section \<open>\<open>do_authenticate\<close>\<close>

text \<open>The \<open>if args.strict\<close> that builds the filter.\<close>

definition module_filter :: "('h, 'k, 'c, 'o) machine \<Rightarrow> args \<Rightarrow> pam_context \<Rightarrow> 'k identity_filter io" where
  "module_filter m a ctx =
     (if args_strict a
      then filter_new_strict (m_ssh_key m) (m_host m) (m_fs m) (m_proc m) (args_file a) (args_ca_keys_file a)
        (args_authorized_keys_command a) (args_authorized_keys_command_user a) (ctx_calling_user ctx)
      else filter_new (m_ssh_key m) (m_host m) (m_fs m) (m_proc m) (args_file a) (args_ca_keys_file a)
        (args_authorized_keys_command a) (args_authorized_keys_command_user a) (ctx_calling_user ctx))"

text \<open>After the shortcut: lines 123 to 137.\<close>

definition ask_agent :: "('h, 'k, 'c, 'o) machine \<Rightarrow> args \<Rightarrow> pam_context \<Rightarrow> 'k identity_filter \<Rightarrow> unit io" where
  "ask_agent m a ctx flt =
     io_bind (io_lift (get_path (m_host m) a)) (\<lambda>path.
     io_bind (agent_connect (m_platform m) (m_client_lib m) (m_sock m) path (args_agent_timeout a)) (\<lambda>ssh_agent_client.
     io_bind (authenticate (m_ssh_key m) (m_crypto m) (m_auth_os m) flt (client_agent ssh_agent_client)
         (ctx_calling_user ctx)) (\<lambda>found.
     if found then io_return ()
     else io_throw (Anyhow ''Agent did not know of any of the allowed keys'' []))))"

definition do_authenticate :: "('h, 'k, 'c, 'o) machine \<Rightarrow> args \<Rightarrow> pam_context \<Rightarrow> unit io" where
  "do_authenticate m a ctx =
     io_bind (module_filter m a ctx) (\<lambda>flt.
     io_bind (if args_sshd_shortcut a
         then io_lift (check_sshd_special_case (m_ssh_key m) (Some (ctx_service ctx)) flt (unix_environment (m_host m)))
         else io_return False) (\<lambda>shortcut.
     if shortcut then io_return () else ask_agent m a ctx flt))"

section \<open>\<open>run\<close>\<close>

text \<open>The \<open>if args.strict\<close> of \<open>run\<close>.\<close>

definition check_strict_users :: "host \<Rightarrow> args \<Rightarrow> pam_context \<Rightarrow> unit result" where
  "check_strict_users hst a ctx =
     (if args_strict a then
        and_then (validate_strict_user hst (ctx_calling_user ctx)) (\<lambda>calling_uid.
        if args_authorized_keys_command a \<noteq> None then
          and_then (case args_authorized_keys_command_user a of
              Some user \<Rightarrow> validate_strict_user hst user
            | None \<Rightarrow> Inr calling_uid) (\<lambda>helper_uid.
          if helper_uid = 0 then Inl (Anyhow ''strict mode requires a non-root helper user'' [])
          else Inr ())
        else Inr ())
      else Inr ())"

definition pam_run :: "('h, 'k, 'c, 'o) machine \<Rightarrow> string list \<Rightarrow> 'h \<Rightarrow> trace \<Rightarrow> log_state
    \<Rightarrow> (unit result \<times> trace) option \<times> log_state" where
  "pam_run m as pam_handle tr ls =
     (case new_pam_context (pam_handle_impl (m_platform m) (m_libpam m) pam_handle) of
        Inl e \<Rightarrow> (Some (Inl e, tr), ls)
      | Inr ctx \<Rightarrow>
          (case init_logging (m_log_os m) (ctx_service ctx) ls of
             (Inl e, ls') \<Rightarrow> (Some (Inl e, tr), ls')
           | (Inr _, ls') \<Rightarrow>
               (case args_parse as (unix_environment (m_host m)) (context_handle ctx) of
                  Inl e \<Rightarrow> (Some (Inl e, tr), ls')
                | Inr a \<Rightarrow>
                    (case check_strict_users (m_host m) a ctx of
                       Inl e \<Rightarrow> (Some (Inl e, tr), ls')
                     | Inr _ \<Rightarrow> with_debug (args_debug a) (\<lambda>s. (do_authenticate m a ctx tr, s)) ls'))))"

section \<open>The hooks\<close>

definition sm_authenticate :: "('h, 'k, 'c, 'o) machine \<Rightarrow> 'h \<Rightarrow> string list \<Rightarrow> 32 word \<Rightarrow> trace \<Rightarrow> log_state
    \<Rightarrow> (pam_result_code \<times> trace) option \<times> log_state" where
  "sm_authenticate m pam_handle as flags tr ls =
     (case pam_run m as pam_handle tr ls of (run, ls') \<Rightarrow>
        (map_option (\<lambda>(r, tr'). (case r of Inr _ \<Rightarrow> PAM_SUCCESS | Inl _ \<Rightarrow> PAM_AUTH_ERR, tr')) run, ls'))"

definition sm_setcred :: "'h \<Rightarrow> string list \<Rightarrow> 32 word \<Rightarrow> pam_result_code" where
  "sm_setcred pam_handle as flags = PAM_SUCCESS"

text \<open>\<open>pam_hooks!(PamSshAgent)\<close>, in a process whose logger is in the state \<open>ls\<close>.\<close>

definition pam_ssh_agent :: "('h, 'k, 'c, 'o) machine \<Rightarrow> log_state \<Rightarrow> 'h pam_hooks" where
  "pam_ssh_agent m ls = default_hooks\<lparr>
     hook_sm_authenticate := (\<lambda>flags h as tr.
       map_option (\<lambda>(code, tr'). (Returns code, tr')) (fst (sm_authenticate m h as flags tr ls))),
     hook_sm_setcred := (\<lambda>flags h as tr. Some (Returns (sm_setcred h as flags), tr))\<rparr>"

text \<open>
  The module and the crates it calls may panic, which ends a call of the hook by unwinding. Where that happens
  is a parameter: \<open>panics h as tr\<close> is the payload and the trace at the panic, if there is one. The other
  hooks call nothing and cannot panic.
\<close>

definition with_panics :: "('h \<Rightarrow> string list \<Rightarrow> trace \<Rightarrow> (payload \<times> trace) option) \<Rightarrow> 'h pam_hooks \<Rightarrow> 'h pam_hooks" where
  "with_panics panics hooks = hooks\<lparr>hook_sm_authenticate := (\<lambda>flags h as tr. case panics h as tr of
       Some (p, tr') \<Rightarrow> Some (Unwinds p, tr')
     | None \<Rightarrow> hook_sm_authenticate hooks flags h as tr)\<rparr>"

text \<open>Without a panic the call is the one that the other theorems are about.\<close>

lemma with_panics_never [simp]: "with_panics (\<lambda>_ _ _. None) hooks = hooks"
  by (simp add: with_panics_def)

section \<open>What the checks accept\<close>

definition plain_user_name :: "string \<Rightarrow> bool" where
  "plain_user_name name \<longleftrightarrow> name \<noteq> [] \<and> (\<forall>b\<in>set name. is_ascii_alphanumeric b \<or> b = CHR ''_'' \<or> b = CHR ''-'')"

definition local_account :: "host \<Rightarrow> string \<Rightarrow> user \<Rightarrow> bool" where
  "local_account hst name u \<longleftrightarrow> plain_user_name name \<and> get_user_by_name hst name = Some u \<and>
     to_string_lossy (user_name u) = name"

lemma validate_strict_user_ok:
  "validate_strict_user hst name = Inr uid \<longleftrightarrow> (\<exists>u. local_account hst name u \<and> user_uid u = uid)"
  by (auto simp: validate_strict_user_def local_account_def plain_user_name_def list_all_iff result_simps split: if_splits)

text \<open>
  In strict mode a user name is accepted exactly if it is a non-empty word of ASCII letters, digits,
  underscores and dashes, so never a path, and names a local account that carries the same name.
\<close>

lemma validate_strict_user_exact:
  "validate_strict_user hst name = Inr uid \<longleftrightarrow>
     name \<noteq> [] \<and> list_all (\<lambda>b. is_ascii_alphanumeric b \<or> b = CHR ''_'' \<or> b = CHR ''-'') name \<and>
     (\<exists>u. get_user_by_name hst name = Some u \<and> to_string_lossy (user_name u) = name \<and> user_uid u = uid)"
  unfolding validate_strict_user_ok local_account_def plain_user_name_def list_all_iff by blast

text \<open>The shortcut of \<open>sshd\<close>: the key with which sshd authenticated the user is a trusted plain key.\<close>

definition sshd_key_trusted :: "('k, 'c) ssh_key \<Rightarrow> host \<Rightarrow> string \<Rightarrow> 'k identity_filter \<Rightarrow> bool" where
  "sshd_key_trusted lib hst service flt \<longleftrightarrow> service = ''sshd'' \<and>
     (\<exists>text k. environ hst ''SSH_AUTH_INFO_0'' = Some text \<and> utf8_valid text \<and> from_openssh lib text = Inr k \<and>
        k \<in> flt_keys flt)"

text \<open>Its value in the environment is text that is no public key.\<close>

definition sshd_key_malformed :: "('k, 'c) ssh_key \<Rightarrow> host \<Rightarrow> string \<Rightarrow> bool" where
  "sshd_key_malformed lib hst service \<longleftrightarrow> service = ''sshd'' \<and>
     (\<exists>text e. environ hst ''SSH_AUTH_INFO_0'' = Some text \<and> utf8_valid text \<and> from_openssh lib text = Inl e)"

lemma check_sshd_Inr:
  "check_sshd_special_case lib (Some service) flt (unix_environment hst) = Inr True \<longleftrightarrow> sshd_key_trusted lib hst service flt"
  "check_sshd_special_case lib (Some service) flt (unix_environment hst) = Inr False \<longleftrightarrow>
     \<not> sshd_key_trusted lib hst service flt \<and> \<not> sshd_key_malformed lib hst service"
  by (auto simp: check_sshd_special_case_def sshd_key_trusted_def sshd_key_malformed_def result_simps unix_get_env_def
      env_var_def split: option.splits if_splits sum.splits) (metis sumE)

text \<open>
  C30: the \<open>sshd\<close> shortcut decides before the agent is asked. With the shortcut on and the service \<open>sshd\<close>, a key in
  the environment that the filter trusts as a plain key lets the request succeed at once, and one that
  does not parse is an error; in every other case the agent decides.
\<close>

theorem sshd_shortcut_effect:
  assumes "module_filter m a ctx tr = Some (Inr flt, t)"
  shows "do_authenticate m a ctx tr =
    (if \<not> args_sshd_shortcut a \<or> ctx_service ctx \<noteq> ''sshd'' then ask_agent m a ctx flt t
     else case environ (m_host m) ''SSH_AUTH_INFO_0'' of
       None \<Rightarrow> ask_agent m a ctx flt t
     | Some key \<Rightarrow>
         if \<not> utf8_valid key then ask_agent m a ctx flt t
         else case from_openssh (m_ssh_key m) key of
           Inl _ \<Rightarrow> Some (Inl (Anyhow ''failed to parse key in SSH_AUTH_INFO_0 environment variable'' []), t)
         | Inr k \<Rightarrow> if k \<in> flt_keys flt then Some (Inr (), t) else ask_agent m a ctx flt t)"
  using assms
  by (auto simp: do_authenticate_def io_bind_app io_lift_def io_return_def check_sshd_special_case_def
      unix_get_env_def env_var_def split: option.splits sum.splits)

section \<open>What a successful run is\<close>

text \<open>From the trace \<open>t\<close> on, an agent was reached that proves possession of the key of an eligible identity.\<close>

definition agent_vouches :: "('h, 'k, 'c, 'o) machine \<Rightarrow> args \<Rightarrow> pam_context \<Rightarrow> 'k identity_filter \<Rightarrow> trace \<Rightarrow> trace \<Rightarrow> bool" where
  "agent_vouches m a ctx flt t tr' \<longleftrightarrow>
     (\<exists>path client t1. get_path (m_host m) a = Inr path \<and>
        agent_connect (m_platform m) (m_client_lib m) (m_sock m) path (args_agent_timeout a) t = Some (Inr client, t1) \<and>
        agent_proves (m_ssh_key m) (m_crypto m) (m_auth_os m) flt (client_agent client) (ctx_calling_user ctx) t1 tr')"

text \<open>
  What justifies a success: the key that sshd used, without a further call, where the shortcut is on; and else an agent.
\<close>

definition justified :: "('h, 'k, 'c, 'o) machine \<Rightarrow> args \<Rightarrow> pam_context \<Rightarrow> 'k identity_filter \<Rightarrow> trace \<Rightarrow> trace \<Rightarrow> bool" where
  "justified m a ctx flt t tr' \<longleftrightarrow>
     (if args_sshd_shortcut a \<and> sshd_key_trusted (m_ssh_key m) (m_host m) (ctx_service ctx) flt then tr' = t
      else \<not> (args_sshd_shortcut a \<and> sshd_key_malformed (m_ssh_key m) (m_host m) (ctx_service ctx)) \<and>
        agent_vouches m a ctx flt t tr')"

lemma ask_agent_Inr: "ask_agent m a ctx flt t = Some (Inr u, tr') \<longleftrightarrow> agent_vouches m a ctx flt t tr'"
  by (auto simp: ask_agent_def agent_vouches_def io_bind_Inr authenticate_yes [symmetric] split: if_splits)

lemma shortcut_Inr:
  "(if args_sshd_shortcut a
      then io_lift (check_sshd_special_case lib (Some service) flt (unix_environment hst))
      else io_return False) t = Some (Inr shortcut, t1) \<longleftrightarrow>
   t1 = t \<and> (shortcut \<longleftrightarrow> args_sshd_shortcut a \<and> sshd_key_trusted lib hst service flt) \<and>
   (args_sshd_shortcut a \<and> \<not> shortcut \<longrightarrow> \<not> sshd_key_malformed lib hst service)"
  by (cases shortcut) (auto simp: check_sshd_Inr)

lemma do_authenticate_Inr:
  "do_authenticate m a ctx tr = Some (Inr (), tr') \<longleftrightarrow>
     (\<exists>flt t. module_filter m a ctx tr = Some (Inr flt, t) \<and> justified m a ctx flt t tr')"
proof -
  have "do_authenticate m a ctx tr = Some (Inr (), tr') \<longleftrightarrow>
    (\<exists>flt t. module_filter m a ctx tr = Some (Inr flt, t) \<and> (\<exists>shortcut t1. t1 = t \<and>
       (shortcut \<longleftrightarrow> args_sshd_shortcut a \<and> sshd_key_trusted (m_ssh_key m) (m_host m) (ctx_service ctx) flt) \<and>
       (args_sshd_shortcut a \<and> \<not> shortcut \<longrightarrow> \<not> sshd_key_malformed (m_ssh_key m) (m_host m) (ctx_service ctx)) \<and>
       (if shortcut then io_return () else ask_agent m a ctx flt) t1 = Some (Inr (), tr')))"
    unfolding do_authenticate_def io_bind_Inr shortcut_Inr by blast
  also have "\<dots> \<longleftrightarrow> (\<exists>flt t. module_filter m a ctx tr = Some (Inr flt, t) \<and> justified m a ctx flt t tr')"
    by (intro ex_cong1 conj_cong refl) (auto simp: justified_def ask_agent_Inr)
  finally show ?thesis .
qed

lemma pam_run_Inr:
  "fst (pam_run m as h tr ls) = Some (Inr (), tr') \<longleftrightarrow>
     (\<exists>ctx a. new_pam_context (pam_handle_impl (m_platform m) (m_libpam m) h) = Inr ctx \<and>
        fst (init_logging (m_log_os m) (ctx_service ctx) ls) = Inr () \<and>
        args_parse as (unix_environment (m_host m)) (context_handle ctx) = Inr a \<and>
        check_strict_users (m_host m) a ctx = Inr () \<and>
        do_authenticate m a ctx tr = Some (Inr (), tr'))"
  by (auto simp: pam_run_def with_debug_def split: sum.splits prod.splits)

lemma new_pam_context_Inr:
  "new_pam_context handle = Inr ctx \<longleftrightarrow>
     ext_calling_user handle = Inr (ctx_calling_user ctx) \<and> ext_service handle = Inr (ctx_service ctx)"
  by (cases ctx) (auto simp: new_pam_context_def result_simps)

section \<open>Authentication\<close>

lemma authenticate_hook: "hook_sm_authenticate (pam_ssh_agent m ls) flags h as tr =
    map_option (\<lambda>(r, tr'). (Returns (if is_ok r then PAM_SUCCESS else PAM_AUTH_ERR), tr')) (fst (pam_run m as h tr ls))"
  by (cases "fst (pam_run m as h tr ls)")
    (auto simp: pam_ssh_agent_def sm_authenticate_def default_hooks_def split_beta is_ok_def split: sum.splits)

lemma authenticate_success:
  "call_entry_point (pam_ssh_agent m ls) Pam_sm_authenticate pamh flags argc argv tr = Some (Returns PAM_SUCCESS, tr') \<longleftrightarrow>
     (\<exists>h as. pamh = Some h \<and> args_given argc argv as \<and> fst (pam_run m as h tr ls) = Some (Inr (), tr'))"
proof (cases rule: invoke_hook_cases [of pamh argc argv "hook_sm_authenticate (pam_ssh_agent m ls) (word_of_int flags)" tr])
  case (given h as)
  have "map_option (\<lambda>(f, tr'). (panic_guard f, tr')) (hook_sm_authenticate (pam_ssh_agent m ls) (word_of_int flags) h as tr) =
        Some (Returns PAM_SUCCESS, tr') \<longleftrightarrow> fst (pam_run m as h tr ls) = Some (Inr (), tr')"
    by (cases "fst (pam_run m as h tr ls)") (auto simp: authenticate_hook is_ok_iff split: if_splits)
  moreover have "args_given argc argv as' \<longleftrightarrow> as' = as" for as' using args_given_unique [OF _ given(2)] given(2) by blast
  ultimately show ?thesis using given by (simp del: map_option_eq_Some)
next
  case refused
  then show ?thesis by auto
qed

text \<open>
  C1: authentication is sound, and succeeds exactly when it should. \<open>pam_sm_authenticate\<close> returns \<open>PAM_SUCCESS\<close>, in a
  given run, if and only if libpam passed a handle and arguments that parse for the calling user, the logger is
  set up, the checks of strict mode pass, a filter is built from the configured sources, and in the rest of this very
  run the success is justified: by the key that sshd used, where the shortcut is on, or by an agent that proves
  possession of the private key of a trusted, valid identity.
\<close>

theorem success_is_justified:
  "call_entry_point (pam_ssh_agent m ls) Pam_sm_authenticate pamh flags argc argv tr = Some (Returns PAM_SUCCESS, tr') \<longleftrightarrow>
     (\<exists>h as ctx a flt t. pamh = Some h \<and> args_given argc argv as \<and>
        ext_calling_user (pam_handle_impl (m_platform m) (m_libpam m) h) = Inr (ctx_calling_user ctx) \<and>
        ext_service (pam_handle_impl (m_platform m) (m_libpam m) h) = Inr (ctx_service ctx) \<and>
        fst (init_logging (m_log_os m) (ctx_service ctx) ls) = Inr () \<and>
        args_parse as (unix_environment (m_host m)) (context_handle ctx) = Inr a \<and>
        check_strict_users (m_host m) a ctx = Inr () \<and>
        module_filter m a ctx tr = Some (Inr flt, t) \<and> justified m a ctx flt t tr')"
  unfolding authenticate_success pam_run_Inr new_pam_context_Inr do_authenticate_Inr by blast


text \<open>
  The other entry points do nothing. With a handle and well-formed arguments \<open>pam_sm_setcred\<close> succeeds and the
  remaining ones return \<open>PAM_IGNORE\<close>, whatever the flags; no call leaves the process.
\<close>

lemma other_entry_points:
  assumes "args_given argc argv as" and "entry \<noteq> Pam_sm_authenticate"
  shows "call_entry_point (pam_ssh_agent m ls) entry (Some h) flags argc argv tr =
    Some (Returns (if entry = Pam_sm_setcred then PAM_SUCCESS else PAM_IGNORE), tr)"
  using assms(2)
  by (cases entry) (simp_all add: invoke_hook_given [OF assms(1)] pam_ssh_agent_def default_hooks_def ignore_hook_def
    sm_setcred_def)

text \<open>
  A request leaves the logger's state as it found it, but for its one initialization: the debug flag is
  the one before the request whatever happens in it, and once the logger is initialized nothing changes.
\<close>

lemma request_state_kept:
  "request_debug (snd (pam_run m as h tr ls)) = request_debug ls \<and>
   (log_lock ls \<longrightarrow> snd (pam_run m as h tr ls) = ls)"
  by (auto simp: pam_run_def with_debug_def init_logging_def init_impl_def Let_def split: sum.splits prod.splits)

section \<open>The strict mode\<close>

definition helper_account :: "args \<Rightarrow> pam_context \<Rightarrow> string" where
  "helper_account a ctx = (case args_authorized_keys_command_user a of Some u \<Rightarrow> u | None \<Rightarrow> ctx_calling_user ctx)"

lemma check_strict_users_ok:
  assumes "check_strict_users hst a ctx = Inr ()" and "args_strict a"
  shows "(\<exists>u. local_account hst (ctx_calling_user ctx) u) \<and>
    (args_authorized_keys_command a \<noteq> None \<longrightarrow> (\<exists>hu. local_account hst (helper_account a ctx) hu \<and> user_uid hu \<noteq> 0))"
  using assms unfolding check_strict_users_def helper_account_def
  by (auto simp: result_simps validate_strict_user_ok split: if_splits option.splits)

lemma module_filter_strict:
  assumes "args_strict a"
  shows "module_filter m a ctx tr = Some (Inr flt, t) \<longleftrightarrow>
    (\<exists>srcs texts. configured (m_host m) (args_file a) (args_ca_keys_file a) (args_authorized_keys_command a)
        (args_authorized_keys_command_user a) (ctx_calling_user ctx) srcs \<and>
      loads (m_fs m) (m_proc m) Strict (ctx_calling_user ctx) srcs tr texts t \<and>
      texts_ok (m_ssh_key m) Strict texts \<and> flt = policy_filter (m_ssh_key m) Strict texts)"
  using assms by (simp add: module_filter_def filter_new_strict_def new_with_mode_exact)

text \<open>What is known of a request with the word \<open>strict\<close> among its arguments that got as far as its filter.\<close>

definition strict_request :: "('h, 'k, 'c, 'o) machine \<Rightarrow> string list \<Rightarrow> args \<Rightarrow> pam_context \<Rightarrow> bool" where
  "strict_request m as a ctx \<longleftrightarrow>
     args_parse as (unix_environment (m_host m)) (context_handle ctx) = Inr a \<and> args_strict a \<and>
     (\<exists>u. local_account (m_host m) (ctx_calling_user ctx) u) \<and>
     (\<forall>c. args_authorized_keys_command a = Some c \<longrightarrow>
        is_absolute c \<and> (\<exists>hu. local_account (m_host m) (helper_account a ctx) hu \<and> user_uid hu \<noteq> 0)) \<and>
     (\<exists>secs. args_agent_timeout a = Some secs \<and> 1 \<le> secs \<and> secs \<le> 300) \<and>
     (args_sshd_shortcut a \<longleftrightarrow> ''sshd_shortcut'' \<in> set as)"

lemma strict_requestI:
  assumes "args_parse as (unix_environment (m_host m)) (context_handle ctx) = Inr a" and "''strict'' \<in> set as"
    and "check_strict_users (m_host m) a ctx = Inr ()"
  shows "strict_request m as a ctx"
proof -
  note strict = args_parse_strict [OF assms(1,2)] args_parse_fields [OF assms(1)]
  have "args_strict a" using strict(1) by simp
  note users = check_strict_users_ok [OF assms(3) this]
  have "is_absolute c \<and> (\<exists>hu. local_account (m_host m) (helper_account a ctx) hu \<and> user_uid hu \<noteq> 0)"
    if "args_authorized_keys_command a = Some c" for c
    using that users strict(1) by simp
  moreover have "\<exists>secs. args_agent_timeout a = Some secs \<and> 1 \<le> secs \<and> secs \<le> 300"
    using strict(1) by blast
  moreover have "args_sshd_shortcut a \<longleftrightarrow> ''sshd_shortcut'' \<in> set as"
    using strict(2) assms(2) by simp
  ultimately show ?thesis
    unfolding strict_request_def using assms(1) users \<open>args_strict a\<close> by blast
qed

lemma strict_run:
  assumes "call_entry_point (pam_ssh_agent m ls) Pam_sm_authenticate pamh flags argc argv tr = Some (Returns PAM_SUCCESS, tr')"
    and "args_given argc argv as" and "''strict'' \<in> set as"
  obtains h ctx a flt t where "pamh = Some h" and "new_pam_context (pam_handle_impl (m_platform m) (m_libpam m) h) = Inr ctx"
    and "strict_request m as a ctx" and "module_filter m a ctx tr = Some (Inr flt, t)" and "justified m a ctx flt t tr'"
proof -
  obtain h where "pamh = Some h" "fst (pam_run m as h tr ls) = Some (Inr (), tr')"
    using assms(1) args_given_unique [OF assms(2)] unfolding authenticate_success by blast
  with that show thesis
    unfolding pam_run_Inr do_authenticate_Inr using strict_requestI [OF _ assms(3)] by blast
qed

text \<open>
  C2: what strict mode adds. If the arguments hold the word \<open>strict\<close> and authentication succeeds, then the calling
  user is a plain name of a local account; a helper is an absolute path and its account is not root; the
  agent had a deadline of 1 to 300 seconds; and in this run the configured sources were read one after the other
  under the strict rules, with acceptable texts only; exactly the identities that these texts name were
  trusted; and with this trust either the \<open>sshd\<close> shortcut, if it was asked for, or the agent justifies the success.
\<close>

theorem strict_success:
  assumes "call_entry_point (pam_ssh_agent m ls) Pam_sm_authenticate pamh flags argc argv tr = Some (Returns PAM_SUCCESS, tr')"
    and "args_given argc argv as" and "''strict'' \<in> set as"
  shows "\<exists>h ctx a srcs texts flt t. pamh = Some h \<and>
    new_pam_context (pam_handle_impl (m_platform m) (m_libpam m) h) = Inr ctx \<and>
    args_parse as (unix_environment (m_host m)) (context_handle ctx) = Inr a \<and>
    (\<exists>u. local_account (m_host m) (ctx_calling_user ctx) u) \<and>
    (\<forall>c. args_authorized_keys_command a = Some c \<longrightarrow>
       is_absolute c \<and> (\<exists>hu. local_account (m_host m) (helper_account a ctx) hu \<and> user_uid hu \<noteq> 0)) \<and>
    (\<exists>secs. args_agent_timeout a = Some secs \<and> 1 \<le> secs \<and> secs \<le> 300) \<and>
    configured (m_host m) (args_file a) (args_ca_keys_file a) (args_authorized_keys_command a)
      (args_authorized_keys_command_user a) (ctx_calling_user ctx) srcs \<and>
    loads (m_fs m) (m_proc m) Strict (ctx_calling_user ctx) srcs tr texts t \<and>
    list_all (\<lambda>(_, buf). policy_ok (m_ssh_key m) Strict buf) texts \<and>
    flt_strict flt \<and> (\<forall>idn. identity_trusted (m_ssh_key m) flt idn \<longleftrightarrow> named_by (m_ssh_key m) texts idn) \<and>
    (''sshd_shortcut'' \<in> set as \<and> sshd_key_trusted (m_ssh_key m) (m_host m) (ctx_service ctx) flt \<and> tr' = t \<or>
     agent_vouches m a ctx flt t tr')"
proof -
  obtain h ctx a flt t where handle: "pamh = Some h"
      and ctx: "new_pam_context (pam_handle_impl (m_platform m) (m_libpam m) h) = Inr ctx"
      and request: "strict_request m as a ctx" and flt: "module_filter m a ctx tr = Some (Inr flt, t)"
      and just: "justified m a ctx flt t tr'"
    using assms by (rule strict_run)
  note fields = request [unfolded strict_request_def]
  obtain srcs texts where srcs: "configured (m_host m) (args_file a) (args_ca_keys_file a) (args_authorized_keys_command a)
        (args_authorized_keys_command_user a) (ctx_calling_user ctx) srcs"
      "loads (m_fs m) (m_proc m) Strict (ctx_calling_user ctx) srcs tr texts t"
      "texts_ok (m_ssh_key m) Strict texts" and flt_is: "flt = policy_filter (m_ssh_key m) Strict texts"
    using flt fields unfolding module_filter_strict [OF fields [THEN conjunct2, THEN conjunct1]] by blast
  have "flt_strict flt" "\<forall>idn. identity_trusted (m_ssh_key m) flt idn \<longleftrightarrow> named_by (m_ssh_key m) texts idn"
    unfolding flt_is policy_filter_trusts by (simp_all add: policy_filter_def)
  moreover have "''sshd_shortcut'' \<in> set as \<and> sshd_key_trusted (m_ssh_key m) (m_host m) (ctx_service ctx) flt \<and> tr' = t \<or>
     agent_vouches m a ctx flt t tr'"
    using just fields unfolding justified_def by argo
  ultimately show ?thesis using handle ctx fields srcs by blast
qed

section \<open>Every request returns\<close>

text \<open>
  What a request relies on of the client library: over a stream whose operations return, and from some point
  on report that the deadline has passed, each of its operations returns.
\<close>

definition client_in_time :: "('k, 'c) client_lib \<Rightarrow> bool" where
  "client_in_time cl \<longleftrightarrow> (\<forall>rw. ends_in_time rw \<longrightarrow>
     total_io (client_list_all_identities (client_with_read_write cl rw)) \<and>
     (\<forall>idn data. total_io (client_sign_with_ref (client_with_read_write cl rw) idn data)))"

text \<open>The clocks of the sockets and of the helpers pass every instant.\<close>

definition clocks_run :: "('h, 'k, 'c, 'o) machine \<Rightarrow> bool" where
  "clocks_run m \<longleftrightarrow> clock_progresses (os_now (m_proc m)) \<and> clock_progresses (os_instant (m_sock m))"

lemma bind_returns:
  assumes "m tr \<noteq> None" and "\<And>x tr1. m tr = Some (Inr x, tr1) \<Longrightarrow> k x tr1 \<noteq> None"
  shows "io_bind m k tr \<noteq> None"
  using assms by (auto simp: io_bind_None)

lemma do_authenticate_returns:
  assumes "clocks_run m" and "finitely_interrupted (m_proc m)" and "client_in_time (m_client_lib m)"
    and timeout: "args_agent_timeout a = Some secs"
  shows "do_authenticate m a ctx tr \<noteq> None"
proof -
  have clocks: "clock_progresses (os_now (m_proc m))" "clock_progresses (os_instant (m_sock m))"
    using assms(1) by (simp_all add: clocks_run_def)
  have conn: "total_io (agent_connect (m_platform m) (m_client_lib m) (m_sock m) path (Some secs))" for path
    using agent_connect_returns [OF clocks(2)] by (fastforce simp: total_io_def)
  have auth: "total_io (authenticate (m_ssh_key m) (m_crypto m) (m_auth_os m) flt (client_agent client) user)"
    if made: "agent_connect (m_platform m) (m_client_lib m) (m_sock m) path (Some secs) t = Some (Inr client, t')"
    for flt client user path t t'
  proof -
    obtain deadline where "client = client_with_read_write (m_client_lib m) (deadline_stream (m_sock m) deadline)"
      using made by (auto simp: agent_connect_def io_bind_Inr Let_def)
    then have "total_io (client_list_all_identities client)" "total_io (client_sign_with_ref client idn data)" for idn data
      using assms(3) deadline_stream_ends [OF clocks(2)] by (simp_all add: client_in_time_def)
    then show ?thesis
      by (intro total_authenticate) (simp_all add: total_io_def)
  qed
  have ask: "ask_agent m a ctx flt t \<noteq> None" for flt t
    unfolding ask_agent_def timeout
  proof (rule bind_returns)
    show "io_lift (get_path (m_host m) a) t \<noteq> None" by simp
    fix path t1
    show "io_bind (agent_connect (m_platform m) (m_client_lib m) (m_sock m) path (Some secs)) (\<lambda>ssh_agent_client.
     io_bind (authenticate (m_ssh_key m) (m_crypto m) (m_auth_os m) flt (client_agent ssh_agent_client)
         (ctx_calling_user ctx)) (\<lambda>found.
     if found then io_return ()
     else io_throw (Anyhow ''Agent did not know of any of the allowed keys'' []))) t1 \<noteq> None"
    proof (rule bind_returns)
      show "agent_connect (m_platform m) (m_client_lib m) (m_sock m) path (Some secs) t1 \<noteq> None"
        using conn by (simp add: total_io_def)
      fix client t2
      assume "agent_connect (m_platform m) (m_client_lib m) (m_sock m) path (Some secs) t1 = Some (Inr client, t2)"
      note total = auth [OF this]
      have "total_io (io_bind (authenticate (m_ssh_key m) (m_crypto m) (m_auth_os m) flt (client_agent client)
         (ctx_calling_user ctx)) (\<lambda>found.
     if found then io_return ()
     else io_throw (Anyhow ''Agent did not know of any of the allowed keys'' [])))"
        by (intro total_intros total)
      then show "io_bind (authenticate (m_ssh_key m) (m_crypto m) (m_auth_os m) flt (client_agent client)
         (ctx_calling_user ctx)) (\<lambda>found.
     if found then io_return ()
     else io_throw (Anyhow ''Agent did not know of any of the allowed keys'' [])) t2 \<noteq> None"
        by (simp add: total_io_def)
    qed
  qed
  have "total_io (do_authenticate m a ctx)"
    unfolding do_authenticate_def module_filter_def filter_new_def filter_new_strict_def
    by (intro total_intros total_new_with_mode clocks assms(2)) (simp add: total_io_def ask)
  then show ?thesis by (simp add: total_io_def)
qed

text \<open>
  C18: a request in strict mode returns. \<open>pam_sm_authenticate\<close> returns a code, whatever the agent, the helper and
  the files do, under three conditions: the clocks pass every instant; signals interrupt the reads of the helper's
  pipes only finitely often, since \<open>drain_output\<close> repeats an interrupted read without a look at the clock; and the
  client library gives up when its stream does. A single system call is taken to return.
\<close>

theorem strict_request_returns:
  assumes "clocks_run m" and "finitely_interrupted (m_proc m)" and "client_in_time (m_client_lib m)"
    and "args_given argc argv as" and "''strict'' \<in> set as"
  shows "\<exists>code tr'. call_entry_point (pam_ssh_agent m ls) Pam_sm_authenticate (Some h) flags argc argv tr = Some (Returns code, tr')"
proof -
  have "do_authenticate m a ctx tr \<noteq> None"
    if "args_parse as (unix_environment (m_host m)) (context_handle ctx) = Inr a" for a ctx
    using args_parse_strict [OF that assms(5)] do_authenticate_returns [OF assms(1-3)] by blast
  then have "fst (pam_run m as h tr ls) \<noteq> None"
    by (auto simp: pam_run_def with_debug_def split: sum.splits prod.splits)
  then obtain r tr' where "fst (pam_run m as h tr ls) = Some (r, tr')" by fastforce
  then show ?thesis
    by (simp add: invoke_hook_given [OF assms(4)] authenticate_hook)
qed

end
