(* ===== verification/Guards.thy ===== *)
theory Guards imports System begin

text \<open>
  Conditions on the single events of a run, each at its own place. \<open>emits P m\<close> of \<open>System\<close> looks at events only;
  \<open>guarded Q m tr\<close> says of the run of \<open>m\<close> from \<open>tr\<close> that every event in it satisfies \<open>Q\<close> together with the whole
  trace before it. So \<open>Q\<close> can ask what was called directly before, and what the system answered.
\<close>

definition guarded :: "(trace \<Rightarrow> event \<Rightarrow> bool) \<Rightarrow> 'a io \<Rightarrow> trace \<Rightarrow> bool" where
  "guarded Q m tr \<longleftrightarrow> (\<forall>r tr'. m tr = Some (r, tr') \<longrightarrow>
     (\<exists>evs. tr' = tr @ evs \<and> (\<forall>before ev after. evs = before @ ev # after \<longrightarrow> Q (tr @ before) ev)))"

named_theorems guarded_intros \<open>which events the runs allow, each at its place\<close>

lemma guarded_run:
  "m tr = Some y \<Longrightarrow> guarded Q m tr \<Longrightarrow>
     \<exists>evs. snd y = tr @ evs \<and> (\<forall>before ev after. evs = before @ ev # after \<longrightarrow> Q (tr @ before) ev)"
  by (cases y) (auto simp: guarded_def)

lemma guarded_of_run:
  "(\<And>y. m tr = Some y \<Longrightarrow> \<exists>evs. snd y = tr @ evs \<and> (\<forall>before ev after. evs = before @ ev # after \<longrightarrow> Q (tr @ before) ev)) \<Longrightarrow>
     guarded Q m tr"
  unfolding guarded_def by fastforce

lemma guardedD:
  assumes "guarded Q m tr" and "m tr = Some (r, tr @ before @ ev # after)"
  shows "Q (tr @ before) ev"
  using assms unfolding guarded_def by blast

lemma guarded_mono: "guarded Q m tr \<Longrightarrow> (\<And>p ev. Q p ev \<Longrightarrow> R p ev) \<Longrightarrow> guarded R m tr"
  unfolding guarded_def by meson

lemma guarded_emits:
  assumes "emits P m" and "\<And>p ev. P ev \<Longrightarrow> Q p ev"
  shows "guarded Q m tr"
proof -
  have "P ev" if "list_all P (before @ ev # after)" for before ev after using that by simp
  with assms show ?thesis unfolding emits_def guarded_def by metis
qed

text \<open>What the guard of a run can use: the trace before an event begins with the start of the run.\<close>

lemma guarded_later:
  assumes "guarded Q m tr"
  shows "guarded (\<lambda>p ev. Q p ev \<and> (\<exists>mid. p = tr @ mid)) m tr"
  using assms unfolding guarded_def by fastforce

lemma guarded_return [guarded_intros]: "guarded Q (io_return x) tr"
  by (auto simp: guarded_def)

lemma guarded_throw [guarded_intros]: "guarded Q (io_throw e) tr"
  by (auto simp: guarded_def)

lemma guarded_lift [guarded_intros]: "guarded Q (io_lift r) tr"
  by (auto simp: guarded_def)

lemma guarded_call [guarded_intros]: "Q tr ev \<Longrightarrow> guarded Q (io_call ev f) tr"
  by (auto simp: guarded_def Cons_eq_append_conv)

lemma guarded_blocking [guarded_intros]: "Q tr ev \<Longrightarrow> guarded Q (io_blocking ev f) tr"
  by (auto simp: guarded_def Cons_eq_append_conv)

lemma guarded_sys [guarded_intros]: "Q tr ev \<Longrightarrow> guarded Q (io_sys ev f) tr"
  unfolding io_sys_def by (rule guarded_call)

lemma guarded_ask [guarded_intros]: "Q tr ev \<Longrightarrow> guarded Q (io_ask ev f) tr"
  unfolding io_ask_def by (rule guarded_call)

lemma guarded_emit [guarded_intros]: "Q tr ev \<Longrightarrow> guarded Q (io_emit ev) tr"
  unfolding io_emit_def by (rule guarded_ask)

lemma guarded_match [guarded_intros]:
  assumes "guarded Q m tr" and "\<And>r tr1. m tr = Some (r, tr1) \<Longrightarrow> guarded Q (k r) tr1"
  shows "guarded Q (io_match m k) tr"
  unfolding guarded_def
proof (intro allI impI)
  fix q tr'
  assume "io_match m k tr = Some (q, tr')"
  then obtain r tr1 where m: "m tr = Some (r, tr1)" and k: "k r tr1 = Some (q, tr')" by (auto simp: io_simps)
  obtain evs1 where evs1: "tr1 = tr @ evs1" "\<And>before ev after. evs1 = before @ ev # after \<Longrightarrow> Q (tr @ before) ev"
    using assms(1) m unfolding guarded_def by blast
  obtain evs2 where evs2: "tr' = tr1 @ evs2" "\<And>before ev after. evs2 = before @ ev # after \<Longrightarrow> Q (tr1 @ before) ev"
    using assms(2) [OF m] k unfolding guarded_def by blast
  have "Q (tr @ before) ev" if "evs1 @ evs2 = before @ ev # after" for before ev after
  proof -
    from that consider us where "evs1 = before @ ev # us" | us where "before = evs1 @ us" "evs2 = us @ ev # after"
      by (auto simp: append_eq_append_conv2 append_eq_Cons_conv)
    then show ?thesis
      using evs1(2) evs2(2) by cases (auto simp: evs1(1))
  qed
  then show "\<exists>evs. tr' = tr @ evs \<and> (\<forall>before ev after. evs = before @ ev # after \<longrightarrow> Q (tr @ before) ev)"
    using evs1(1) evs2(1) by (intro exI [of _ "evs1 @ evs2"]) simp
qed

lemma guarded_bind [guarded_intros]:
  assumes "guarded Q m tr" and "\<And>x tr1. m tr = Some (Inr x, tr1) \<Longrightarrow> guarded Q (k x) tr1"
  shows "guarded Q (io_bind m k) tr"
  unfolding io_bind_match
proof (rule guarded_match [OF assms(1)])
  fix r tr1
  assume "m tr = Some (r, tr1)"
  then show "guarded Q (case r of Inl e \<Rightarrow> io_throw e | Inr x \<Rightarrow> k x) tr1"
    using assms(2) by (cases r) (auto intro: guarded_throw)
qed

lemmas guarded_run_bind = guarded_run [where m = "io_bind m k" for m k, OF _ guarded_bind]

lemma guarded_if [guarded_intros]:
  "(b \<Longrightarrow> guarded Q m tr) \<Longrightarrow> (\<not> b \<Longrightarrow> guarded Q n tr) \<Longrightarrow> guarded Q (if b then m else n) tr"
  by simp

lemma guarded_case_sum [guarded_intros]:
  "(\<And>e. r = Inl e \<Longrightarrow> guarded Q (h e) tr) \<Longrightarrow> (\<And>x. r = Inr x \<Longrightarrow> guarded Q (k x) tr) \<Longrightarrow>
     guarded Q (case r of Inl e \<Rightarrow> h e | Inr x \<Rightarrow> k x) tr"
  by (cases r) auto

lemma guarded_case_option [guarded_intros]:
  "(y = None \<Longrightarrow> guarded Q m tr) \<Longrightarrow> (\<And>x. y = Some x \<Longrightarrow> guarded Q (k x) tr) \<Longrightarrow>
     guarded Q (case y of None \<Rightarrow> m | Some x \<Rightarrow> k x) tr"
  by (cases y) auto

end
