(* ===== verification/AgentDeadline.thy ===== *)
theory AgentDeadline imports Auth AgentConnection Guards begin

text \<open>
  The deadline of the conversation with the agent, over the whole of it: connecting, and every operation that the client
  library then makes on its stream.
\<close>

section \<open>The client library\<close>

text \<open>
  The client acts on the world through its stream only: whatever guard the three operations of a stream keep, from every
  trace, its own operations keep too.
\<close>

definition client_by_stream :: "('k, 'c) client_lib \<Rightarrow> bool" where
  "client_by_stream cl \<longleftrightarrow> (\<forall>Q rw.
     (\<forall>n tr. guarded Q (rw_read rw n) tr) \<and> (\<forall>s tr. guarded Q (rw_write rw s) tr) \<and> (\<forall>tr. guarded Q (rw_flush rw) tr) \<longrightarrow>
     (\<forall>tr. guarded Q (client_list_all_identities (client_with_read_write cl rw)) tr) \<and>
     (\<forall>idn data tr. guarded Q (client_sign_with_ref (client_with_read_write cl rw) idn data) tr))"

lemma client_by_streamD:
  assumes "client_by_stream cl" and "\<And>n tr. guarded Q (stream_read os deadline n) tr"
    and "\<And>s tr. guarded Q (stream_write os deadline s) tr" and "\<And>tr. guarded Q (stream_flush os deadline) tr"
  shows "guarded Q (client_list_all_identities (client_with_read_write cl (deadline_stream os deadline))) tr"
    and "guarded Q (client_sign_with_ref (client_with_read_write cl (deadline_stream os deadline)) idn data) tr"
proof -
  have "guarded Q (rw_read (deadline_stream os deadline) n) tr" "guarded Q (rw_write (deadline_stream os deadline) s) tr"
      "guarded Q (rw_flush (deadline_stream os deadline)) tr" for n s tr
    using assms(2-4) by (simp_all add: deadline_stream_def)
  with assms(1) show "guarded Q (client_list_all_identities (client_with_read_write cl (deadline_stream os deadline))) tr"
      "guarded Q (client_sign_with_ref (client_with_read_write cl (deadline_stream os deadline)) idn data) tr"
    unfolding client_by_stream_def by blast+
qed

lemma guarded_authenticate:
  assumes "\<And>tr. guarded Q (client_list_all_identities client) tr"
    and "\<And>idn data tr. guarded Q (client_sign_with_ref client idn data) tr"
    and "\<And>p. Q p SystemTimeNow" and "\<And>p n. Q p (GetRandom n)" and "\<And>p a. Q p (Agent a)"
  shows "guarded Q (authenticate lib crypto os flt (client_agent client) princ) tr"
proof -
  have sign: "guarded Q (sign_and_verify lib crypto os idn (client_agent client) strict) tr" for idn strict tr
    unfolding sign_and_verify_key get_challenge_def client_agent_def by (simp, intro guarded_intros assms)
  have "guarded Q (authenticate_loop lib crypto os flt (client_agent client) princ t idns) tr" for t idns tr
    by (induction idns arbitrary: tr) (auto intro!: guarded_intros sign)
  then show ?thesis
    unfolding authenticate_def by (simp add: client_agent_def) (intro guarded_intros assms)
qed

section \<open>Operations that block\<close>

text \<open>
  The time that is left for an operation that may block, read directly before it: a read or write of the socket has it as
  the timeout of the socket, set with success, and the wait for a connection as the timeout of its poll, in
  milliseconds and rounded down, but at least one.
\<close>

definition in_time :: "sock_os \<Rightarrow> nat \<Rightarrow> trace \<Rightarrow> event \<Rightarrow> bool" where
  "in_time os deadline p ev \<longleftrightarrow> (case ev of Sock s \<Rightarrow>
     (case s of
        SockRead _ \<Rightarrow> \<exists>q left. p = q @ [ClockNow, Sock (SetReadTimeout left)] \<and> 0 < left \<and> os_instant os q + left = deadline \<and>
          os_set_read_timeout os left (q @ [ClockNow]) = Inr ()
      | SockWrite _ \<Rightarrow> \<exists>q left. p = q @ [ClockNow, Sock (SetWriteTimeout left)] \<and> 0 < left \<and> os_instant os q + left = deadline \<and>
          os_set_write_timeout os left (q @ [ClockNow]) = Inr ()
      | SockFlush \<Rightarrow> \<exists>q left. p = q @ [ClockNow, Sock (SetWriteTimeout left)] \<and> 0 < left \<and> os_instant os q + left = deadline \<and>
          os_set_write_timeout os left (q @ [ClockNow]) = Inr ()
      | PollConnect ms \<Rightarrow> \<exists>q left. p = q @ [ClockNow] \<and> 0 < left \<and> os_instant os q + left = deadline \<and>
          ms = max 1 (min 2147483647 (left div nanos_per_milli))
      | _ \<Rightarrow> True)
     | _ \<Rightarrow> True)"

lemma in_time_simps [simp]:
  "in_time os deadline p ClockNow" "in_time os deadline p SystemTimeNow" "in_time os deadline p (GetRandom n)"
  "in_time os deadline p (Agent a)" "in_time os deadline p (Fs f)" "in_time os deadline p (Proc c)"
  "in_time os deadline p (Sock Socket)" "in_time os deadline p (Sock (Fcntl setting))"
  "in_time os deadline p (Sock GetStatusFlags)" "in_time os deadline p (Sock (Connect path))"
  "in_time os deadline p (Sock GetSockError)" "in_time os deadline p (Sock CloseSocket)"
  "in_time os deadline p (Sock (SetReadTimeout left))" "in_time os deadline p (Sock (SetWriteTimeout left))"
  by (simp_all add: in_time_def)

lemma stream_in_time:
  "guarded (in_time os deadline) (stream_read os deadline n) tr"
  "guarded (in_time os deadline) (stream_write os deadline s) tr"
  "guarded (in_time os deadline) (stream_flush os deadline) tr"
  unfolding stream_read_def stream_write_def stream_flush_def remaining_def instant_now_def
  by (auto intro!: guarded_intros simp: io_bind_Inr in_time_def result_simps split: if_splits)

lemma poll_in_time:
  assumes "\<not> deadline \<le> os_instant os q"
  shows "in_time os deadline (q @ [ClockNow]) (Sock (PollConnect (connect_millis (deadline - os_instant os q))))"
proof -
  have "0 < deadline - os_instant os q" "os_instant os q + (deadline - os_instant os q) = deadline"
    using assms by simp_all
  then show ?thesis
    unfolding in_time_def connect_millis_def event.case sock_event.case
    by (intro exI [of _ q] exI [of _ "deadline - os_instant os q"] conjI refl)
qed

lemma wait_for_connect_in_time: "guarded (in_time os deadline) (wait_for_connect os deadline) tr"
proof (rule guarded_of_run)
  fix y
  assume "wait_for_connect os deadline tr = Some y"
  then show "\<exists>evs. snd y = tr @ evs \<and> (\<forall>before ev after. evs = before @ ev # after \<longrightarrow> in_time os deadline (tr @ before) ev)"
  proof (induction os deadline tr y rule: wait_for_connect.raw_induct [rotated 1, consumes 1, case_names 1])
    case (1 rec os deadline tr y)
    have rec: "guarded (in_time os deadline) (rec os deadline) t" for t
      by (rule guarded_of_run) (rule 1(1))
    show ?case
      by (rule guarded_run_bind [OF 1(2)])
        (auto intro!: guarded_intros rec poll_in_time simp: instant_now_def)
  qed
qed

lemma connect_unix_in_time: "guarded (in_time os deadline) (connect_unix pf os path deadline) tr"
  unfolding connect_unix_def or_close_def connect_socket_def set_fd_flags_def
  by (intro guarded_intros wait_for_connect_in_time) simp_all

text \<open>One deadline, counted from the start of the connection, bounds the connection and all that follows.\<close>

lemma conversation_in_time:
  assumes "client_by_stream cl"
    and "\<And>found t. guarded (in_time os (os_instant os tr + secs * nanos_per_sec)) (k found) t"
  shows "guarded (in_time os (os_instant os tr + secs * nanos_per_sec))
    (io_bind (agent_connect pf cl os path (Some secs)) (\<lambda>client.
     io_bind (authenticate lib crypto auth_os flt (client_agent client) princ) k)) tr"
proof (intro guarded_bind)
  show "guarded (in_time os (os_instant os tr + secs * nanos_per_sec)) (agent_connect pf cl os path (Some secs)) tr"
    unfolding agent_connect_def option.case Let_def instant_now_def
    by (auto intro!: guarded_intros connect_unix_in_time)
next
  fix client t
  assume "agent_connect pf cl os path (Some secs) tr = Some (Inr client, t)"
  then have "client = client_with_read_write cl (deadline_stream os (os_instant os tr + secs * nanos_per_sec))"
    by (auto simp: agent_connect_def instant_now_def io_bind_Inr Let_def)
  then show "guarded (in_time os (os_instant os tr + secs * nanos_per_sec))
      (authenticate lib crypto auth_os flt (client_agent client) princ) t"
    using client_by_streamD [OF assms(1)] stream_in_time by (intro guarded_authenticate) simp_all
qed (rule assms(2))

end
