(* ===== verification/HelperExec.thy ===== *)
theory HelperExec imports PolicySpec Auth AgentDeadline begin

text \<open>
  What a request may execute. The lemmas follow the one event that matters, the \<open>execve\<close> of a child, through the
  operations of all components: reading files, checking paths and talking to the agent execute nothing, and the
  helper is executed only in the state that its checks and the drop of its privileges leave.
\<close>

section \<open>Operations that execute nothing\<close>

definition no_exec :: "event \<Rightarrow> bool" where
  "no_exec ev \<longleftrightarrow> (\<forall>img. ev \<noteq> Proc (Child (Execve img)))"

lemma no_exec_simps [simp]:
  "no_exec (Fs f)" "no_exec (Sock s)" "no_exec (Agent a)" "no_exec ClockNow" "no_exec SystemTimeNow"
  "no_exec (GetRandom n)"
  by (simp_all add: no_exec_def)

lemma emits_validate_components_from [emits_intros]:
  "(\<And>f. P (Fs f)) \<Longrightarrow> emits P (validate_components_from fs uid links current cs)"
  by (induction cs arbitrary: current) (auto simp: Let_def intro!: emits_intros)

lemma emits_validate_trust_path [emits_intros]: "(\<And>f. P (Fs f)) \<Longrightarrow> emits P (validate_trust_path fs path uid)"
  unfolding validate_trust_path_def validate_components_def by (intro emits_intros) simp_all

lemma emits_from_file [emits_intros]: "(\<And>f. P (Fs f)) \<Longrightarrow> emits P (from_file lib fs filename ca mode)"
  unfolding from_file_def read_to_string_def read_strict_file_def read_bounded_def Let_def
  by (cases mode) (auto intro!: emits_intros)

lemma emits_connect_unix [emits_intros]: "emits no_exec (connect_unix pf os path deadline)"
proof -
  have "emits no_exec (wait_for_connect os deadline)"
    by (rule emits_mono [OF emits_wait_for_connect]) (auto simp: connect_wait_event_def split: event.splits)
  then show ?thesis
    unfolding connect_unix_def or_close_def connect_socket_def set_fd_flags_def by (intro emits_intros) simp_all
qed

lemma emits_agent_connect [emits_intros]: "emits no_exec (agent_connect pf cl os path timeout)"
  unfolding agent_connect_def instant_now_def Let_def by (intro emits_intros) simp_all

lemma emits_stream:
  "emits no_exec (stream_read os deadline n)" "emits no_exec (stream_write os deadline s)"
  "emits no_exec (stream_flush os deadline)"
  unfolding stream_read_def stream_write_def stream_flush_def remaining_def instant_now_def
  by (intro emits_intros; simp)+

section \<open>What is executed, and where in the run\<close>

text \<open>Every execution in the run is one that \<open>Q\<close> allows, given the whole trace before it.\<close>

definition exec_guard :: "(trace \<Rightarrow> exec_image \<Rightarrow> bool) \<Rightarrow> trace \<Rightarrow> event \<Rightarrow> bool" where
  "exec_guard Q p ev \<longleftrightarrow> (\<forall>img. ev = Proc (Child (Execve img)) \<longrightarrow> Q p img)"

lemma exec_guard_no_exec: "no_exec ev \<Longrightarrow> exec_guard Q p ev"
  by (simp add: exec_guard_def no_exec_def)

abbreviation execs :: "(trace \<Rightarrow> exec_image \<Rightarrow> bool) \<Rightarrow> 'a io \<Rightarrow> trace \<Rightarrow> bool" where
  "execs Q \<equiv> guarded (exec_guard Q)"

lemma execs_no_exec: "emits no_exec m \<Longrightarrow> execs Q m tr"
  by (erule guarded_emits) (rule exec_guard_no_exec)

lemma execs_mono: "execs Q m tr \<Longrightarrow> (\<And>p img. Q p img \<Longrightarrow> R p img) \<Longrightarrow> execs R m tr"
  by (erule guarded_mono) (simp add: exec_guard_def)

lemma execs_client:
  assumes "client_by_stream cl"
  shows "execs Q (authenticate lib crypto os flt (client_agent (client_with_read_write cl (deadline_stream sock deadline))) princ) tr"
proof -
  note stream = emits_stream [THEN execs_no_exec]
  show ?thesis
    by (intro guarded_authenticate client_by_streamD [OF assms] stream) (simp_all add: exec_guard_no_exec)
qed

section \<open>The helper\<close>

text \<open>
  The state in which the helper of the strict mode is executed: the last thing before the fork was the check of the path
  of the command, which led to this program; and between the fork and here the child could start no
  further process, left the groups of the module, and took the group \<open>nogroup\<close> and the helper's user.
\<close>

definition confined_exec :: "fs_os \<Rightarrow> proc_os \<Rightarrow> string \<Rightarrow> string \<Rightarrow> uid \<Rightarrow> trace \<Rightarrow> exec_image \<Rightarrow> bool" where
  "confined_exec fs proc caller command uid p img \<longleftrightarrow>
     (\<exists>exe t pre gid. validate_trust_path fs command 0 t = Some (Inr exe, pre) \<and> is_absolute exe \<and>
        default_low_privilege_gid proc = Inr gid \<and>
        img = ExecImage exe [caller] [(''LANG'', ''C''), (''LC_ALL'', ''C''), (''PATH'', ''/usr/bin:/bin'')] True \<and>
        p = pre @ [ClockNow, Proc Fork] @ child_trace (privilege_drop True (os_geteuid proc = 0) gid uid) \<and>
        all_succeed proc (privilege_drop True (os_geteuid proc = 0) gid uid) (pre @ [ClockNow, Proc Fork]))"

lemma execve_not_in_drop: "Proc (Child (Execve img)) \<notin> set (child_trace (privilege_drop prevent root gid uid))"
  by (auto simp: child_trace_def privilege_drop_def)

lemma emits_run_inner [emits_intros]:
  assumes "P ClockNow" and "\<And>e. P (Proc e)"
  shows "emits P (run_inner os command timeout uid egid prevent)"
proof (rule emitsI)
  fix tr r tr'
  assume "run_inner os command timeout uid egid prevent tr = Some (r, tr')"
  then show "\<exists>evs. tr' = tr @ evs \<and> list_all P evs"
  proof (cases rule: run_inner_run)
    case (refused e)
    then show ?thesis by simp
  next
    case (spawned exe args gid q tr1)
    have "emits parent_event (case q of Inl e \<Rightarrow> io_throw e | Inr pid \<Rightarrow>
          io_bind (or_reap os pid id (io_bind (set_nonblocking os Stdout) (\<lambda>_. set_nonblocking os Stderr))) (\<lambda>_.
          io_bind (run_loop os pid exe timeout (os_now os tr + timeout) initial_run_state) (\<lambda>st.
          io_lift (finish_run exe st))))"
      by (intro emits_intros)
    with spawned(5) obtain rest where rest: "tr' = tr1 @ rest" "list_all parent_event rest" by (blast elim: emitsD)
    have "P ev" if "parent_event ev" for ev
      using that assms by (cases ev) (auto simp: parent_event_def)
    then have "list_all P rest" using rest(2) by (auto simp: list_all_iff)
    moreover have "\<exists>evs. tr1 = tr @ evs \<and> list_all P evs"
      using spawned(4) by (cases rule: spawn_run) (auto simp: child_trace_def list_all_iff assms)
    ultimately show ?thesis using rest(1) by fastforce
  qed
qed

lemma emits_new_with_mode:
  assumes "P ClockNow" and "\<And>e. P (Proc e)" and "\<And>f. P (Fs f)"
  shows "emits P (new_with_mode lib hst fs proc file ca_file cmd cmd_user caller mode)"
  unfolding new_with_mode_def from_command_def cmd_run_def run_without_descendants_def Let_def
  by (intro emits_intros assms)

lemma execs_helper:
  assumes "validate_trust_path fs command 0 t = Some (Inr exe, tr)"
  shows "execs (confined_exec fs proc caller command uid) (run_without_descendants proc [exe, caller] timeout uid None) tr"
  unfolding guarded_def run_without_descendants_def
proof (intro allI impI)
  fix r tr'
  assume run: "run_inner proc [exe, caller] timeout uid None True tr = Some (r, tr')"
  obtain evs where evs: "tr' = tr @ evs"
    using run emits_run_inner [where P = "\<lambda>_. True"] by (blast elim: emitsD)
  have "confined_exec fs proc caller command uid (tr @ before) img"
    if split: "evs = before @ Proc (Child (Execve img)) # after" for before img after
  proof -
    have "Proc (Child (Execve img)) \<in> set evs" using split by simp
    from run_inner_exec [OF run [unfolded evs] this] obtain gid rest where
        gid: "default_low_privilege_gid proc = Inr gid" and abs: "is_absolute exe"
        and img: "img = ExecImage exe [caller] [(''LANG'', ''C''), (''LC_ALL'', ''C''), (''PATH'', ''/usr/bin:/bin'')] True"
        and whole: "evs = ([ClockNow, Proc Fork] @ child_trace (privilege_drop True (os_geteuid proc = 0) gid uid)) @
          Proc (Child (Execve img)) # rest"
        and succ: "all_succeed proc (privilege_drop True (os_geteuid proc = 0) gid uid) (tr @ [ClockNow, Proc Fork])"
        and parent: "list_all parent_event rest"
      by auto
    let ?pre = "[ClockNow, Proc Fork] @ child_trace (privilege_drop True (os_geteuid proc = 0) gid uid)"
    have "Proc (Child (Execve img)) \<notin> set ?pre" using execve_not_in_drop by simp
    moreover have "Proc (Child (Execve img)) \<notin> set rest" using parent by (auto simp: list_all_iff)
    ultimately have "before = ?pre"
      using whole split append_Cons_eq_iff [of "Proc (Child (Execve img))" ?pre rest before after] by simp
    with assms gid abs img succ show ?thesis unfolding confined_exec_def by simp blast
  qed
  with evs show "\<exists>evs. tr' = tr @ evs \<and> (\<forall>before ev after. evs = before @ ev # after \<longrightarrow>
      exec_guard (confined_exec fs proc caller command uid) (tr @ before) ev)"
    by (intro exI [of _ evs]) (simp add: exec_guard_def)
qed

lemma execs_from_command:
  "execs (confined_exec fs proc caller command uid) (from_command lib fs proc command uid caller Strict) tr"
  unfolding from_command_def
proof (rule guarded_bind)
  show "execs Q (if Strict = Strict then
         io_bind (validate_trust_path fs command 0) (\<lambda>canonical.
         if utf8_valid canonical then io_return canonical
         else io_throw (Anyhow ''Strict helper path is not valid UTF-8'' []))
       else io_return command) tr" for Q
    by (intro execs_no_exec emits_intros) simp_all
next
  fix exe tr1
  assume "(if Strict = Strict then
         io_bind (validate_trust_path fs command 0) (\<lambda>canonical.
         if utf8_valid canonical then io_return canonical
         else io_throw (Anyhow ''Strict helper path is not valid UTF-8'' []))
       else io_return command) tr = Some (Inr exe, tr1)"
  then have checked: "validate_trust_path fs command 0 tr = Some (Inr exe, tr1)"
    by (auto simp: io_simps split: if_splits)
  show "execs (confined_exec fs proc caller command uid)
      (io_bind (if Strict = Strict then run_without_descendants proc [exe, caller] MAX_DURATION uid None
         else cmd_run proc [exe, caller] MAX_DURATION uid None)
       (\<lambda>buf. io_lift (parse_policy lib buf (exe @ '':(output):'') False Strict))) tr1"
    using execs_helper [OF checked] by (auto intro!: guarded_bind intro: execs_no_exec emits_lift)
qed

text \<open>The helper that is configured, and its user.\<close>

definition helper_exec :: "host \<Rightarrow> fs_os \<Rightarrow> proc_os \<Rightarrow> string option \<Rightarrow> string option \<Rightarrow> string \<Rightarrow> trace \<Rightarrow> exec_image \<Rightarrow> bool" where
  "helper_exec hst fs proc cmd cmd_user caller p img \<longleftrightarrow>
     (\<exists>command uid. cmd = Some command \<and> get_uid hst (case cmd_user of Some u \<Rightarrow> u | None \<Rightarrow> caller) = Inr uid \<and>
        confined_exec fs proc caller command uid p img)"

lemma execs_new_with_mode:
  "execs (helper_exec hst fs proc cmd cmd_user caller)
     (new_with_mode lib hst fs proc file ca_file cmd cmd_user caller Strict) tr"
proof -
  have helper: "execs (helper_exec hst fs proc cmd cmd_user caller) (case cmd of
         None \<Rightarrow> io_return ids
       | Some command \<Rightarrow>
           let user = (case cmd_user of Some u \<Rightarrow> u | None \<Rightarrow> caller) in
           io_bind (io_lift (get_uid hst user)) (\<lambda>uid.
           io_bind (from_command lib fs proc command uid caller Strict) (\<lambda>keys. io_return (ids @ keys)))) t" for ids t
  proof (cases cmd)
    case None
    then show ?thesis by (simp add: execs_no_exec emits_return)
  next
    case (Some command)
    have "execs (helper_exec hst fs proc cmd cmd_user caller) (from_command lib fs proc command uid caller Strict) t"
      if "get_uid hst (case cmd_user of Some u \<Rightarrow> u | None \<Rightarrow> caller) = Inr uid" for uid t
      by (rule execs_mono [OF execs_from_command]) (use that Some in \<open>auto simp: helper_exec_def\<close>)
    then show ?thesis
      unfolding Some option.case Let_def
      by (intro guarded_bind) (auto intro: execs_no_exec emits_lift emits_return)
  qed
  show ?thesis
    unfolding new_with_mode_def
    by (intro guarded_bind helper) (auto intro!: execs_no_exec emits_intros)
qed

end
