(* ===== verification/Requests.thy ===== *)
theory Requests imports Module HelperExec begin

text \<open>
  Properties of a whole request, from the entry point that libpam calls to the agent, the files and the helper, that need
  the lemmas of several components; and a concrete request on which the properties of the module are
  evaluated.
\<close>

section \<open>Strings stay well formed\<close>

lemma context_well_formed:
  assumes "new_pam_context (pam_handle_impl os lib h) = Inr ctx"
  shows "utf8_valid (ctx_calling_user ctx)" and "utf8_valid (ctx_service ctx)" and "well_formed_handle (context_handle ctx)"
  using assms pam_handle_well_formed [of os lib h] by (auto simp: new_pam_context_Inr well_formed_handle_def context_handle_def)

text \<open>
  C27: the strings of a request keep the invariant of their type. From a context that was read from libpam and arguments
  that parse, the user, the service and all values of the parameters are well-formed UTF-8; and none of the
  slices that the expansion of the arguments takes panics.
\<close>

theorem request_strings_well_formed:
  assumes "new_pam_context (pam_handle_impl os lib h) = Inr ctx"
    and "args_parse as (unix_environment hst) (context_handle ctx) = Inr a"
  shows "utf8_valid (ctx_calling_user ctx) \<and> utf8_valid (ctx_service ctx) \<and> well_formed_args a \<and>
    (\<forall>arg\<in>set as. expand_vars_sliced arg (unix_environment hst) (context_handle ctx) =
       Some (expand_vars arg (unix_environment hst) (context_handle ctx)))"
proof -
  obtain st where "parse_loop (unix_environment hst) (context_handle ctx) as (initial_vars (''strict'' \<in> set as)) = Inr st"
    using assms(2) by (auto simp: args_parse_Inr)
  then have "utf8_valid arg" if "arg \<in> set as" for arg using that by (rule parse_loop_utf8)
  then show ?thesis
    using context_well_formed [OF assms(1)] args_parse_well_formed [OF unix_well_formed _ assms(2)]
      expand_vars_sliced_total [OF _ unix_well_formed] by blast
qed

section \<open>The key file of a strict request\<close>

text \<open>An argument that is a word, or sets another parameter than \<open>file\<close>.\<close>

definition sets_no_file :: "string \<Rightarrow> bool" where
  "sets_no_file arg \<longleftrightarrow> is_flag arg \<or>
     (\<exists>key v. arg = key @ CHR ''='' # v \<and> marker_free key \<and> CHR ''='' \<notin> set key \<and> key \<noteq> ''file'')"

lemma sets_no_file_assignment:
  assumes "sets_no_file arg" and "assignment env handle arg = Some (k, v)"
  shows "k \<noteq> ''file''"
proof -
  have "\<not> is_flag arg" using assms(2) by (auto simp: assignment_def)
  with assms(1) obtain key w where arg: "arg = (key @ ''='') @ w" and key: "marker_free key" "CHR ''='' \<notin> set key" "key \<noteq> ''file''"
    unfolding sets_no_file_def by auto
  obtain t where t: "expand_vars arg env handle = Inr t" "split_once CHR ''='' t = Some (k, v)"
    using assms(2) \<open>\<not> is_flag arg\<close> by (auto simp: assignment_parameter)
  have "\<forall>c\<in>set (key @ ''=''). \<not> is_marker c" using key(1) by (auto simp: marker_free_iff is_marker_def)
  then obtain u where "t = (key @ ''='') @ u" using t(1) unfolding arg by (rule vars.prefix_kept)
  then show ?thesis using t(2) key by (simp add: split_once_append)
qed

lemma last_file:
  assumes "assignment env handle arg = Some (''file'', v)" and "\<forall>arg\<in>set ys. sets_no_file arg"
  shows "map_of (rev (assignments env handle (xs @ arg # ys))) ''file'' = Some v"
  using assms sets_no_file_assignment by (intro last_assignment) blast+

lemma plain_user_name_marker_free:
  assumes "plain_user_name user"
  shows "marker_free user" and "CHR ''/'' \<notin> set user" and "CHR ''.'' \<notin> set user"
proof -
  have "\<not> is_marker c \<and> c \<noteq> CHR ''/'' \<and> c \<noteq> CHR ''.''" if "c \<in> set user" for c
    using assms that by (auto simp: plain_user_name_def is_marker_def is_ascii_alphanumeric_def)
  then show "marker_free user" "CHR ''/'' \<notin> set user" "CHR ''.'' \<notin> set user"
    by (auto simp: marker_free_iff)
qed

lemma file_assignment:
  assumes "ext_calling_user handle = Inr user" and "marker_free user" and "marker_free a" and "marker_free b"
  shows "assignment env handle (''file='' @ a @ ''%u'' @ b) = Some (''file'', a @ user @ b)"
proof -
  have "expand_vars ((''file='' @ a) @ CHR ''%'' # CHR ''u'' # b) env handle = Inr ((''file='' @ a) @ user @ b)"
    using assms by (intro expand_vars_variable) (simp_all add: is_marker_def variable_value_def)
  then show ?thesis
    using split_once_append [of "CHR ''=''" "''file''" "a @ user @ b"] by (simp add: assignment_def is_flag_def)
qed

text \<open>
  C4: the key file of a strict request is the caller's own. If the last argument that sets the file is
  \<open>file=\<close> with one \<open>%u\<close> and no other marker, then a successful request began with reading, under the strict rules,
  the file at exactly this path with the name of the calling user in the place of \<open>%u\<close>, which is a plain
  name: it holds no slash and no dot, so it can not lead to another directory.
\<close>

theorem strict_key_file:
  assumes "call_entry_point (pam_ssh_agent m ls) Pam_sm_authenticate pamh flags argc argv tr = Some (Returns PAM_SUCCESS, tr')"
    and "args_given argc argv (xs @ (''file='' @ a @ ''%u'' @ b) # ys)"
    and "''strict'' \<in> set (xs @ (''file='' @ a @ ''%u'' @ b) # ys)"
    and "marker_free a" and "marker_free b" and "\<forall>arg\<in>set ys. sets_no_file arg"
  shows "\<exists>h user buf t. pamh = Some h \<and>
    ext_calling_user (pam_handle_impl (m_platform m) (m_libpam m) h) = Inr user \<and>
    plain_user_name user \<and> CHR ''/'' \<notin> set user \<and> CHR ''.'' \<notin> set user \<and>
    strict_read (m_fs m) (a @ user @ b) 0 tr buf t \<and> policy_ok (m_ssh_key m) Strict buf"
proof -
  obtain h ctx args flt t where handle: "pamh = Some h"
      and ctx: "new_pam_context (pam_handle_impl (m_platform m) (m_libpam m) h) = Inr ctx"
      and request: "strict_request m (xs @ (''file='' @ a @ ''%u'' @ b) # ys) args ctx"
      and flt: "module_filter m args ctx tr = Some (Inr flt, t)"
    using assms(1-3) by (rule strict_run)
  note fields = request [unfolded strict_request_def]
  have plain: "plain_user_name (ctx_calling_user ctx)" using fields by (auto simp: local_account_def)
  have "assignment (unix_environment (m_host m)) (context_handle ctx) (''file='' @ a @ ''%u'' @ b) =
      Some (''file'', a @ ctx_calling_user ctx @ b)"
    using plain_user_name_marker_free [OF plain] assms(4,5) by (intro file_assignment) (simp_all add: context_handle_def)
  from last_file [OF this assms(6), of xs] have key_file: "args_file args = a @ ctx_calling_user ctx @ b"
    using args_parse_fields [OF fields [THEN conjunct1]] by simp
  obtain srcs texts where "configured (m_host m) (args_file args) (args_ca_keys_file args) (args_authorized_keys_command args)
        (args_authorized_keys_command_user args) (ctx_calling_user ctx) srcs"
      "loads (m_fs m) (m_proc m) Strict (ctx_calling_user ctx) srcs tr texts t" "texts_ok (m_ssh_key m) Strict texts"
    using flt unfolding module_filter_strict [OF fields [THEN conjunct2, THEN conjunct1]] by blast
  then obtain buf t1 where "strict_read (m_fs m) (a @ ctx_calling_user ctx @ b) 0 tr buf t1" "policy_ok (m_ssh_key m) Strict buf"
    unfolding configured_def key_file by (auto simp: loads_simps reads_text_def)
  then show ?thesis
    using handle ctx plain plain_user_name_marker_free [OF plain] unfolding new_pam_context_Inr by blast
qed

section \<open>What a strict request executes\<close>

lemma execs_ask_agent:
  assumes "client_by_stream (m_client_lib m)" and "args_agent_timeout a = Some secs"
  shows "execs Q (ask_agent m a ctx flt) tr"
  unfolding ask_agent_def
proof (intro guarded_bind)
  fix path client t1 t2
  assume "agent_connect (m_platform m) (m_client_lib m) (m_sock m) path (args_agent_timeout a) t1 = Some (Inr client, t2)"
  then obtain deadline where "client = client_with_read_write (m_client_lib m) (deadline_stream (m_sock m) deadline)"
    using assms(2) by (auto simp: agent_connect_def io_bind_Inr Let_def)
  then show "execs Q (authenticate (m_ssh_key m) (m_crypto m) (m_auth_os m) flt (client_agent client) (ctx_calling_user ctx)) t2"
    using execs_client [OF assms(1)] by simp
qed (auto intro!: execs_no_exec emits_intros)

lemma execs_do_authenticate:
  assumes "client_by_stream (m_client_lib m)" and "strict_request m as a ctx"
  shows "execs (helper_exec (m_host m) (m_fs m) (m_proc m) (args_authorized_keys_command a)
    (args_authorized_keys_command_user a) (ctx_calling_user ctx)) (do_authenticate m a ctx) tr"
proof -
  obtain secs where secs: "args_agent_timeout a = Some secs" and strict: "args_strict a"
    using assms(2) by (auto simp: strict_request_def)
  have "execs (helper_exec (m_host m) (m_fs m) (m_proc m) (args_authorized_keys_command a)
      (args_authorized_keys_command_user a) (ctx_calling_user ctx)) (module_filter m a ctx) t" for t
    using execs_new_with_mode strict by (simp add: module_filter_def filter_new_strict_def)
  moreover have "execs Q (if shortcut then io_return () else ask_agent m a ctx flt) t" for Q shortcut flt t
    using execs_ask_agent [OF assms(1) secs] by (auto intro: execs_no_exec emits_return)
  ultimately show ?thesis
    unfolding do_authenticate_def by (intro guarded_bind) (auto intro!: execs_no_exec emits_intros)
qed

text \<open>A strict request that leaves the process at all has passed the checks that come first.\<close>

lemma strict_run_cases:
  assumes "args_given argc argv as" and "''strict'' \<in> set as"
    and "call_entry_point (pam_ssh_agent m ls) Pam_sm_authenticate (Some h) flags argc argv tr = Some (r, tr')"
  obtains (nothing) "tr' = tr"
  | (authenticating) ctx a q where "new_pam_context (pam_handle_impl (m_platform m) (m_libpam m) h) = Inr ctx"
      and "strict_request m as a ctx" and "do_authenticate m a ctx tr = Some (q, tr')"
proof -
  obtain q where "fst (pam_run m as h tr ls) = Some (q, tr')"
    using assms(3) by (auto simp: invoke_hook_given [OF assms(1)] authenticate_hook)
  then have "tr' = tr \<or> (\<exists>ctx a. new_pam_context (pam_handle_impl (m_platform m) (m_libpam m) h) = Inr ctx \<and>
      args_parse as (unix_environment (m_host m)) (context_handle ctx) = Inr a \<and>
      check_strict_users (m_host m) a ctx = Inr () \<and> do_authenticate m a ctx tr = Some (q, tr'))"
    by (auto simp: pam_run_def with_debug_def split: sum.splits prod.splits)
  then show thesis
  proof
    assume "tr' = tr"
    then show thesis by (rule nothing)
  next
    assume "\<exists>ctx a. new_pam_context (pam_handle_impl (m_platform m) (m_libpam m) h) = Inr ctx \<and>
      args_parse as (unix_environment (m_host m)) (context_handle ctx) = Inr a \<and>
      check_strict_users (m_host m) a ctx = Inr () \<and> do_authenticate m a ctx tr = Some (q, tr')"
    then obtain ctx a where "new_pam_context (pam_handle_impl (m_platform m) (m_libpam m) h) = Inr ctx"
        "args_parse as (unix_environment (m_host m)) (context_handle ctx) = Inr a"
        "check_strict_users (m_host m) a ctx = Inr ()" "do_authenticate m a ctx tr = Some (q, tr')" by blast
    then show thesis using authenticating strict_requestI [OF _ assms(2)] by blast
  qed
qed

text \<open>
  C3: nothing is executed with privileges. Whatever the result of a request with the word \<open>strict\<close> among its
  arguments, each \<open>execve\<close> in its run is that of the configured helper, directly after its path was checked and led to
  this program, by a child that can start no further process, has left the groups of the module and
  has taken the group \<open>nogroup\<close> and a local user that is not root, with every one of these calls a success; its one
  argument is the calling user and its environment the three fixed variables. The client library is taken to act on the
  world through its stream only.
\<close>

theorem strict_exec_dropped:
  assumes "client_by_stream (m_client_lib m)" and "args_given argc argv as" and "''strict'' \<in> set as"
    and "call_entry_point (pam_ssh_agent m ls) Pam_sm_authenticate (Some h) flags argc argv tr =
      Some (r, tr @ before @ Proc (Child (Execve img)) # after)"
  shows "\<exists>ctx a command hu t pre exe gid.
    new_pam_context (pam_handle_impl (m_platform m) (m_libpam m) h) = Inr ctx \<and>
    args_parse as (unix_environment (m_host m)) (context_handle ctx) = Inr a \<and>
    args_authorized_keys_command a = Some command \<and>
    local_account (m_host m) (helper_account a ctx) hu \<and> user_uid hu \<noteq> 0 \<and>
    validate_trust_path (m_fs m) command 0 t = Some (Inr exe, pre) \<and>
    default_low_privilege_gid (m_proc m) = Inr gid \<and>
    img = ExecImage exe [ctx_calling_user ctx] [(''LANG'', ''C''), (''LC_ALL'', ''C''), (''PATH'', ''/usr/bin:/bin'')] True \<and>
    tr @ before = pre @ [ClockNow, Proc Fork] @
      child_trace (privilege_drop True (os_geteuid (m_proc m) = 0) gid (user_uid hu)) \<and>
    all_succeed (m_proc m) (privilege_drop True (os_geteuid (m_proc m) = 0) gid (user_uid hu)) (pre @ [ClockNow, Proc Fork])"
proof -
  let ?evs = "before @ Proc (Child (Execve img)) # after"
  from assms(2-4) show ?thesis
  proof (cases rule: strict_run_cases)
    case nothing
    then show ?thesis by simp
  next
    case (authenticating ctx a q)
    note request = authenticating(2) [unfolded strict_request_def]
    have "helper_exec (m_host m) (m_fs m) (m_proc m) (args_authorized_keys_command a)
      (args_authorized_keys_command_user a) (ctx_calling_user ctx) (tr @ before) img"
      using guardedD [OF execs_do_authenticate [OF assms(1) authenticating(2)] authenticating(3)] by (simp add: exec_guard_def)
    then obtain command uid where command: "args_authorized_keys_command a = Some command"
        and uid: "get_uid (m_host m) (helper_account a ctx) = Inr uid"
        and exec: "confined_exec (m_fs m) (m_proc m) (ctx_calling_user ctx) command uid (tr @ before) img"
      unfolding helper_exec_def helper_account_def by blast
    obtain hu where hu: "local_account (m_host m) (helper_account a ctx) hu" "user_uid hu \<noteq> 0"
      using request command by auto
    then have "uid = user_uid hu"
      using uid by (auto simp: get_uid_def local_account_def result_simps)
    with exec show ?thesis
      unfolding confined_exec_def using authenticating(1) request command hu by blast
  qed
qed

section \<open>How long a strict request may block\<close>

lemma sock_free_filter: "guarded (\<lambda>p ev. \<forall>s. ev = Sock s \<longrightarrow> Q p s) (module_filter m a ctx) tr"
  by (rule guarded_emits [where P = "\<lambda>ev. \<forall>s. ev \<noteq> Sock s"])
    (auto simp: module_filter_def filter_new_def filter_new_strict_def intro!: emits_new_with_mode)

lemma ask_agent_in_time:
  assumes "client_by_stream (m_client_lib m)" and "args_agent_timeout a = Some secs"
  shows "guarded (in_time (m_sock m) (os_instant (m_sock m) tr + secs * nanos_per_sec)) (ask_agent m a ctx flt) tr"
proof (cases "get_path (m_host m) a")
  case (Inl e)
  then show ?thesis by (simp add: guarded_def ask_agent_def io_step)
next
  case (Inr path)
  have "ask_agent m a ctx flt tr = (io_bind (agent_connect (m_platform m) (m_client_lib m) (m_sock m) path (Some secs)) (\<lambda>client.
     io_bind (authenticate (m_ssh_key m) (m_crypto m) (m_auth_os m) flt (client_agent client) (ctx_calling_user ctx)) (\<lambda>found.
     if found then io_return ()
     else io_throw (Anyhow ''Agent did not know of any of the allowed keys'' [])))) tr"
    by (simp add: ask_agent_def Inr assms(2) io_step)
  moreover have "guarded (in_time (m_sock m) (os_instant (m_sock m) tr + secs * nanos_per_sec))
    (io_bind (agent_connect (m_platform m) (m_client_lib m) (m_sock m) path (Some secs)) (\<lambda>client.
     io_bind (authenticate (m_ssh_key m) (m_crypto m) (m_auth_os m) flt (client_agent client) (ctx_calling_user ctx)) (\<lambda>found.
     if found then io_return ()
     else io_throw (Anyhow ''Agent did not know of any of the allowed keys'' [])))) tr"
    by (intro conversation_in_time assms(1) guarded_intros)
  ultimately show ?thesis unfolding guarded_def by simp
qed

text \<open>The sockets of a request, all after one point of its run and in time for one deadline.\<close>

definition sock_deadline :: "sock_os \<Rightarrow> nat \<Rightarrow> trace \<Rightarrow> trace \<Rightarrow> event list \<Rightarrow> bool" where
  "sock_deadline os secs pre tr evs \<longleftrightarrow> (\<forall>before s after. evs = before @ Sock s # after \<longrightarrow>
     (\<exists>mid. tr @ before = pre @ mid) \<and> in_time os (os_instant os pre + secs * nanos_per_sec) (tr @ before) (Sock s))"

lemma do_authenticate_in_time:
  assumes "client_by_stream (m_client_lib m)" and "args_agent_timeout a = Some secs"
    and "do_authenticate m a ctx tr = Some (q, tr @ evs)"
  shows "\<exists>pre. sock_deadline (m_sock m) secs pre tr evs"
proof -
  let ?os = "m_sock m"
  let ?Q = "\<lambda>pre p ev. \<forall>s. ev = Sock s \<longrightarrow>
      (\<exists>mid. p = pre @ mid) \<and> in_time ?os (os_instant ?os pre + secs * nanos_per_sec) p (Sock s)"
  have ask: "guarded (?Q t) (ask_agent m a ctx flt) t" for flt t
    by (rule guarded_mono [OF guarded_later [OF ask_agent_in_time [OF assms(1,2)]]]) blast
  have "\<exists>pre. guarded (?Q pre) (do_authenticate m a ctx) tr"
  proof (cases "\<exists>flt t. module_filter m a ctx tr = Some (Inr flt, t)")
    case True
    then obtain flt t where flt: "module_filter m a ctx tr = Some (Inr flt, t)" by blast
    have "guarded (?Q t) (do_authenticate m a ctx) tr"
      unfolding do_authenticate_def
    proof (intro guarded_bind sock_free_filter)
      fix flt' t1 shortcut t2
      assume "module_filter m a ctx tr = Some (Inr flt', t1)"
        and "(if args_sshd_shortcut a
           then io_lift (check_sshd_special_case (m_ssh_key m) (Some (ctx_service ctx)) flt' (unix_environment (m_host m)))
           else io_return False) t1 = Some (Inr shortcut, t2)"
      then have "t2 = t" using flt by (auto split: if_splits)
      then show "guarded (?Q t) (if shortcut then io_return () else ask_agent m a ctx flt') t2"
        using ask by (auto intro: guarded_return)
    qed (auto intro: guarded_lift guarded_return)
    then show ?thesis ..
  next
    case False
    then have "guarded (?Q tr) (do_authenticate m a ctx) tr"
      unfolding do_authenticate_def by (intro guarded_bind sock_free_filter) auto
    then show ?thesis ..
  qed
  then obtain pre where "guarded (?Q pre) (do_authenticate m a ctx) tr" ..
  then have "sock_deadline ?os secs pre tr evs"
    unfolding sock_deadline_def using guardedD assms(3) by blast
  then show ?thesis ..
qed

text \<open>
  C5: the agent can not hold up a strict request. In the run of a request with the word \<open>strict\<close> among its
  arguments, whatever its result, there are a point and a number of seconds, from 1 to 300, which fix one
  deadline, such that every use of the socket comes after this point, and each one that may block is in time:
  the time was read directly before, some was left, and exactly this was set as the timeout of the read, the write or
  the flush, or is the timeout of the poll. The client library is taken to act on the world through its stream only.
\<close>

theorem strict_agent_deadline:
  assumes "client_by_stream (m_client_lib m)" and "args_given argc argv as" and "''strict'' \<in> set as"
    and "call_entry_point (pam_ssh_agent m ls) Pam_sm_authenticate (Some h) flags argc argv tr = Some (r, tr @ evs)"
  shows "\<exists>pre secs. 1 \<le> secs \<and> secs \<le> 300 \<and> (\<forall>before s after. evs = before @ Sock s # after \<longrightarrow>
    (\<exists>mid. tr @ before = pre @ mid) \<and>
    in_time (m_sock m) (os_instant (m_sock m) pre + secs * nanos_per_sec) (tr @ before) (Sock s))"
  unfolding sock_deadline_def [symmetric]
  using assms(2-4)
proof (cases rule: strict_run_cases)
  case nothing
  then have "sock_deadline (m_sock m) 1 tr tr evs" by (simp add: sock_deadline_def)
  then show "\<exists>pre secs. 1 \<le> secs \<and> secs \<le> 300 \<and> sock_deadline (m_sock m) secs pre tr evs"
    by (intro exI [of _ tr] exI [of _ 1]) simp
next
  case (authenticating ctx a q)
  then obtain secs where "args_agent_timeout a = Some secs" "1 \<le> secs" "secs \<le> 300" by (auto simp: strict_request_def)
  then show "\<exists>pre secs. 1 \<le> secs \<and> secs \<le> 300 \<and> sock_deadline (m_sock m) secs pre tr evs"
    using do_authenticate_in_time [OF assms(1) _ authenticating(3)] by blast
qed

section \<open>A concrete request\<close>

text \<open>
  The user \<open>ann\<close> calls \<open>sudo\<close> on a Linux machine, with an agent that holds the keys 5 and 1 and can sign with 1,
  which is the one key in the policy file.
\<close>

definition example_pam :: "unit libpam" where
  "example_pam = \<lparr>pam_get_data = (\<lambda>_ _. (18, None)), pam_set_data = (\<lambda>h _ _. (0, h)),
     pam_get_item = (\<lambda>_ item. (0, if item = 2 then Some ''ann'' else if item = 1 then Some ''sudo'' else None)),
     pam_set_item = (\<lambda>h _ _. (0, h)), pam_get_user = (\<lambda>h _. ((0, Some ''ann''), h))\<rparr>"

definition example_sudo_host :: host where
  "example_sudo_host = \<lparr>get_user_by_name = (\<lambda>n. if n = ''ann'' then Some example_user else None),
     hostname_get = Inr ''web.example.org'', environ = (\<lambda>v. if v = ''SSH_AUTH_SOCK'' then Some ''/a'' else None)\<rparr>"

definition example_machine :: "(unit, nat, nat, nat) machine" where
  "example_machine = \<lparr>m_platform = Linux, m_libpam = example_pam,
     m_host = example_sudo_host,
     m_fs = example_fs ''key'', m_proc = example_proc, m_sock = example_sock, m_auth_os = example_os,
     m_log_os = example_log_os, m_ssh_key = example_lib,
     m_client_lib = \<lparr>client_connect = (\<lambda>_ _. Some (Inr example_client)), client_with_read_write = (\<lambda>_. example_client)\<rparr>,
     m_crypto = example_crypto\<rparr>"

definition example_argv :: "string list" where
  "example_argv = [''strict'', ''file=/etc/keys/%u'']"

definition example_args :: args where
  "example_args = \<lparr>args_debug = False, args_file = ''/etc/keys/ann'', args_default_ssh_auth_sock = None,
     args_ca_keys_file = None, args_authorized_keys_command = None, args_authorized_keys_command_user = None,
     args_strict = True, args_sshd_shortcut = False, args_agent_timeout = Some 30\<rparr>"

definition example_ctx :: pam_context where
  "example_ctx = \<lparr>ctx_calling_user = ''ann'', ctx_service = ''sudo''\<rparr>"

lemma machine_simps [simp]:
  "m_platform example_machine = Linux" "m_libpam example_machine = example_pam"
  "m_fs example_machine = example_fs ''key''" "m_proc example_machine = example_proc"
  "m_sock example_machine = example_sock" "m_auth_os example_machine = example_os"
  "m_log_os example_machine = example_log_os" "m_ssh_key example_machine = example_lib"
  "m_crypto example_machine = example_crypto" "m_host example_machine = example_sudo_host"
  by (simp_all add: example_machine_def)

lemma example_context: "new_pam_context (pam_handle_impl Linux example_pam ()) = Inr example_ctx"
  by code_simp

lemma example_machine_parse:
  "args_parse example_argv (unix_environment example_sudo_host) (context_handle example_ctx) = Inr example_args"
  by code_simp

lemma example_strict_users: "check_strict_users example_sudo_host example_args example_ctx = Inr ()"
  by code_simp

lemma example_path: "get_path example_sudo_host example_args = Inr ''/a''"
  by code_simp

definition example_file_trace :: trace where
  "example_file_trace = lstats [''/'', ''/etc'', ''/etc/keys'', ''/etc/keys/ann''] @ [Fs (Canonicalize ''/etc/keys/ann'')] @
     lstats [''/'', ''/etc'', ''/etc/keys'', ''/etc/keys/ann''] @ [Fs (Stat ''/etc/keys/ann'')]"

lemma example_machine_valid: "validate_trust_path (example_fs ''key'') ''/etc/keys/ann'' 0 [] =
    Some (Inr ''/etc/keys/ann'', example_file_trace)"
  by code_simp

lemma example_machine_read: "read_strict_file (example_fs ''key'') ''/etc/keys/ann'' 0 [] = Some (Inr ''key'',
     example_file_trace @ [Fs (Stat ''/etc/keys/ann''), Fs (OpenFile ''/etc/keys/ann''), Fs (Fstat 3), Fs (ReadAll 3)])"
proof -
  have "utf8_valid ''key''" by (rule ascii_utf8_valid) (simp add: ascii_def)
  then show ?thesis
    by (simp add: read_strict_file_def io_bind_def [of "validate_trust_path fs p u" for fs p u] example_machine_valid)
       (simp add: io_run example_fs_def example_md_def read_bounded_def MAX_POLICY_BYTES_def from_utf8_def)
qed

definition example_filter_trace :: trace where
  "example_filter_trace =
     example_file_trace @ [Fs (Stat ''/etc/keys/ann''), Fs (OpenFile ''/etc/keys/ann''), Fs (Fstat 3), Fs (ReadAll 3)]"

lemma example_module_filter:
  "module_filter example_machine example_args example_ctx [] =
     Some (Inr \<lparr>flt_keys = {1}, flt_ca_keys = {}, flt_strict = True\<rparr>, example_filter_trace)"
proof -
  have "utf8_valid ''/etc/keys/ann''" by (rule ascii_utf8_valid) (simp add: ascii_def)
  then show ?thesis
    by (simp add: module_filter_def example_args_def example_ctx_def filter_new_strict_def new_with_mode_def from_file_def
      io_bind_app io_match_app example_machine_read io_lift_def io_return_def example_filter_trace_def
      parse_policy_def from_str_strict_def example_lib_def example_keys_def MAX_POLICY_ENTRIES_def filter_from_def)
qed

definition example_poll_before :: trace where
  "example_poll_before = example_filter_trace @ [ClockNow, Sock Socket, Sock (Fcntl SetCloexec), Sock GetStatusFlags,
     Sock (Fcntl (SetStatusFlags 2050)), Sock (Connect ''/a''), ClockNow]"

lemma example_agent_connect:
  "\<exists>t. agent_connect Linux (m_client_lib example_machine) example_sock ''/a'' (Some 30) example_filter_trace =
     Some (Inr example_client, example_poll_before @ Sock (PollConnect 24000) # t)"
  by (simp add: agent_connect_def connect_unix_def or_close_def connect_socket_def set_fd_flags_def instant_now_def
    wait_for_connect.simps example_sock_def connect_millis_def nanos_per_sec_def nanos_per_milli_def error_kind_def
    io_step io_match_app io_bind_app io_sys_app io_ask_def io_call_def io_return_def io_throw_def
    example_filter_trace_def example_file_trace_def lstats_def example_machine_def Let_def example_poll_before_def)

lemma example_found:
  "\<exists>t. authenticate example_lib example_crypto example_os \<lparr>flt_keys = {1}, flt_ca_keys = {}, flt_strict = True\<rparr>
     (client_agent example_client) ''ann'' tr = Some (Inr True, tr @ t)"
  by (simp add: authenticate_def authenticate_loop_try_each eligible_def sign_and_verify_key get_challenge_def
    validate_sk_signature_def identity_key_def example_lib_def example_os_def example_client_def example_crypto_def
    example_sig_def CHALLENGE_SIZE_def io_step io_bind_app io_match_app io_ask_def io_call_def io_lift_def io_return_def io_throw_def)

lemma example_do_authenticate:
  "\<exists>t. do_authenticate example_machine example_args example_ctx [] =
     Some (Inr (), example_poll_before @ Sock (PollConnect 24000) # t)"
proof -
  obtain t1 where conn: "agent_connect Linux (m_client_lib example_machine) example_sock ''/a'' (Some 30) example_filter_trace =
      Some (Inr example_client, example_poll_before @ Sock (PollConnect 24000) # t1)"
    using example_agent_connect by blast
  obtain t2 where found: "authenticate example_lib example_crypto example_os \<lparr>flt_keys = {1}, flt_ca_keys = {}, flt_strict = True\<rparr>
     (client_agent example_client) ''ann'' (example_poll_before @ Sock (PollConnect 24000) # t1) =
     Some (Inr True, (example_poll_before @ Sock (PollConnect 24000) # t1) @ t2)"
    using example_found by blast
  have args: "\<not> args_sshd_shortcut example_args" "args_agent_timeout example_args = Some 30" "ctx_calling_user example_ctx = ''ann''"
    by (simp_all add: example_args_def example_ctx_def)
  show ?thesis
    by (simp add: do_authenticate_def io_bind_app example_module_filter args io_return_def ask_agent_def example_path
      io_lift_def conn found del: One_nat_def)
qed

lemma example_given: "args_given 2 (Some (map Some example_argv)) example_argv"
  by (simp add: args_given_def example_argv_def)

lemma example_request:
  obtains t where "call_entry_point (pam_ssh_agent example_machine fresh_log_state) Pam_sm_authenticate (Some ()) 0 2
      (Some (map Some example_argv)) [] = Some (Returns PAM_SUCCESS, t)"
    and "\<exists>rest. t = example_poll_before @ Sock (PollConnect 24000) # rest"
proof -
  obtain rest where "do_authenticate example_machine example_args example_ctx [] =
      Some (Inr (), example_poll_before @ Sock (PollConnect 24000) # rest)"
    using example_do_authenticate by blast
  then have "fst (pam_run example_machine example_argv () [] fresh_log_state) =
      Some (Inr (), example_poll_before @ Sock (PollConnect 24000) # rest)"
    by (simp add: pam_run_def example_context init_logging_def init_impl_def fresh_log_state_def example_log_os_def Let_def
      example_machine_parse example_strict_users with_debug_def split_beta)
  then show thesis
    using that by (simp add: invoke_hook_given [OF example_given] authenticate_hook)
qed

lemma success_is_justified_witness:
  "\<exists>ctx a flt t t'. ctx_calling_user ctx = ''ann'' \<and> args_file a = ''/etc/keys/ann'' \<and>
     justified example_machine a ctx flt t t'"
proof -
  obtain t where "call_entry_point (pam_ssh_agent example_machine fresh_log_state) Pam_sm_authenticate (Some ()) 0 2
    (Some (map Some example_argv)) [] = Some (Returns PAM_SUCCESS, t)"
    by (rule example_request)
  then obtain as ctx a flt t' where
      as: "args_given 2 (Some (map Some example_argv)) as"
      and user: "ext_calling_user (pam_handle_impl Linux example_pam ()) = Inr (ctx_calling_user ctx)"
        "ext_service (pam_handle_impl Linux example_pam ()) = Inr (ctx_service ctx)"
      and a: "args_parse as (unix_environment example_sudo_host) (context_handle ctx) = Inr a"
      and just: "justified example_machine a ctx flt t' t"
    unfolding success_is_justified machine_simps by blast
  have "new_pam_context (pam_handle_impl Linux example_pam ()) = Inr ctx"
    using user by (simp add: new_pam_context_def)
  then have ctx: "ctx = example_ctx" using example_context by simp
  moreover have "as = example_argv" using args_given_unique [OF as example_given] .
  ultimately have "a = example_args" using a example_machine_parse by simp
  with ctx have "ctx_calling_user ctx = ''ann''" "args_file a = ''/etc/keys/ann''"
    by (simp_all add: example_ctx_def example_args_def)
  with just show ?thesis by blast
qed

lemma example_strict: "''strict'' \<in> set example_argv"
  by (simp add: example_argv_def)

lemma strict_success_witness:
  "\<exists>srcs texts t. loads (example_fs ''key'') example_proc Strict ''ann'' srcs [] texts t \<and>
     list_all (\<lambda>(_, buf). policy_ok example_lib Strict buf) texts"
proof -
  obtain t where "call_entry_point (pam_ssh_agent example_machine fresh_log_state) Pam_sm_authenticate (Some ()) 0 2
    (Some (map Some example_argv)) [] = Some (Returns PAM_SUCCESS, t)"
    by (rule example_request)
  then obtain ctx srcs texts t where
      ctx: "new_pam_context (pam_handle_impl Linux example_pam ()) = Inr ctx"
      and loads: "loads (example_fs ''key'') example_proc Strict (ctx_calling_user ctx) srcs [] texts t"
      "list_all (\<lambda>(_, buf). policy_ok example_lib Strict buf) texts"
    using strict_success [OF _ example_given example_strict, where m = example_machine, unfolded machine_simps] by blast
  have "ctx_calling_user ctx = ''ann''" using ctx example_context by (auto simp: example_ctx_def)
  with loads show ?thesis by metis
qed

lemma example_by_stream: "client_by_stream (m_client_lib example_machine)"
  by (auto simp: client_by_stream_def example_machine_def example_client_def intro: guarded_return guarded_throw)

lemma strict_agent_deadline_witness:
  "\<exists>pre secs. 1 \<le> secs \<and> secs \<le> 300 \<and> (\<exists>mid. example_poll_before = pre @ mid) \<and>
     in_time example_sock (os_instant example_sock pre + secs * nanos_per_sec) example_poll_before (Sock (PollConnect 24000))"
proof -
  obtain t rest where t: "call_entry_point (pam_ssh_agent example_machine fresh_log_state) Pam_sm_authenticate (Some ()) 0 2
    (Some (map Some example_argv)) [] = Some (Returns PAM_SUCCESS, [] @ t)" "t = example_poll_before @ Sock (PollConnect 24000) # rest"
    using example_request by (metis append_Nil)
  from strict_agent_deadline [OF example_by_stream example_given example_strict t(1)] t(2)
  show ?thesis unfolding machine_simps append_Nil by blast
qed

lemma request_strings_well_formed_witness:
  "well_formed_args example_args \<and> utf8_valid (ctx_calling_user example_ctx) \<and>
   expand_vars_sliced ''file=/etc/keys/%u'' (unix_environment example_sudo_host) (context_handle example_ctx) =
     Some (expand_vars ''file=/etc/keys/%u'' (unix_environment example_sudo_host) (context_handle example_ctx))"
  using request_strings_well_formed [OF example_context example_machine_parse] by (simp add: example_argv_def)

lemma strict_key_file_witness:
  "\<exists>buf t. strict_read (example_fs ''key'') ''/etc/keys/ann'' 0 [] buf t \<and> policy_ok example_lib Strict buf"
proof -
  obtain t where success: "call_entry_point (pam_ssh_agent example_machine fresh_log_state) Pam_sm_authenticate (Some ()) 0 2
    (Some (map Some example_argv)) [] = Some (Returns PAM_SUCCESS, t)"
    by (rule example_request)
  have argv: "[''strict''] @ (''file='' @ ''/etc/keys/'' @ ''%u'' @ []) # [] = example_argv"
    by (simp add: example_argv_def)
  obtain user buf t1 where "ext_calling_user (pam_handle_impl Linux example_pam ()) = Inr user"
      and read: "strict_read (example_fs ''key'') (''/etc/keys/'' @ user @ []) 0 [] buf t1" "policy_ok example_lib Strict buf"
    using strict_key_file [OF success, unfolded machine_simps, of "[''strict'']" "''/etc/keys/''" "[]" "[]"]
      example_given example_strict unfolding argv by (auto simp: is_marker_def)
  then have "user = ''ann''" using example_context by (simp add: new_pam_context_Inr example_ctx_def)
  with read show ?thesis by auto
qed


lemma request_state_kept_witness:
  "snd (pam_run example_machine example_argv () [] (fresh_log_state\<lparr>log_lock := True\<rparr>)) = fresh_log_state\<lparr>log_lock := True\<rparr>"
  using request_state_kept [of example_machine example_argv "()" "[]" "fresh_log_state\<lparr>log_lock := True\<rparr>"] by simp

lemma example_clocks: "clocks_run example_machine" "finitely_interrupted (m_proc example_machine)"
proof -
  have "b \<le> length tr * nanos_per_sec" if "b \<le> length tr" for b and tr :: trace
    using that by (simp add: nanos_per_sec_def)
  then show "clocks_run example_machine" "finitely_interrupted (m_proc example_machine)"
    by (auto simp: clocks_run_def clock_progresses_def finitely_interrupted_def example_sock_def example_proc_def)
qed

lemma strict_request_returns_witness:
  "\<exists>code tr'. call_entry_point (pam_ssh_agent example_machine fresh_log_state) Pam_sm_authenticate (Some ()) 0 2
     (Some (map Some example_argv)) [SystemTimeNow] = Some (Returns code, tr')"
proof (rule strict_request_returns [OF example_clocks _ example_given])
  show "client_in_time (m_client_lib example_machine)"
    by (simp add: client_in_time_def example_machine_def example_client_def total_io_def)
qed (simp add: example_argv_def)

lemma sshd_shortcut_effect_witness:
  "\<exists>t. ask_agent example_machine example_args example_ctx \<lparr>flt_keys = {1}, flt_ca_keys = {}, flt_strict = True\<rparr>
     example_filter_trace = Some (Inr (), t)"
  using sshd_shortcut_effect [OF example_module_filter] example_do_authenticate
  by (auto simp: example_args_def example_ctx_def)

text \<open>The same request with a helper, on a machine where the kernel refuses to execute it.\<close>

definition example_exec_proc :: proc_os where
  "example_exec_proc = example_proc\<lparr>os_child_call := (\<lambda>c _. case c of Execve _ \<Rightarrow> Some EACCES | _ \<Rightarrow> None)\<rparr>"

definition example_exec_machine :: "(unit, nat, nat, nat) machine" where
  "example_exec_machine = example_machine\<lparr>m_proc := example_exec_proc\<rparr>"

definition example_exec_argv :: "string list" where
  "example_exec_argv = [''strict'', ''file=/etc/keys/%u'', ''authorized_keys_command=/k'']"

definition example_exec_args :: args where
  "example_exec_args = example_args\<lparr>args_authorized_keys_command := Some ''/k''\<rparr>"

definition example_image :: exec_image where
  "example_image = ExecImage ''/k'' [''ann''] [(''LANG'', ''C''), (''LC_ALL'', ''C''), (''PATH'', ''/usr/bin:/bin'')] True"

definition example_exec_before :: trace where
  "example_exec_before = example_filter_trace @ [Fs (Lstat ''/''), Fs (Lstat ''/k''), Fs (Canonicalize ''/k''),
     Fs (Lstat ''/''), Fs (Lstat ''/k''), Fs (Stat ''/k''), ClockNow, Proc Fork, Proc (Child (SetRlimitNproc 0 0)),
     Proc (Child SetGroupsEmpty), Proc (Child (SetGid 65534)), Proc (Child (SetUid 1000))]"

lemma exec_machine_simps [simp]:
  "m_platform example_exec_machine = Linux" "m_libpam example_exec_machine = example_pam"
  "m_fs example_exec_machine = example_fs ''key''" "m_proc example_exec_machine = example_exec_proc"
  "m_log_os example_exec_machine = example_log_os" "m_ssh_key example_exec_machine = example_lib"
  "m_host example_exec_machine = example_sudo_host"
  by (simp_all add: example_exec_machine_def)

lemma example_exec_parse:
  "args_parse example_exec_argv (unix_environment example_sudo_host) (context_handle example_ctx) = Inr example_exec_args"
  by code_simp

lemma example_exec_users: "check_strict_users example_sudo_host example_exec_args example_ctx = Inr ()"
  by code_simp

lemma example_exec_valid: "validate_trust_path (example_fs ''key'') ''/k'' 0 example_filter_trace =
    Some (Inr ''/k'', example_filter_trace @ [Fs (Lstat ''/''), Fs (Lstat ''/k''), Fs (Canonicalize ''/k''),
     Fs (Lstat ''/''), Fs (Lstat ''/k''), Fs (Stat ''/k'')])"
  by code_simp

lemma example_exec_run:
  "run_without_descendants example_exec_proc [''/k'', ''ann''] timeout 1000 None tr =
     Some (Inl (Io (OsError EACCES)), tr @ [ClockNow, Proc Fork, Proc (Child (SetRlimitNproc 0 0)), Proc (Child SetGroupsEmpty),
       Proc (Child (SetGid 65534)), Proc (Child (SetUid 1000)), Proc (Child (Execve example_image)), Proc WaitChild])"
proof -
  have sys: "os_fork example_exec_proc t = Inr 42" "os_platform example_exec_proc = Linux" "os_geteuid example_exec_proc = 0"
      "os_child_call example_exec_proc c t = (case c of Execve _ \<Rightarrow> Some EACCES | _ \<Rightarrow> None)" for t c
    by (simp_all add: example_exec_proc_def example_proc_def)
  show ?thesis
    by (simp add: run_without_descendants_def run_inner_def is_absolute_def default_low_privilege_gid_def sys now_def io_step Let_def
      spawn_def pre_exec_def child_call_def command_image_def io_bind_app io_match_app io_return_def io_throw_def
      io_ask_def io_sys_def io_call_def io_lift_def io_emit_def example_image_def)
qed

lemma example_exec_filter:
  "module_filter example_exec_machine example_exec_args example_ctx [] =
     Some (Inl (Io (OsError EACCES)), example_exec_before @ [Proc (Child (Execve example_image)), Proc WaitChild])"
proof -
  have "utf8_valid ''/etc/keys/ann''" "utf8_valid ''/k''" by (rule ascii_utf8_valid, simp add: ascii_def)+
  moreover have "get_uid example_sudo_host ''ann'' = Inr 1000" by code_simp
  ultimately show ?thesis
    by (simp add: module_filter_def example_exec_args_def example_args_def example_ctx_def filter_new_strict_def new_with_mode_def
      from_file_def from_command_def io_bind_app io_match_app example_machine_read example_filter_trace_def [symmetric]
      example_exec_valid example_exec_run example_exec_before_def io_lift_def io_return_def
      parse_policy_def from_str_strict_def example_lib_def example_keys_def MAX_POLICY_ENTRIES_def)
qed

lemma example_exec_denied:
  "pam_run example_exec_machine example_exec_argv () [] fresh_log_state =
     (Some (Inl (Io (OsError EACCES)), example_exec_before @ [Proc (Child (Execve example_image)), Proc WaitChild]),
      fresh_log_state\<lparr>log_lock := True, installed_logger := Some (new_prefix_formatter example_log_os LOG_AUTHPRIV ''sudo''),
        max_level := Some LDebug\<rparr>)"
proof -
  have "init_logging example_log_os ''sudo'' fresh_log_state = (Inr (), fresh_log_state\<lparr>log_lock := True,
      installed_logger := Some (new_prefix_formatter example_log_os LOG_AUTHPRIV ''sudo''), max_level := Some LDebug\<rparr>)"
    by (simp add: init_logging_def init_impl_def fresh_log_state_def example_log_os_def Let_def)
  moreover have "ctx_service example_ctx = ''sudo''" by (simp add: example_ctx_def)
  ultimately show ?thesis
    by (simp add: pam_run_def example_context example_exec_parse example_exec_users with_debug_def do_authenticate_def io_bind_app
      example_exec_filter fresh_log_state_def)
qed

lemma strict_exec_dropped_witness:
  "\<exists>t pre exe gid (hu :: user). validate_trust_path (example_fs ''key'') ''/k'' 0 t = Some (Inr exe, pre) \<and> user_uid hu \<noteq> 0 \<and>
     example_exec_before = pre @ [ClockNow, Proc Fork] @ child_trace (privilege_drop True True gid (user_uid hu)) \<and>
     all_succeed example_exec_proc (privilege_drop True True gid (user_uid hu)) (pre @ [ClockNow, Proc Fork])"
proof -
  have given: "args_given 3 (Some (map Some example_exec_argv)) example_exec_argv"
    by (simp add: args_given_def example_exec_argv_def)
  have strict: "''strict'' \<in> set example_exec_argv" by (simp add: example_exec_argv_def)
  have frame: "client_by_stream (m_client_lib example_exec_machine)"
    by (auto simp: client_by_stream_def example_exec_machine_def example_machine_def example_client_def intro: guarded_return guarded_throw)
  have "call_entry_point (pam_ssh_agent example_exec_machine fresh_log_state) Pam_sm_authenticate (Some ()) 0 3
      (Some (map Some example_exec_argv)) [] =
    Some (Returns PAM_AUTH_ERR, [] @ example_exec_before @ Proc (Child (Execve example_image)) # [Proc WaitChild])"
    by (simp add: invoke_hook_given [OF given] authenticate_hook example_exec_denied)
  from strict_exec_dropped [OF frame given strict this] obtain ctx a command t pre exe gid
      and hu :: user where
      "new_pam_context (pam_handle_impl Linux example_pam ()) = Inr ctx"
      "args_parse example_exec_argv (unix_environment example_sudo_host) (context_handle ctx) = Inr a"
      "args_authorized_keys_command a = Some command"
      and exec: "user_uid hu \<noteq> 0" "validate_trust_path (example_fs ''key'') command 0 t = Some (Inr exe, pre)"
      "[] @ example_exec_before = pre @ [ClockNow, Proc Fork] @
        child_trace (privilege_drop True (os_geteuid example_exec_proc = 0) gid (user_uid hu))"
      "all_succeed example_exec_proc (privilege_drop True (os_geteuid example_exec_proc = 0) gid (user_uid hu))
        (pre @ [ClockNow, Proc Fork])"
    unfolding exec_machine_simps by blast
  then have "command = ''/k''"
    using example_context example_exec_parse by (auto simp: example_exec_args_def)
  moreover have "os_geteuid example_exec_proc = 0" by (simp add: example_exec_proc_def example_proc_def)
  ultimately show ?thesis using exec by auto
qed

end
