(* ===== verification/Journal.thy ===== *)
theory Journal imports Requests begin

text \<open>
  The records that a request logs. The other theories leave out the calls of \<open>error!\<close>, \<open>warn!\<close>, \<open>info!\<close> and \<open>debug!\<close>; here
  the functions that make such calls are written once more with them, over operations of type \<open>'a logged\<close>, which also
  return the list of records. \<open>unlogged\<close> forgets the records: it leads back to the functions of the other theories, so
  what is proved of those holds here.

  A record is its level, its format string and its values. The text that \<open>std::fmt\<close> makes of it, and the \<open>{:?}\<close> of the error
  of \<open>Certificate::validate_at\<close>, are parameters, the record \<open>log_texts\<close>. Records of a request that does not return are not kept.
\<close>

section \<open>Operations that log\<close>

datatype log_value = VStr string | VNum nat | VError error

datatype log_record = LogRecord (rec_level: log_level) (rec_format: string) (rec_values: "log_value list")

record 'c log_texts =
  txt_format :: "string \<Rightarrow> log_value list \<Rightarrow> string"
  txt_validate_error :: "'c \<Rightarrow> nat \<Rightarrow> string"

type_synonym 'a logged = "trace \<Rightarrow> ((log_record list \<times> 'a result) \<times> trace) option"

definition unlogged :: "'a logged \<Rightarrow> 'a io" where
  "unlogged m = (\<lambda>tr. map_option (\<lambda>((recs, r), tr'). (r, tr')) (m tr))"

definition silent :: "'a io \<Rightarrow> 'a logged" where
  "silent m = (\<lambda>tr. map_option (\<lambda>(r, tr'). (([], r), tr')) (m tr))"

definition l_return :: "'a \<Rightarrow> 'a logged" where
  "l_return x = silent (io_return x)"

definition l_throw :: "error \<Rightarrow> 'a logged" where
  "l_throw e = silent (io_throw e)"

definition log_emit :: "log_level \<Rightarrow> string \<Rightarrow> log_value list \<Rightarrow> unit logged" where
  "log_emit level fmt vals = (\<lambda>tr. Some (([LogRecord level fmt vals], Inr ()), tr))"

definition l_match :: "'a logged \<Rightarrow> ('a result \<Rightarrow> 'b logged) \<Rightarrow> 'b logged" where
  "l_match m k = (\<lambda>tr. case m tr of None \<Rightarrow> None
     | Some ((recs, r), tr') \<Rightarrow> map_option (\<lambda>((recs', r'), tr''). ((recs @ recs', r'), tr'')) (k r tr'))"

definition l_bind :: "'a logged \<Rightarrow> ('a \<Rightarrow> 'b logged) \<Rightarrow> 'b logged" where
  "l_bind m k = l_match m (\<lambda>r. case r of Inl e \<Rightarrow> l_throw e | Inr x \<Rightarrow> k x)"

section \<open>Forgetting the records\<close>

named_theorems unlogged_simps \<open>the operation without its records\<close>

lemma unlogged_silent [unlogged_simps]: "unlogged (silent m) = m"
  by (simp add: unlogged_def silent_def fun_eq_iff option.map_comp comp_def split_beta option.map_ident)

lemma unlogged_return [unlogged_simps]: "unlogged (l_return x) = io_return x"
  by (simp add: l_return_def unlogged_silent)

lemma unlogged_throw [unlogged_simps]: "unlogged (l_throw e) = io_throw e"
  by (simp add: l_throw_def unlogged_silent)

lemma unlogged_emit [unlogged_simps]: "unlogged (log_emit level fmt vals) = io_return ()"
  by (simp add: unlogged_def log_emit_def io_return_def)

lemma unlogged_match [unlogged_simps]: "unlogged (l_match m k) = io_match (unlogged m) (\<lambda>r. unlogged (k r))"
  by (auto simp: unlogged_def l_match_def io_match_def fun_eq_iff option.map_comp comp_def split_beta
      intro!: option.map_cong split: option.split)

lemma unlogged_if [unlogged_simps]: "unlogged (if b then m else n) = (if b then unlogged m else unlogged n)"
  by simp

lemma unlogged_case_sum [unlogged_simps]:
  "unlogged (case r of Inl e \<Rightarrow> f e | Inr x \<Rightarrow> g x) = (case r of Inl e \<Rightarrow> unlogged (f e) | Inr x \<Rightarrow> unlogged (g x))"
  by (cases r) simp_all

lemma unlogged_case_option [unlogged_simps]:
  "unlogged (case r of None \<Rightarrow> m | Some x \<Rightarrow> g x) = (case r of None \<Rightarrow> unlogged m | Some x \<Rightarrow> unlogged (g x))"
  by (cases r) simp_all

lemma unlogged_bind [unlogged_simps]: "unlogged (l_bind m k) = io_bind (unlogged m) (\<lambda>x. unlogged (k x))"
  by (auto simp: l_bind_def unlogged_simps io_match_def io_bind_def io_throw_def fun_eq_iff split: option.split sum.split)

lemma io_bind_return [unlogged_simps]: "io_bind (io_return x) k = k x"
  by (simp add: io_bind_def io_return_def)

lemma io_bind_throw [unlogged_simps]: "io_bind (io_throw e) k = io_throw e"
  by (simp add: io_bind_def io_throw_def)

section \<open>\<open>auth.rs\<close> and \<open>filter.rs\<close>: deciding\<close>

definition validate_cert_logged :: "('k, 'c) ssh_key \<Rightarrow> 'c log_texts \<Rightarrow> 'c \<Rightarrow> int \<Rightarrow> string \<Rightarrow> bool logged" where
  "validate_cert_logged lib txt cert when princ =
     (let ca_key = cert_signature_key lib cert;
          reject = (\<lambda>fmt vals. l_bind (log_emit LInfo fmt vals) (\<lambda>_. l_return False)) in
      if when < 0 then reject ''Certificate validation clock precedes Unix epoch'' []
      else if \<not> cert_validate_at lib cert (nat when) [fingerprint_sha256 lib ca_key]
      then reject ''Certificate validation failed: {e:?}'' [VStr (txt_validate_error txt cert (nat when))]
      else if \<not> cert_is_user lib cert
      then reject ''Cert type is not user, are you trying to authenticate with a host cert?'' []
      else if \<not> list_ex (\<lambda>p. p = princ) (cert_valid_principals lib cert)
      then reject (''Cert matches but '' @ [CHR 0x27] @ ''{principal}'' @ [CHR 0x27] @ '' is not in the list of valid principals.'')
        [VStr princ]
      else if cert_critical_options lib cert \<noteq> []
      then reject (''Cert has critical options we don'' @ [CHR 0x27] @ ''t know how to handle'') []
      else l_return True)"

definition identity_trusted_logged :: "('k, 'c) ssh_key \<Rightarrow> 'k identity_filter \<Rightarrow> ('k, 'c) identity \<Rightarrow> bool logged" where
  "identity_trusted_logged lib flt idn = (case idn of
     PublicKey key \<Rightarrow>
       if key \<in> flt_keys flt
       then l_bind (log_emit LDebug ''found a matching key: {}'' [VStr (fingerprint_sha256 lib key)]) (\<lambda>_. l_return True)
       else l_return False
   | Certificate cert \<Rightarrow>
       let ca_key = cert_signature_key lib cert in
       if ca_key \<in> flt_ca_keys flt
       then l_bind (log_emit LDebug ''found a matching cert-authority key: {}'' [VStr (fingerprint_sha256 lib ca_key)])
         (\<lambda>_. l_return True)
       else l_return False)"

fun authenticate_loop_logged :: "('k, 'c) ssh_key \<Rightarrow> 'c log_texts \<Rightarrow> ('k, 'o) crypto \<Rightarrow> auth_os \<Rightarrow> 'k identity_filter
    \<Rightarrow> ('k, 'c) ssh_agent \<Rightarrow> string \<Rightarrow> int \<Rightarrow> ('k, 'c) identity list \<Rightarrow> bool logged" where
  "authenticate_loop_logged lib txt crypto os flt agent princ t [] = l_return False"
| "authenticate_loop_logged lib txt crypto os flt agent princ t (idn # idns) =
     l_bind (identity_trusted_logged lib flt idn) (\<lambda>trusted.
     if trusted then
       l_bind (case idn of
           Certificate cert \<Rightarrow> l_bind (validate_cert_logged lib txt cert t princ) (\<lambda>valid. l_return (\<not> valid))
         | PublicKey _ \<Rightarrow> l_return False) (\<lambda>invalid.
       if invalid then
         l_bind (log_emit LInfo ''Cert not valid, skipping'' []) (\<lambda>_.
         authenticate_loop_logged lib txt crypto os flt agent princ t idns)
       else
         l_match (silent (sign_and_verify lib crypto os idn agent (flt_strict flt))) (\<lambda>r. case r of
           Inr res \<Rightarrow> l_return res
         | Inl e \<Rightarrow>
             if downcast_sac e = Some RemoteFailure then
               l_bind (log_emit LDebug ''SSHAgent: RemoteFailure; trying next key'' []) (\<lambda>_.
               authenticate_loop_logged lib txt crypto os flt agent princ t idns)
             else l_throw e))
     else authenticate_loop_logged lib txt crypto os flt agent princ t idns)"

definition authenticate_logged :: "('k, 'c) ssh_key \<Rightarrow> 'c log_texts \<Rightarrow> ('k, 'o) crypto \<Rightarrow> auth_os \<Rightarrow> 'k identity_filter
    \<Rightarrow> ('k, 'c) ssh_agent \<Rightarrow> string \<Rightarrow> bool logged" where
  "authenticate_logged lib txt crypto os flt agent princ =
     l_bind (silent (io_ask SystemTimeNow (os_system_time os))) (\<lambda>t.
     l_bind (silent (agent_list_identities agent)) (\<lambda>idns.
     authenticate_loop_logged lib txt crypto os flt agent princ t idns))"

lemma unlogged_validate_cert [unlogged_simps]:
  "unlogged (validate_cert_logged lib txt cert when princ) = io_return (validate_cert lib cert when princ)"
  by (simp add: validate_cert_logged_def validate_cert_def Let_def unlogged_simps)

lemma unlogged_identity_trusted [unlogged_simps]:
  "unlogged (identity_trusted_logged lib flt idn) = io_return (identity_trusted lib flt idn)"
  by (cases idn) (simp_all add: identity_trusted_logged_def Let_def unlogged_simps)

lemma unlogged_authenticate_loop [unlogged_simps]:
  "unlogged (authenticate_loop_logged lib txt crypto os flt agent princ t idns) =
     authenticate_loop lib crypto os flt agent princ t idns"
proof (induction idns)
  case (Cons idn idns)
  show ?case
    by (cases idn) (simp_all add: unlogged_simps Cons.IH cong: sum.case_cong if_cong)
qed (simp add: unlogged_simps)

lemma unlogged_authenticate [unlogged_simps]:
  "unlogged (authenticate_logged lib txt crypto os flt agent princ) = authenticate lib crypto os flt agent princ"
  by (simp add: authenticate_logged_def authenticate_def unlogged_simps)

section \<open>\<open>filter.rs\<close> and \<open>cmd.rs\<close>: reading the policy\<close>

text \<open>The iterator of the legacy mode, from the entry with the number \<open>i\<close>.\<close>

fun legacy_entries_logged :: "string \<Rightarrow> bool \<Rightarrow> nat \<Rightarrow> (string + 'k auth_entry) list \<Rightarrow> 'k authorized list logged" where
  "legacy_entries_logged what ca_keys i [] = l_return []"
| "legacy_entries_logged what ca_keys i (ak # aks) =
     l_bind (case ak of
         Inr _ \<Rightarrow> l_return (legacy_entry ca_keys ak)
       | Inl e \<Rightarrow>
           l_bind (log_emit LInfo (''Failed to parse line {what}:{i}'' @ [CHR 0x27] @ '': {e}'') [VStr what, VNum i, VStr e])
             (\<lambda>_. l_return None)) (\<lambda>key.
     l_bind (legacy_entries_logged what ca_keys (i + 1) aks) (\<lambda>keys.
     l_return (case key of None \<Rightarrow> keys | Some k \<Rightarrow> k # keys)))"

definition parse_policy_logged :: "('k, 'c) ssh_key \<Rightarrow> string \<Rightarrow> string \<Rightarrow> bool \<Rightarrow> policy_mode \<Rightarrow> 'k authorized list logged" where
  "parse_policy_logged lib buf what ca_keys mode =
     (if mode = Strict then silent (io_lift (from_str_strict lib buf what ca_keys))
      else legacy_entries_logged what ca_keys 0 (authorized_keys lib buf))"

definition from_file_logged :: "('k, 'c) ssh_key \<Rightarrow> fs_os \<Rightarrow> string \<Rightarrow> bool \<Rightarrow> policy_mode \<Rightarrow> 'k authorized list logged" where
  "from_file_logged lib fs filename ca_keys mode =
     l_bind (silent (case mode of
         Legacy \<Rightarrow> read_to_string fs filename
       | Strict \<Rightarrow> read_strict_file fs filename 0)) (\<lambda>contents.
     l_bind (if utf8_valid filename then l_return filename else l_throw (Anyhow ''invalid filename'' [])) (\<lambda>name.
     parse_policy_logged lib contents name ca_keys mode))"

text \<open>\<open>str::lines\<close>: a line ends with a line feed or with both a carriage return and a line feed.\<close>

definition strip_cr :: "string \<Rightarrow> string" where
  "strip_cr line = (if line \<noteq> [] \<and> last line = CHR 0x0D then butlast line else line)"

fun lines_from :: "string \<Rightarrow> string \<Rightarrow> string list" where
  "lines_from line [] = (if line = [] then [] else [line])"
| "lines_from line (c # cs) = (if c = CHR 0x0A then strip_cr line # lines_from [] cs else lines_from (line @ [c]) cs)"

definition str_lines :: "string \<Rightarrow> string list" where
  "str_lines s = lines_from [] s"

fun log_stderr :: "string \<Rightarrow> string list \<Rightarrow> unit logged" where
  "log_stderr command [] = l_return ()"
| "log_stderr command (line # lines) =
     l_bind (log_emit LWarn ''stderr from {}: {}'' [VStr command, VStr line]) (\<lambda>_. log_stderr command lines)"

definition finish_run_logged :: "string \<Rightarrow> run_state \<Rightarrow> string logged" where
  "finish_run_logged command st =
     l_bind (silent (io_lift (ok_or (Anyhow ''command status was not collected'' []) (child_status st)))) (\<lambda>exit_status.
     l_bind (silent (io_lift (case exit_status of
         Exited code \<Rightarrow> if code = 0 then Inr ()
           else Inl (Anyhow ''Non-zero exit status from '{}': {}'' [Str command, Num code])
       | Signaled _ \<Rightarrow> Inl (Anyhow ''Non-zero exit status from '{}': {}'' [Str command, Str ''caught signal''])))) (\<lambda>_.
     l_bind (if stderr_bytes st = [] then l_return ()
         else l_bind (silent (io_lift (from_utf8 (stderr_bytes st)))) (\<lambda>text. log_stderr command (str_lines text))) (\<lambda>_.
     l_bind (silent (io_lift (from_utf8 (stdout_bytes st)))) (\<lambda>out.
     l_return (trim_end out)))))"

definition run_inner_logged :: "proc_os \<Rightarrow> string list \<Rightarrow> nat \<Rightarrow> 32 word \<Rightarrow> (32 word) option \<Rightarrow> bool \<Rightarrow> string logged" where
  "run_inner_logged os command timeout effective_uid effective_gid prevent_descendants =
     (case command of
        [] \<Rightarrow> l_throw (Anyhow ''command must not be empty'' [])
      | executable # args \<Rightarrow>
          if \<not> is_absolute executable
          then l_throw (Anyhow ''command executable must be an absolute path: {executable}'' [Str executable])
          else
            l_bind (silent (io_lift (case effective_gid of Some gid \<Rightarrow> Inr gid | None \<Rightarrow> default_low_privilege_gid os))) (\<lambda>gid.
            let clear_groups = (os_geteuid os = 0) in
            l_bind (silent (now os)) (\<lambda>start.
            let deadline = start + timeout in
            l_bind (silent (spawn os (command_image executable args)
               (pre_exec os prevent_descendants clear_groups gid effective_uid))) (\<lambda>pid.
            l_bind (silent (or_reap os pid id (io_bind (set_nonblocking os Stdout) (\<lambda>_. set_nonblocking os Stderr)))) (\<lambda>_.
            l_bind (silent (run_loop os pid executable timeout deadline initial_run_state)) (\<lambda>st.
            finish_run_logged executable st))))))"

definition from_command_logged :: "('k, 'c) ssh_key \<Rightarrow> fs_os \<Rightarrow> proc_os \<Rightarrow> string \<Rightarrow> uid \<Rightarrow> string \<Rightarrow> policy_mode
    \<Rightarrow> 'k authorized list logged" where
  "from_command_logged lib fs proc command uid calling_user mode =
     l_bind (if mode = Strict then
         l_bind (silent (validate_trust_path fs command 0)) (\<lambda>canonical.
         if utf8_valid canonical then l_return canonical
         else l_throw (Anyhow ''Strict helper path is not valid UTF-8'' []))
       else l_return command) (\<lambda>command.
     l_bind (log_emit LDebug
         (''Invoking command '' @ [CHR 0x27] @ ''{command} {calling_user}'' @ [CHR 0x27] @
          '' to obtain public keys for user {calling_user}'') [VStr command, VStr calling_user]) (\<lambda>_.
     l_bind (run_inner_logged proc [command, calling_user] MAX_DURATION uid None (mode = Strict)) (\<lambda>buf.
     parse_policy_logged lib buf (command @ '':(output):'') False mode)))"

definition new_with_mode_logged :: "('k, 'c) ssh_key \<Rightarrow> host \<Rightarrow> fs_os \<Rightarrow> proc_os \<Rightarrow> string \<Rightarrow> string option
    \<Rightarrow> string option \<Rightarrow> string option \<Rightarrow> string \<Rightarrow> policy_mode \<Rightarrow> 'k identity_filter logged" where
  "new_with_mode_logged lib hst fs proc authorized_keys_file ca_keys_file authorized_keys_command
       authorized_keys_command_user calling_user mode =
     l_bind (l_match (from_file_logged lib fs authorized_keys_file False mode) (\<lambda>r. case r of
         Inr keys \<Rightarrow> l_return keys
       | Inl error \<Rightarrow>
           if mode = Legacy \<and> is_not_found error then
             l_bind (if ca_keys_file = None \<and> authorized_keys_command = None
               then log_emit LInfo ''No valid keys for authentication, {authorized_keys_file:?} does not exist''
                 [VStr authorized_keys_file]
               else l_return ()) (\<lambda>_. l_return [])
           else l_throw error)) (\<lambda>identities.
     l_bind (case ca_keys_file of
         None \<Rightarrow> l_return identities
       | Some f \<Rightarrow> l_bind (from_file_logged lib fs f True mode) (\<lambda>keys. l_return (identities @ keys))) (\<lambda>identities.
     l_bind (case authorized_keys_command of
         None \<Rightarrow> l_return identities
       | Some cmd \<Rightarrow>
           let user = (case authorized_keys_command_user of Some u \<Rightarrow> u | None \<Rightarrow> calling_user) in
           l_bind (silent (io_lift (get_uid hst user))) (\<lambda>uid.
           l_bind (from_command_logged lib fs proc cmd uid calling_user mode) (\<lambda>keys.
           l_return (identities @ keys)))) (\<lambda>identities.
     l_return (filter_from identities (mode = Strict)))))"

lemmas logged_cong = sum.case_cong option.case_cong if_cong list.case_cong exit_status.case_cong

lemma unlogged_legacy_entries [unlogged_simps]:
  "unlogged (legacy_entries_logged what ca_keys i aks) = io_return (List.map_filter (legacy_entry ca_keys) aks)"
proof (induction aks arbitrary: i)
  case (Cons ak aks)
  then show ?case
    by (cases ak) (simp_all add: unlogged_simps map_filter_simps legacy_entry_def del: One_nat_def)
qed (simp add: unlogged_simps List.map_filter_def)

lemma io_lift_return: "io_lift (Inr x) = io_return x"
  by (simp add: io_lift_def io_return_def)

lemma io_lift_throw: "io_lift (Inl e) = io_throw e"
  by (simp add: io_lift_def io_throw_def)

lemma io_lift_bind: "io_lift (and_then r k) = io_bind (io_lift r) (\<lambda>x. io_lift (k x))"
  by (cases r) (simp_all add: io_lift_def io_bind_def fun_eq_iff)

lemma io_bind_assoc: "io_bind (io_bind m f) g = io_bind m (\<lambda>x. io_bind (f x) g)"
  by (auto simp: io_bind_def fun_eq_iff split: option.split sum.split)

lemma unlogged_parse_policy [unlogged_simps]:
  "unlogged (parse_policy_logged lib buf what ca_keys mode) = io_lift (parse_policy lib buf what ca_keys mode)"
  by (simp add: parse_policy_logged_def parse_policy_def unlogged_simps io_lift_return)

lemma unlogged_from_file [unlogged_simps]:
  "unlogged (from_file_logged lib fs filename ca_keys mode) = from_file lib fs filename ca_keys mode"
  by (cases "utf8_valid filename")
    (simp_all add: from_file_logged_def from_file_def unlogged_simps io_lift_throw io_bind_throw)

lemma unlogged_log_stderr [unlogged_simps]: "unlogged (log_stderr command lines) = io_return ()"
  by (induction lines) (simp_all add: unlogged_simps)

lemma unlogged_finish_run [unlogged_simps]: "unlogged (finish_run_logged command st) = io_lift (finish_run command st)"
  by (simp add: finish_run_logged_def finish_run_def unlogged_simps io_lift_bind io_lift_return io_bind_assoc)

lemma unlogged_run_inner [unlogged_simps]:
  "unlogged (run_inner_logged os command timeout uid gid prevent) = run_inner os command timeout uid gid prevent"
  by (cases command) (simp_all add: run_inner_logged_def run_inner_def Let_def unlogged_simps)

lemma unlogged_from_command [unlogged_simps]:
  "unlogged (from_command_logged lib fs proc command uid calling_user mode) =
     from_command lib fs proc command uid calling_user mode"
  by (cases mode)
    (simp_all add: from_command_logged_def from_command_def cmd_run_def run_without_descendants_def unlogged_simps
      cong: logged_cong)

lemma unlogged_new_with_mode [unlogged_simps]:
  "unlogged (new_with_mode_logged lib hst fs proc f ca cmd user calling_user mode) =
     new_with_mode lib hst fs proc f ca cmd user calling_user mode"
  by (simp add: new_with_mode_logged_def new_with_mode_def Let_def unlogged_simps cong: logged_cong)

section \<open>\<open>lib.rs\<close>\<close>

definition module_filter_logged :: "('h, 'k, 'c, 'o) machine \<Rightarrow> args \<Rightarrow> pam_context \<Rightarrow> 'k identity_filter logged" where
  "module_filter_logged m a ctx =
     new_with_mode_logged (m_ssh_key m) (m_host m) (m_fs m) (m_proc m) (args_file a) (args_ca_keys_file a)
       (args_authorized_keys_command a) (args_authorized_keys_command_user a) (ctx_calling_user ctx)
       (if args_strict a then Strict else Legacy)"

definition check_sshd_special_case_logged :: "('k, 'c) ssh_key \<Rightarrow> string option \<Rightarrow> 'k identity_filter \<Rightarrow> environment \<Rightarrow> bool logged" where
  "check_sshd_special_case_logged lib service flt env = (case service of
     None \<Rightarrow> l_return False
   | Some service \<Rightarrow>
       if service \<noteq> ''sshd'' then l_return False
       else case env_get_env env ''SSH_AUTH_INFO_0'' of
         None \<Rightarrow> l_bind (log_emit LDebug ''calling service is sshd but SSH_AUTH_INFO_0 is not set'' []) (\<lambda>_. l_return False)
       | Some key \<Rightarrow>
           l_bind (silent (io_lift (map_err
             (\<lambda>_. Anyhow ''failed to parse key in SSH_AUTH_INFO_0 environment variable'' []) (from_openssh lib key)))) (\<lambda>k.
           identity_trusted_logged lib flt (PublicKey k)))"

definition ask_agent_logged :: "('h, 'k, 'c, 'o) machine \<Rightarrow> 'c log_texts \<Rightarrow> args \<Rightarrow> pam_context \<Rightarrow> 'k identity_filter \<Rightarrow> unit logged" where
  "ask_agent_logged m txt a ctx flt =
     l_bind (silent (io_lift (get_path (m_host m) a))) (\<lambda>path.
     l_bind (log_emit LInfo (''Authenticating user '' @ [CHR 0x27] @ ''{}'' @ [CHR 0x27] @ '' using ssh-agent at '' @ [CHR 0x27] @
       ''{path}'' @ [CHR 0x27]) [VStr (ctx_calling_user ctx), VStr path]) (\<lambda>_.
     l_bind (log_emit LInfo (''authorized keys from '' @ [CHR 0x27] @ ''{}'' @ [CHR 0x27]) [VStr (args_file a)]) (\<lambda>_.
     l_bind (silent (agent_connect (m_platform m) (m_client_lib m) (m_sock m) path (args_agent_timeout a))) (\<lambda>ssh_agent_client.
     l_bind (authenticate_logged (m_ssh_key m) txt (m_crypto m) (m_auth_os m) flt (client_agent ssh_agent_client)
         (ctx_calling_user ctx)) (\<lambda>found.
     if found then l_return ()
     else l_throw (Anyhow ''Agent did not know of any of the allowed keys'' []))))))"

definition do_authenticate_logged :: "('h, 'k, 'c, 'o) machine \<Rightarrow> 'c log_texts \<Rightarrow> args \<Rightarrow> pam_context \<Rightarrow> unit logged" where
  "do_authenticate_logged m txt a ctx =
     l_bind (case args_ca_keys_file a of
         Some ca_keys_file \<Rightarrow> log_emit LInfo (''ca_keys from '' @ [CHR 0x27] @ ''{ca_keys_file}'' @ [CHR 0x27]) [VStr ca_keys_file]
       | None \<Rightarrow> l_return ()) (\<lambda>_.
     l_bind (case args_authorized_keys_command a of
         Some command \<Rightarrow>
           log_emit LInfo (''Invoking command '' @ [CHR 0x27] @ ''{authorized_keys_command}'' @ [CHR 0x27] @ '' to obtain keys'')
             [VStr command]
       | None \<Rightarrow> l_return ()) (\<lambda>_.
     l_bind (module_filter_logged m a ctx) (\<lambda>flt.
     l_bind (if args_sshd_shortcut a
         then check_sshd_special_case_logged (m_ssh_key m) (Some (ctx_service ctx)) flt (unix_environment (m_host m))
         else l_return False) (\<lambda>shortcut.
     if shortcut then l_return () else ask_agent_logged m txt a ctx flt))))"

text \<open>
  A record reaches the logger if the macros of the crate \<open>log\<close> let it through: a logger is installed and the level of the
  record is not above the maximal one.
\<close>

definition send_record :: "log_os \<Rightarrow> 'c log_texts \<Rightarrow> log_record \<Rightarrow> log_state \<Rightarrow> log_state" where
  "send_record os txt rec st = (case (installed_logger st, max_level st) of
     (Some pf, Some level) \<Rightarrow>
       if rec_level rec \<le> level
       then logger_log os pf (rec_level rec) (txt_format txt (rec_format rec) (rec_values rec)) st else st
   | _ \<Rightarrow> st)"

definition send_records :: "log_os \<Rightarrow> 'c log_texts \<Rightarrow> log_record list \<Rightarrow> log_state \<Rightarrow> log_state" where
  "send_records os txt recs st = fold (send_record os txt) recs st"

definition pam_run_logged :: "('h, 'k, 'c, 'o) machine \<Rightarrow> 'c log_texts \<Rightarrow> string list \<Rightarrow> 'h \<Rightarrow> trace \<Rightarrow> log_state
    \<Rightarrow> (unit result \<times> trace) option \<times> log_state" where
  "pam_run_logged m txt as pam_handle tr ls =
     (case new_pam_context (pam_handle_impl (m_platform m) (m_libpam m) pam_handle) of
        Inl e \<Rightarrow> (Some (Inl e, tr), ls)
      | Inr ctx \<Rightarrow>
          (case init_logging (m_log_os m) (ctx_service ctx) ls of
             (Inl e, ls') \<Rightarrow> (Some (Inl e, tr), ls')
           | (Inr _, ls') \<Rightarrow>
               (case args_parse as (unix_environment (m_host m)) (context_handle ctx) of
                  Inl e \<Rightarrow> (Some (Inl e, tr), ls')
                | Inr a \<Rightarrow>
                    (case check_strict_users (m_host m) a ctx of
                       Inl e \<Rightarrow> (Some (Inl e, tr), ls')
                     | Inr _ \<Rightarrow> with_debug (args_debug a) (\<lambda>s.
                         case do_authenticate_logged m txt a ctx tr of
                           None \<Rightarrow> (None, s)
                         | Some ((recs, r), tr') \<Rightarrow> (Some (r, tr'), send_records (m_log_os m) txt recs s)) ls'))))"

definition outcome_records :: "unit result \<Rightarrow> log_record list" where
  "outcome_records r = (case r of
     Inr _ \<Rightarrow> [LogRecord LDebug ''Successful call to sm_authenticate(), returning PAM_SUCCESS'' []]
   | Inl err \<Rightarrow> [LogRecord LError ''{err:?}'' [VError err],
       LogRecord LDebug ''Failed call to sm_authenticate(), returning PAM_AUTH_ERR'' []])"

definition sm_authenticate_logged :: "('h, 'k, 'c, 'o) machine \<Rightarrow> 'c log_texts \<Rightarrow> 'h \<Rightarrow> string list \<Rightarrow> 32 word \<Rightarrow> trace
    \<Rightarrow> log_state \<Rightarrow> (pam_result_code \<times> trace) option \<times> log_state" where
  "sm_authenticate_logged m txt pam_handle as flags tr ls =
     (case pam_run_logged m txt as pam_handle tr ls of
        (None, ls') \<Rightarrow> (None, ls')
      | (Some (r, tr'), ls') \<Rightarrow>
          (Some (case r of Inr _ \<Rightarrow> PAM_SUCCESS | Inl _ \<Rightarrow> PAM_AUTH_ERR, tr'),
           send_records (m_log_os m) txt (outcome_records r) ls'))"

lemma unlogged_module_filter [unlogged_simps]: "unlogged (module_filter_logged m a ctx) = module_filter m a ctx"
  by (simp add: module_filter_logged_def module_filter_def filter_new_strict_def filter_new_def unlogged_simps)

lemma unlogged_check_sshd [unlogged_simps]:
  "unlogged (check_sshd_special_case_logged lib service flt env) = io_lift (check_sshd_special_case lib service flt env)"
  by (simp add: check_sshd_special_case_logged_def check_sshd_special_case_def unlogged_simps io_lift_bind io_lift_return
      split: option.split)

lemma unlogged_ask_agent [unlogged_simps]: "unlogged (ask_agent_logged m txt a ctx flt) = ask_agent m a ctx flt"
  by (simp add: ask_agent_logged_def ask_agent_def unlogged_simps cong: logged_cong)

lemma unlogged_do_authenticate: "unlogged (do_authenticate_logged m txt a ctx) = do_authenticate m a ctx"
proof -
  have same: "(case x of None \<Rightarrow> m | Some _ \<Rightarrow> m) = m" for x :: "string option" and m :: "unit io"
    by (cases x) simp_all
  show ?thesis
    by (simp add: do_authenticate_logged_def do_authenticate_def unlogged_simps same cong: logged_cong)
qed

section \<open>The records leave everything else as it is\<close>

text \<open>The state of the logger without the lines sent.\<close>

definition quiet_state :: "log_state \<Rightarrow> log_state" where
  "quiet_state st = st\<lparr>log_sent := []\<rparr>"

lemma quiet_send_record [simp]: "quiet_state (send_record os txt rec st) = quiet_state st"
  by (simp add: send_record_def logger_log_def quiet_state_def split: option.split)

lemma quiet_send_records [simp]: "quiet_state (send_records os txt recs st) = quiet_state st"
  by (induction recs arbitrary: st) (simp_all add: send_records_def)

lemma quiet_state_debug: "quiet_state (st\<lparr>request_debug := d\<rparr>) = (quiet_state st)\<lparr>request_debug := d\<rparr>"
  by (simp add: quiet_state_def)

lemma quiet_state_own_debug [simp]: "(quiet_state st)\<lparr>request_debug := request_debug st\<rparr> = quiet_state st"
  by (simp add: quiet_state_def)

lemma pam_run_unlogged:
  "fst (pam_run_logged m txt as h tr ls) = fst (pam_run m as h tr ls) \<and>
   quiet_state (snd (pam_run_logged m txt as h tr ls)) = quiet_state (snd (pam_run m as h tr ls))"
proof -
  have run: "do_authenticate m a ctx tr = map_option (\<lambda>((recs, r), tr'). (r, tr')) (do_authenticate_logged m txt a ctx tr)"
    for a ctx
    using fun_cong [OF unlogged_do_authenticate [of m "txt" a ctx], of tr] by (simp add: unlogged_def)
  show ?thesis
    by (auto simp: pam_run_logged_def pam_run_def with_debug_def run quiet_state_debug split: sum.split prod.split option.split)
qed

section \<open>Which records an operation makes\<close>

definition logs_only :: "(log_record \<Rightarrow> bool) \<Rightarrow> 'a logged \<Rightarrow> bool" where
  "logs_only P m \<longleftrightarrow> (\<forall>tr recs r tr'. m tr = Some ((recs, r), tr') \<longrightarrow> list_all P recs)"

named_theorems logs_intros \<open>which records an operation makes\<close>

lemma logs_silent [logs_intros]: "logs_only P (silent m)"
  by (auto simp: logs_only_def silent_def)

lemma logs_return [logs_intros]: "logs_only P (l_return x)"
  by (simp add: l_return_def logs_silent)

lemma logs_throw [logs_intros]: "logs_only P (l_throw e)"
  by (simp add: l_throw_def logs_silent)

lemma logs_emit [logs_intros]: "P (LogRecord level fmt vals) \<Longrightarrow> logs_only P (log_emit level fmt vals)"
  by (simp add: logs_only_def log_emit_def)

lemma logs_match [logs_intros]:
  "logs_only P m \<Longrightarrow> (\<And>r. logs_only P (k r)) \<Longrightarrow> logs_only P (l_match m k)"
  unfolding logs_only_def l_match_def by (fastforce split: option.splits)

lemma logs_case_sum [logs_intros]:
  "(\<And>e. logs_only P (f e)) \<Longrightarrow> (\<And>x. logs_only P (g x)) \<Longrightarrow> logs_only P (case r of Inl e \<Rightarrow> f e | Inr x \<Rightarrow> g x)"
  by (cases r) simp_all

lemma logs_case_option [logs_intros]:
  "logs_only P m \<Longrightarrow> (\<And>x. logs_only P (g x)) \<Longrightarrow> logs_only P (case r of None \<Rightarrow> m | Some x \<Rightarrow> g x)"
  by (cases r) simp_all

lemma logs_case_list [logs_intros]:
  "logs_only P m \<Longrightarrow> (\<And>x xs. logs_only P (g x xs)) \<Longrightarrow> logs_only P (case r of [] \<Rightarrow> m | x # xs \<Rightarrow> g x xs)"
  by (cases r) simp_all

lemma logs_case_identity [logs_intros]:
  "(\<And>k. logs_only P (f k)) \<Longrightarrow> (\<And>c. logs_only P (g c)) \<Longrightarrow>
     logs_only P (case idn of PublicKey k \<Rightarrow> f k | Certificate c \<Rightarrow> g c)"
  by (cases idn) simp_all

lemma logs_if [logs_intros]: "logs_only P m \<Longrightarrow> logs_only P n \<Longrightarrow> logs_only P (if b then m else n)"
  by simp

lemma logs_bind [logs_intros]:
  "logs_only P m \<Longrightarrow> (\<And>x. logs_only P (k x)) \<Longrightarrow> logs_only P (l_bind m k)"
  unfolding l_bind_def by (intro logs_intros)

text \<open>No part of a request makes a record of the level error.\<close>

abbreviation below_error :: "log_record \<Rightarrow> bool" where
  "below_error rec \<equiv> rec_level rec \<noteq> LError \<and> rec_level rec \<le> LDebug"

lemmas log_levels = less_eq_log_level_def

lemma logs_authenticate_loop [logs_intros]:
  "logs_only below_error (authenticate_loop_logged lib txt crypto os flt agent princ t idns)"
proof (induction idns)
  case (Cons idn idns)
  show ?case
    unfolding authenticate_loop_logged.simps identity_trusted_logged_def validate_cert_logged_def Let_def
    by (intro logs_intros Cons.IH) (simp_all add: log_levels)
qed (simp add: logs_intros)

lemma logs_legacy_entries [logs_intros]: "logs_only below_error (legacy_entries_logged what ca i aks)"
proof (induction aks arbitrary: i)
  case (Cons ak aks)
  show ?case
    unfolding legacy_entries_logged.simps by (intro logs_intros Cons.IH) (simp_all add: log_levels)
qed (simp add: logs_intros)

lemma logs_log_stderr [logs_intros]: "logs_only below_error (log_stderr command lines)"
proof (induction lines)
  case (Cons line lines)
  show ?case
    unfolding log_stderr.simps by (intro logs_intros Cons.IH) (simp_all add: log_levels)
qed (simp add: logs_intros)

lemma logs_from_file [logs_intros]: "logs_only below_error (from_file_logged lib fs filename ca mode)"
  unfolding from_file_logged_def parse_policy_logged_def by (intro logs_intros)

lemma logs_from_command [logs_intros]:
  "logs_only below_error (from_command_logged lib fs proc command uid calling_user mode)"
  unfolding from_command_logged_def run_inner_logged_def finish_run_logged_def parse_policy_logged_def Let_def
  by (intro logs_intros) (simp_all add: log_levels)

lemma logs_do_authenticate: "logs_only below_error (do_authenticate_logged m txt a ctx)"
  unfolding do_authenticate_logged_def module_filter_logged_def new_with_mode_logged_def
    check_sshd_special_case_logged_def identity_trusted_logged_def ask_agent_logged_def authenticate_logged_def Let_def
  by (intro logs_intros) (simp_all add: log_levels)

section \<open>What is sent\<close>

definition record_line :: "log_os \<Rightarrow> 'c log_texts \<Rightarrow> prefix_formatter \<Rightarrow> log_record \<Rightarrow> string" where
  "record_line os txt pf rec =
     prefix_format os pf (severity_of (rec_level rec)) (txt_format txt (rec_format rec) (rec_values rec))"

lemma send_records_sent:
  assumes "installed_logger st = Some pf" and "max_level st = Some LDebug" and "list_all (\<lambda>rec. rec_level rec \<le> LDebug) recs"
  shows "log_sent (send_records os txt recs st) = log_sent st @ List.map (record_line os txt pf) recs"
  using assms
proof (induction recs arbitrary: st)
  case (Cons rec recs)
  have "send_records os txt (rec # recs) st = send_records os txt recs (logger_log os pf (rec_level rec)
    (txt_format txt (rec_format rec) (rec_values rec)) st)"
    using Cons.prems by (simp add: send_records_def send_record_def)
  moreover have "installed_logger (logger_log os pf l msg st) = Some pf" "max_level (logger_log os pf l msg st) = Some LDebug"
    for l msg
    using Cons.prems by (simp_all add: logger_log_def)
  ultimately show ?case
    using Cons.IH Cons.prems by (simp add: logger_log_def record_line_def)
qed (simp add: send_records_def)

lemma send_record_fields [simp]:
  "installed_logger (send_record os txt rec st) = installed_logger st"
  "max_level (send_record os txt rec st) = max_level st"
  by (simp_all add: send_record_def logger_log_def split: option.split)

lemma send_records_fields [simp]:
  "installed_logger (send_records os txt recs st) = installed_logger st"
  "max_level (send_records os txt recs st) = max_level st"
  by (induction recs arbitrary: st) (simp_all add: send_records_def)

lemma init_logging_sent: "init_logging os service ls = (r, ls') \<Longrightarrow> log_sent ls' = log_sent ls"
  by (auto simp: init_logging_def init_impl_def Let_def split: if_splits sum.splits)

lemma with_debug_logged:
  assumes "with_debug enabled (\<lambda>s. case run of None \<Rightarrow> (None, s)
      | Some ((recs, r), tr') \<Rightarrow> (Some (r, tr'), send_records os txt recs s)) ls = (Some (r, tr'), ls')"
  obtains recs where "run = Some ((recs, r), tr')"
    and "installed_logger ls' = installed_logger ls" and "max_level ls' = max_level ls"
    and "log_sent ls' = log_sent (send_records os txt recs (ls\<lparr>request_debug := enabled\<rparr>))"
  using assms by (auto simp: with_debug_def split: option.splits)

lemma pam_run_logged_sent:
  assumes "pam_run_logged m txt as h tr ls = (Some (r, tr'), ls')"
    and "installed_logger ls' = Some pf" and "max_level ls' = Some LDebug"
  shows "\<exists>recs. log_sent ls' = log_sent ls @ List.map (record_line (m_log_os m) txt pf) recs \<and> list_all below_error recs"
proof (cases "log_sent ls' = log_sent ls")
  case True
  then show ?thesis by (intro exI [of _ "[]"]) simp
next
  case False
  then obtain ctx ls1 a where init: "init_logging (m_log_os m) (ctx_service ctx) ls = (Inr (), ls1)"
    and auth: "with_debug (args_debug a) (\<lambda>s. case do_authenticate_logged m txt a ctx tr of
        None \<Rightarrow> (None, s)
      | Some ((recs, r), tr') \<Rightarrow> (Some (r, tr'), send_records (m_log_os m) txt recs s)) ls1 = (Some (r, tr'), ls')"
    using assms(1) by (auto simp: pam_run_logged_def init_logging_sent split: sum.splits prod.splits)
  from auth obtain recs where "do_authenticate_logged m txt a ctx tr = Some ((recs, r), tr')"
    and ls': "installed_logger ls' = installed_logger ls1" "max_level ls' = max_level ls1"
      "log_sent ls' = log_sent (send_records (m_log_os m) txt recs (ls1\<lparr>request_debug := args_debug a\<rparr>))"
    by (rule with_debug_logged)
  with logs_do_authenticate [of m "txt" a ctx] have levels: "list_all below_error recs"
    by (auto simp: logs_only_def)
  then have "list_all (\<lambda>rec. rec_level rec \<le> LDebug) recs" by (simp add: list_all_iff)
  with send_records_sent [of "ls1\<lparr>request_debug := args_debug a\<rparr>" pf recs "m_log_os m" "txt"] assms(2,3) ls'
    init_logging_sent [OF init] levels
  show ?thesis by auto
qed

lemma outcome_levels: "list_all (\<lambda>rec. rec_level rec \<le> LDebug) (outcome_records r)"
  by (simp add: outcome_records_def log_levels split: sum.split)

text \<open>
  C32: every outcome is logged, and nothing else looks like a denial. When a logger is installed, a request sends lines for the
  records of its parts, none of which has the level error, and then for its outcome: one debug record for a success; for a
  denial one record of the level error with the very error for which the request was denied, and one debug record.
\<close>

theorem outcome_logged:
  assumes "sm_authenticate_logged m txt h as flags tr ls = (Some (code, tr'), ls')"
    and "installed_logger ls' = Some pf" and "max_level ls' = Some LDebug"
  shows "\<exists>recs r. fst (pam_run m as h tr ls) = Some (r, tr') \<and> code = (if is_ok r then PAM_SUCCESS else PAM_AUTH_ERR) \<and>
    log_sent ls' = log_sent ls @ List.map (record_line (m_log_os m) txt pf) (recs @ outcome_records r) \<and>
    (\<forall>rec\<in>set recs. rec_level rec \<noteq> LError)"
proof -
  from assms(1) obtain r ls1 where run: "pam_run_logged m txt as h tr ls = (Some (r, tr'), ls1)"
    and code: "code = (if is_ok r then PAM_SUCCESS else PAM_AUTH_ERR)"
    and ls': "ls' = send_records (m_log_os m) txt (outcome_records r) ls1"
    by (auto simp: sm_authenticate_logged_def is_ok_def split: prod.splits option.splits sum.splits)
  from ls' assms(2,3) have logger: "installed_logger ls1 = Some pf" "max_level ls1 = Some LDebug" by simp_all
  from pam_run_logged_sent [OF run logger] obtain recs
    where recs: "log_sent ls1 = log_sent ls @ List.map (record_line (m_log_os m) txt pf) recs" "list_all below_error recs"
    by blast
  have "fst (pam_run m as h tr ls) = Some (r, tr')"
    using pam_run_unlogged [of m "txt" as h tr ls] run by simp
  with code recs ls' send_records_sent [OF logger outcome_levels] show ?thesis
    by (intro exI [of _ recs] exI [of _ r]) (auto simp: list_all_iff)
qed

text \<open>
  The two versions of the functions agree. The functions with their log records give the same result and the same trace as the ones
  without, and leave the same state of the logger apart from the lines sent; so what is shown of a request without its
  records holds of the request with them.
\<close>

lemma request_log_erases:
  "fst (sm_authenticate_logged m txt h as flags tr ls) = fst (sm_authenticate m h as flags tr ls) \<and>
   quiet_state (snd (sm_authenticate_logged m txt h as flags tr ls)) = quiet_state (snd (sm_authenticate m h as flags tr ls))"
  using pam_run_unlogged [of m "txt" as h tr ls]
  by (auto simp: sm_authenticate_logged_def sm_authenticate_def split: prod.splits option.splits)

text \<open>The request of \<open>ann\<close> whose helper the kernel refuses to execute.\<close>

definition plain_texts :: "nat log_texts" where
  "plain_texts = \<lparr>txt_format = (\<lambda>format _. format), txt_validate_error = (\<lambda>_ _. ''expired'')\<rparr>"

lemma quiet_state_logger:
  "quiet_state st = quiet_state st' \<Longrightarrow> installed_logger st = installed_logger st' \<and> max_level st = max_level st'"
  by (cases st; cases st') (simp add: quiet_state_def)

lemma outcome_logged_witness:
  "\<exists>recs pf. log_sent (snd (sm_authenticate_logged example_exec_machine plain_texts () example_exec_argv 0 [] fresh_log_state)) =
     List.map (record_line example_log_os plain_texts pf)
       (recs @ [LogRecord LError ''{err:?}'' [VError (Io (OsError EACCES))],
          LogRecord LDebug ''Failed call to sm_authenticate(), returning PAM_AUTH_ERR'' []])"
proof -
  let ?pf = "new_prefix_formatter example_log_os LOG_AUTHPRIV ''sudo''"
  let ?t = "example_exec_before @ [Proc (Child (Execve example_image)), Proc WaitChild]"
  obtain res ls1 where run: "pam_run_logged example_exec_machine plain_texts example_exec_argv () [] fresh_log_state = (res, ls1)"
    by fastforce
  from pam_run_unlogged [of example_exec_machine plain_texts example_exec_argv "()" "[]" fresh_log_state] run example_exec_denied
  have res: "res = Some (Inl (Io (OsError EACCES)), ?t)"
    and "quiet_state ls1 = quiet_state (fresh_log_state\<lparr>log_lock := True, installed_logger := Some ?pf, max_level := Some LDebug\<rparr>)"
    by simp_all
  from quiet_state_logger [OF this(2)] have ls1: "installed_logger ls1 = Some ?pf" "max_level ls1 = Some LDebug" by simp_all
  have "sm_authenticate_logged example_exec_machine plain_texts () example_exec_argv 0 [] fresh_log_state =
      (Some (PAM_AUTH_ERR, ?t), send_records example_log_os plain_texts (outcome_records (Inl (Io (OsError EACCES)))) ls1)"
    by (simp add: sm_authenticate_logged_def run res)
  from outcome_logged [OF this] this ls1 example_exec_denied show ?thesis
    by (auto simp: fresh_log_state_def outcome_records_def)
qed

section \<open>No line is injected\<close>

definition clean_line :: "log_os \<Rightarrow> string \<Rightarrow> bool" where
  "clean_line os line \<longleftrightarrow> (\<exists>formatter severity text. line = os_format_3164 os formatter severity text \<and>
     utf8_valid text \<and> (\<forall>c\<in>set (chars text). \<not> is_control c))"

text \<open>The installed logger, if there is one, is one that \<open>PrefixFormatter::new\<close> made.\<close>

definition own_logger :: "log_state \<Rightarrow> bool" where
  "own_logger st \<longleftrightarrow> (\<forall>pf. installed_logger st = Some pf \<longrightarrow> (\<exists>os service. pf = new_prefix_formatter os LOG_AUTHPRIV service))"

definition only_clean_lines :: "log_os \<Rightarrow> log_state \<Rightarrow> log_state \<Rightarrow> bool" where
  "only_clean_lines os st st' \<longleftrightarrow> own_logger st' \<and> (\<exists>new. log_sent st' = log_sent st @ new \<and> list_all (clean_line os) new)"

lemma clean_refl: "own_logger st' \<Longrightarrow> log_sent st' = log_sent st \<Longrightarrow> only_clean_lines os st st'"
  by (simp add: only_clean_lines_def)

lemma clean_trans:
  "only_clean_lines os st st' \<Longrightarrow> (own_logger st' \<Longrightarrow> only_clean_lines os st' st'') \<Longrightarrow> only_clean_lines os st st''"
  by (force simp: only_clean_lines_def)

lemma clean_send_record: "own_logger st \<Longrightarrow> only_clean_lines os st (send_record os txt rec st)"
proof -
  assume own: "own_logger st"
  have "only_clean_lines os st (logger_log os pf level message st)" if logger: "installed_logger st = Some pf" for pf level message
  proof -
    obtain os' service where "pf = new_prefix_formatter os' LOG_AUTHPRIV service"
      using own logger unfolding own_logger_def by blast
    then have "clean_line os (prefix_format os pf (severity_of level) message)"
      using prefix_line_clean [of os os' service "severity_of level" message] unfolding clean_line_def by blast
    with own show ?thesis by (simp add: only_clean_lines_def logger_log_def own_logger_def)
  qed
  with own show ?thesis by (auto simp: send_record_def clean_refl split: option.split)
qed

lemma clean_send_records: "own_logger st \<Longrightarrow> only_clean_lines os st (send_records os txt recs st)"
proof (induction recs arbitrary: st)
  case Nil
  then show ?case by (simp add: send_records_def clean_refl)
next
  case (Cons rec recs)
  from clean_trans [OF clean_send_record [OF Cons.prems] Cons.IH] show ?case by (simp add: send_records_def)
qed

lemma own_logger_new: "installed_logger st = Some (new_prefix_formatter os LOG_AUTHPRIV service) \<Longrightarrow> own_logger st"
  unfolding own_logger_def by auto

lemma clean_init_logging: "own_logger st \<Longrightarrow> only_clean_lines os st (snd (init_logging os' service st))"
  by (auto simp: init_logging_def init_impl_def Let_def intro!: clean_refl own_logger_new split: sum.split)

lemma own_logger_debug [simp]: "own_logger (st\<lparr>request_debug := d\<rparr>) = own_logger st"
  by (simp add: own_logger_def)

lemma only_clean_debug [simp]:
  "only_clean_lines os (st\<lparr>request_debug := d\<rparr>) st' = only_clean_lines os st st'"
  "only_clean_lines os st (st'\<lparr>request_debug := d\<rparr>) = only_clean_lines os st st'"
  by (simp_all add: only_clean_lines_def)

lemma clean_with_debug:
  assumes "only_clean_lines os ls ls1"
  shows "only_clean_lines os ls (snd (with_debug d (\<lambda>s. case x of None \<Rightarrow> (None, s)
    | Some ((recs, r), tr') \<Rightarrow> (Some (r, tr'), send_records os txt recs s)) ls1))"
proof (cases x)
  case None
  with assms show ?thesis by (simp add: with_debug_def)
next
  case (Some y)
  then obtain recs r tr' where "x = Some ((recs, r), tr')" by (cases y) auto
  moreover have "only_clean_lines os ls (send_records os txt recs (ls1\<lparr>request_debug := d\<rparr>))"
    using clean_send_records [of "ls1\<lparr>request_debug := d\<rparr>" os "txt" recs] by (intro clean_trans [OF assms]) simp
  ultimately show ?thesis by (simp add: with_debug_def)
qed

lemma clean_pam_run:
  assumes "own_logger ls"
  shows "only_clean_lines (m_log_os m) ls (snd (pam_run_logged m txt as h tr ls))"
proof -
  have init: "only_clean_lines (m_log_os m) ls ls1" if "init_logging os service ls = (r, ls1)" for os service r ls1
    using clean_init_logging [OF assms, of "m_log_os m" os service] that by simp
  show ?thesis
    by (auto simp: pam_run_logged_def clean_refl assms intro: init clean_with_debug split: sum.split prod.split)
qed

text \<open>
  C33: no request can inject a line into the log. Whatever the service, the user, the arguments, the policy files, the helper's
  standard error, the certificates and the errors contain, and however the request ends, each line that it sends is the
  formatter's line for a text without any control character, hence without a line break.
\<close>

theorem request_lines_clean:
  assumes "own_logger ls"
  shows "\<exists>new. log_sent (snd (sm_authenticate_logged m txt h as flags tr ls)) = log_sent ls @ new \<and>
    (\<forall>line\<in>set new. clean_line (m_log_os m) line)"
proof -
  obtain res ls1 where run: "pam_run_logged m txt as h tr ls = (res, ls1)" by fastforce
  with clean_pam_run [OF assms, of m "txt" as h tr] have "only_clean_lines (m_log_os m) ls ls1" by simp
  then have "only_clean_lines (m_log_os m) ls (snd (sm_authenticate_logged m txt h as flags tr ls))"
    using run clean_trans [OF _ clean_send_records] by (auto simp: sm_authenticate_logged_def split: option.split prod.split)
  then show ?thesis by (auto simp: only_clean_lines_def list_all_iff)
qed

lemma request_lines_clean_witness:
  "list_all (clean_line example_log_os)
     (log_sent (snd (sm_authenticate_logged example_exec_machine plain_texts () example_exec_argv 0 [] fresh_log_state)))"
proof -
  have "own_logger fresh_log_state" by (simp add: own_logger_def fresh_log_state_def)
  from request_lines_clean [OF this, of example_exec_machine plain_texts "()" example_exec_argv 0 "[]"]
  show ?thesis by (auto simp: fresh_log_state_def list_all_iff)
qed

section \<open>What the records of the parts say\<close>

text \<open>The records for the entries that do not parse, numbered from \<open>i\<close>.\<close>

fun skipped_records :: "string \<Rightarrow> nat \<Rightarrow> (string + 'k auth_entry) list \<Rightarrow> log_record list" where
  "skipped_records what i [] = []"
| "skipped_records what i (Inl e # aks) =
     LogRecord LInfo (''Failed to parse line {what}:{i}'' @ [CHR 0x27] @ '': {e}'') [VStr what, VNum i, VStr e] #
       skipped_records what (i + 1) aks"
| "skipped_records what i (Inr _ # aks) = skipped_records what (i + 1) aks"

lemma legacy_entries_run:
  "legacy_entries_logged what ca_keys i aks tr =
     Some ((skipped_records what i aks, Inr (List.map_filter (legacy_entry ca_keys) aks)), tr)"
proof (induction aks arbitrary: i)
  case (Cons ak aks)
  then show ?case
    by (cases ak) (simp_all add: map_filter_simps legacy_entry_def l_bind_def l_match_def l_return_def silent_def
        io_return_def log_emit_def)
qed (simp add: List.map_filter_def l_return_def silent_def io_return_def)

lemma skipped_or_kept: "length (skipped_records what i aks) + length (List.map_filter (legacy_entry ca_keys) aks) = length aks"
proof (induction what i aks rule: skipped_records.induct)
  case (3 what i entry aks)
  moreover obtain k where "legacy_entry ca_keys (Inr entry) = Some k" by (cases "legacy_entry ca_keys (Inr entry)") (auto simp: legacy_entry_def split: if_splits)
  ultimately show ?case by (simp add: map_filter_simps)
qed (simp_all add: map_filter_simps legacy_entry_def)

text \<open>
  C26: no line of a key file or of the helper's output is dropped silently. In the legacy mode there is one record for each entry
  that does not parse, with the name of the source, the number of the entry and the reason, in this order; all other entries
  become authorizations, so the two together are as many as the entries.
\<close>

theorem skipped_entries_logged:
  "\<exists>recs keys. parse_policy_logged lib buf what ca_keys Legacy tr = Some ((recs, Inr keys), tr) \<and>
     recs = skipped_records what 0 (authorized_keys lib buf) \<and>
     parse_policy lib buf what ca_keys Legacy = Inr keys \<and> length recs + length keys = length (authorized_keys lib buf)"
  by (simp add: parse_policy_logged_def parse_policy_def legacy_entries_run skipped_or_kept)

text \<open>
  C24: certificates, exactly. The decision about a certificate is yes if and only if the time is not before the epoch, the library
  accepts it then for its own authority, it is a user certificate that lists the principal and has no critical option.
  A yes leaves no record, a no exactly one, of the level info.
\<close>

theorem cert_decision_logged:
  "\<exists>recs. validate_cert_logged lib txt cert when princ tr = Some ((recs, Inr (validate_cert lib cert when princ)), tr) \<and>
     map rec_level recs = (if validate_cert lib cert when princ then [] else [LInfo]) \<and>
     (validate_cert lib cert when princ \<longleftrightarrow>
        0 \<le> when \<and> cert_validate_at lib cert (nat when) [fingerprint_sha256 lib (cert_signature_key lib cert)] \<and>
        cert_is_user lib cert \<and> princ \<in> set (cert_valid_principals lib cert) \<and> cert_critical_options lib cert = [])"
  by (auto simp: validate_cert_logged_def validate_cert_def Let_def list_ex_iff l_bind_def l_match_def l_return_def silent_def
      io_return_def log_emit_def)

end
