(* ===== verification/LogThreads.thy ===== *)
theory LogThreads imports Logging begin

text \<open>
  \<open>logging.rs\<close> with several threads. \<open>Logging\<close> runs each function as one step; here \<open>init_logging\<close> is a sequence of
  steps around the lock \<open>LOG_LOCK\<close>, and the steps of all threads interleave. \<open>REQUEST_DEBUG\<close> is a cell of each thread,
  with the \<open>Reset\<close> values that the active calls of \<open>with_debug\<close> hold. The system may answer each call in its own way, so
  a call carries its \<open>log_os\<close>. Anything may panic while the lock is held before the logger is set: the lock is then
  poisoned, which a later \<open>lock().unwrap_or_else(into_inner)\<close> ignores.
\<close>

section \<open>Runs of a transition system\<close>

inductive run :: "('s \<Rightarrow> 'a \<Rightarrow> 's \<Rightarrow> bool) \<Rightarrow> 's \<Rightarrow> 'a list \<Rightarrow> 's \<Rightarrow> bool"
  for step :: "'s \<Rightarrow> 'a \<Rightarrow> 's \<Rightarrow> bool" and s :: 's where
  run_nil: "run step s [] s"
| run_snoc: "run step s tr s' \<Longrightarrow> step s' a s'' \<Longrightarrow> run step s (tr @ [a]) s''"

lemma run_append: "run step s' tr' s'' \<Longrightarrow> run step s tr s' \<Longrightarrow> run step s (tr @ tr') s''"
  by (induction rule: run.induct) (auto intro: run.intros simp flip: append_assoc)

lemma run_cons: "step s a s' \<Longrightarrow> run step s' tr s'' \<Longrightarrow> run step s (a # tr) s''"
  using run_append [of step s' tr s'' s "[a]"] run_snoc [OF run_nil, of step s a s'] by simp

text \<open>What holds at the start and is kept by each step holds after every run. It may speak of the actions so far.\<close>

locale kept_along =
  fixes step :: "'s \<Rightarrow> 'a \<Rightarrow> 's \<Rightarrow> bool"
    and start :: 's
    and inv :: "'a list \<Rightarrow> 's \<Rightarrow> bool"
  assumes at_start: "inv [] start"
    and kept: "inv tr s \<Longrightarrow> step s a s' \<Longrightarrow> inv (tr @ [a]) s'"
begin

lemma holds: "run step start tr s \<Longrightarrow> inv tr s"
  by (induction rule: run.induct) (auto intro: at_start kept)

end

section \<open>Threads\<close>

type_synonym log_call = "log_os \<times> string"

text \<open>Where a thread is in \<open>init_logging\<close> and \<open>init_impl\<close>: the statement it executes next.\<close>

datatype init_point =
    Outside
  | AtLock log_call
  | AtTest log_call
  | AtOpen log_call
  | AtSetLogger log_call prefix_formatter
  | AtSetMaxLevel log_call
  | AtSetGuard log_call
  | Returning log_call "unit result"
  | Unwinding

record log_thread =
  init_point :: init_point
  debug_cell :: bool
  resets :: "bool list"

text \<open>
  What the threads share: the lock with its holder and its value, and of the crate \<open>log\<close> the logger and the maximal
  level; the lines sent. \<open>returned\<close> lists the calls of \<open>init_logging\<close> that have returned.
\<close>

record log_globals =
  lock_holder :: "nat option"
  lock_poisoned :: bool
  lock_value :: bool
  global_logger :: "prefix_formatter option"
  global_max_level :: "log_level option"
  lines_sent :: "string list"
  returned :: "(log_call \<times> unit result) list"

datatype log_action =
    CallInit log_call
  | Lock
  | AlreadyReady
  | NotReady
  | OpenFails string
  | Opens
  | Panics
  | InstallLogger
  | LoggerRefused
  | SetMaxLevel
  | SetGuard
  | Unlock
  | UnlockUnwinding
  | EnterDebug bool
  | LeaveDebug
  | LogRecord log_os log_level string
  | SkipRecord log_level

text \<open>
  One step of the thread \<open>t\<close>. A record is written when the macros of the crate \<open>log\<close> let it through: a logger is
  installed and the level is not above the maximal one. Its line is written under the lock of the logger, so as one step.
\<close>

inductive log_step :: "nat \<Rightarrow> log_globals \<times> log_thread \<Rightarrow> log_action \<Rightarrow> log_globals \<times> log_thread \<Rightarrow> bool"
  for t :: nat where
  call_init: "init_point th = Outside \<Longrightarrow>
     log_step t (g, th) (CallInit c) (g, th\<lparr>init_point := AtLock c\<rparr>)"
| lock: "init_point th = AtLock c \<Longrightarrow> lock_holder g = None \<Longrightarrow>
     log_step t (g, th) Lock (g\<lparr>lock_holder := Some t\<rparr>, th\<lparr>init_point := AtTest c\<rparr>)"
| already_ready: "init_point th = AtTest c \<Longrightarrow> lock_value g \<Longrightarrow>
     log_step t (g, th) AlreadyReady (g, th\<lparr>init_point := Returning c (Inr ())\<rparr>)"
| not_ready: "init_point th = AtTest c \<Longrightarrow> \<not> lock_value g \<Longrightarrow>
     log_step t (g, th) NotReady (g, th\<lparr>init_point := AtOpen c\<rparr>)"
| open_fails: "init_point th = AtOpen c \<Longrightarrow>
     os_syslog_unix (fst c) (new_prefix_formatter (fst c) LOG_AUTHPRIV (snd c)) = Inl d \<Longrightarrow>
     log_step t (g, th) (OpenFails d)
       (g, th\<lparr>init_point := Returning c (Inl (Anyhow ''Failed to set up log: {}'' [Str d]))\<rparr>)"
| opens: "init_point th = AtOpen c \<Longrightarrow> pf = new_prefix_formatter (fst c) LOG_AUTHPRIV (snd c) \<Longrightarrow>
     os_syslog_unix (fst c) pf = Inr () \<Longrightarrow>
     log_step t (g, th) Opens (g, th\<lparr>init_point := AtSetLogger c pf\<rparr>)"
| panics: "init_point th = AtOpen c \<Longrightarrow>
     log_step t (g, th) Panics (g, th\<lparr>init_point := Unwinding\<rparr>)"
| install_logger: "init_point th = AtSetLogger c pf \<Longrightarrow> global_logger g = None \<Longrightarrow>
     log_step t (g, th) InstallLogger (g\<lparr>global_logger := Some pf\<rparr>, th\<lparr>init_point := AtSetMaxLevel c\<rparr>)"
| logger_refused: "init_point th = AtSetLogger c pf \<Longrightarrow> global_logger g \<noteq> None \<Longrightarrow>
     log_step t (g, th) LoggerRefused
       (g, th\<lparr>init_point := Returning c (Inl (Anyhow ''logger already set'' []))\<rparr>)"
| set_max_level: "init_point th = AtSetMaxLevel c \<Longrightarrow>
     log_step t (g, th) SetMaxLevel (g\<lparr>global_max_level := Some LDebug\<rparr>, th\<lparr>init_point := AtSetGuard c\<rparr>)"
| set_guard: "init_point th = AtSetGuard c \<Longrightarrow>
     log_step t (g, th) SetGuard (g\<lparr>lock_value := True\<rparr>, th\<lparr>init_point := Returning c (Inr ())\<rparr>)"
| unlock: "init_point th = Returning c r \<Longrightarrow>
     log_step t (g, th) Unlock
       (g\<lparr>lock_holder := None, returned := returned g @ [(c, r)]\<rparr>, th\<lparr>init_point := Outside\<rparr>)"
| unlock_unwinding: "init_point th = Unwinding \<Longrightarrow>
     log_step t (g, th) UnlockUnwinding
       (g\<lparr>lock_holder := None, lock_poisoned := True\<rparr>, th\<lparr>init_point := Outside\<rparr>)"
| enter_debug: "init_point th = Outside \<Longrightarrow>
     log_step t (g, th) (EnterDebug enabled)
       (g, th\<lparr>debug_cell := enabled, resets := debug_cell th # resets th\<rparr>)"
| leave_debug: "init_point th = Outside \<Longrightarrow> resets th = previous # rest \<Longrightarrow>
     log_step t (g, th) LeaveDebug (g, th\<lparr>debug_cell := previous, resets := rest\<rparr>)"
| log_record: "init_point th = Outside \<Longrightarrow> global_logger g = Some pf \<Longrightarrow> global_max_level g = Some m \<Longrightarrow> level \<le> m \<Longrightarrow>
     log_step t (g, th) (LogRecord os level message)
       (g\<lparr>lines_sent := lines_sent g @ [prefix_format os pf (severity_of level) message]\<rparr>, th)"
| skip_record: "init_point th = Outside \<Longrightarrow>
     global_logger g = None \<or> global_max_level g = None \<or> the (global_max_level g) < level \<Longrightarrow>
     log_step t (g, th) (SkipRecord level) (g, th)"

inductive_cases log_step_cases: "log_step t (g, th) a (g', th')"

text \<open>The step that an action names, computed.\<close>

fun log_exec :: "nat \<Rightarrow> log_action \<Rightarrow> log_globals \<times> log_thread \<Rightarrow> (log_globals \<times> log_thread) option" where
  "log_exec t (CallInit c) (g, th) =
     (case init_point th of Outside \<Rightarrow> Some (g, th\<lparr>init_point := AtLock c\<rparr>) | _ \<Rightarrow> None)"
| "log_exec t Lock (g, th) =
     (case init_point th of
        AtLock c \<Rightarrow> if lock_holder g = None then Some (g\<lparr>lock_holder := Some t\<rparr>, th\<lparr>init_point := AtTest c\<rparr>) else None
      | _ \<Rightarrow> None)"
| "log_exec t AlreadyReady (g, th) =
     (case init_point th of
        AtTest c \<Rightarrow> if lock_value g then Some (g, th\<lparr>init_point := Returning c (Inr ())\<rparr>) else None | _ \<Rightarrow> None)"
| "log_exec t NotReady (g, th) =
     (case init_point th of AtTest c \<Rightarrow> if lock_value g then None else Some (g, th\<lparr>init_point := AtOpen c\<rparr>) | _ \<Rightarrow> None)"
| "log_exec t (OpenFails d) (g, th) =
     (case init_point th of
        AtOpen c \<Rightarrow>
          if os_syslog_unix (fst c) (new_prefix_formatter (fst c) LOG_AUTHPRIV (snd c)) = Inl d
          then Some (g, th\<lparr>init_point := Returning c (Inl (Anyhow ''Failed to set up log: {}'' [Str d]))\<rparr>) else None
      | _ \<Rightarrow> None)"
| "log_exec t Opens (g, th) =
     (case init_point th of
        AtOpen c \<Rightarrow>
          (let pf = new_prefix_formatter (fst c) LOG_AUTHPRIV (snd c) in
           if os_syslog_unix (fst c) pf = Inr () then Some (g, th\<lparr>init_point := AtSetLogger c pf\<rparr>) else None)
      | _ \<Rightarrow> None)"
| "log_exec t Panics (g, th) =
     (case init_point th of AtOpen c \<Rightarrow> Some (g, th\<lparr>init_point := Unwinding\<rparr>) | _ \<Rightarrow> None)"
| "log_exec t InstallLogger (g, th) =
     (case init_point th of
        AtSetLogger c pf \<Rightarrow>
          if global_logger g = None
          then Some (g\<lparr>global_logger := Some pf\<rparr>, th\<lparr>init_point := AtSetMaxLevel c\<rparr>) else None
      | _ \<Rightarrow> None)"
| "log_exec t LoggerRefused (g, th) =
     (case init_point th of
        AtSetLogger c pf \<Rightarrow>
          if global_logger g = None then None
          else Some (g, th\<lparr>init_point := Returning c (Inl (Anyhow ''logger already set'' []))\<rparr>)
      | _ \<Rightarrow> None)"
| "log_exec t SetMaxLevel (g, th) =
     (case init_point th of
        AtSetMaxLevel c \<Rightarrow> Some (g\<lparr>global_max_level := Some LDebug\<rparr>, th\<lparr>init_point := AtSetGuard c\<rparr>) | _ \<Rightarrow> None)"
| "log_exec t SetGuard (g, th) =
     (case init_point th of
        AtSetGuard c \<Rightarrow> Some (g\<lparr>lock_value := True\<rparr>, th\<lparr>init_point := Returning c (Inr ())\<rparr>) | _ \<Rightarrow> None)"
| "log_exec t Unlock (g, th) =
     (case init_point th of
        Returning c r \<Rightarrow>
          Some (g\<lparr>lock_holder := None, returned := returned g @ [(c, r)]\<rparr>, th\<lparr>init_point := Outside\<rparr>) | _ \<Rightarrow> None)"
| "log_exec t UnlockUnwinding (g, th) =
     (case init_point th of
        Unwinding \<Rightarrow> Some (g\<lparr>lock_holder := None, lock_poisoned := True\<rparr>, th\<lparr>init_point := Outside\<rparr>) | _ \<Rightarrow> None)"
| "log_exec t (EnterDebug enabled) (g, th) =
     (case init_point th of
        Outside \<Rightarrow> Some (g, th\<lparr>debug_cell := enabled, resets := debug_cell th # resets th\<rparr>) | _ \<Rightarrow> None)"
| "log_exec t LeaveDebug (g, th) =
     (case (init_point th, resets th) of
        (Outside, previous # rest) \<Rightarrow> Some (g, th\<lparr>debug_cell := previous, resets := rest\<rparr>) | _ \<Rightarrow> None)"
| "log_exec t (LogRecord os level message) (g, th) =
     (case (init_point th, global_logger g, global_max_level g) of
        (Outside, Some pf, Some m) \<Rightarrow>
          if level \<le> m
          then Some (g\<lparr>lines_sent := lines_sent g @ [prefix_format os pf (severity_of level) message]\<rparr>, th) else None
      | _ \<Rightarrow> None)"
| "log_exec t (SkipRecord level) (g, th) =
     (case init_point th of
        Outside \<Rightarrow>
          if global_logger g = None \<or> global_max_level g = None \<or> the (global_max_level g) < level then Some (g, th) else None
      | _ \<Rightarrow> None)"

lemma log_exec_complete: "log_step t s a s' \<Longrightarrow> log_exec t a s = Some s'"
  by (cases rule: log_step.cases, assumption) auto

lemma log_exec_sound: "log_exec t a (g, th) = Some s' \<Longrightarrow> log_step t (g, th) a s'"
  by (cases a) (auto simp: Let_def split: init_point.splits if_splits list.splits option.splits intro: log_step.intros)

lemma log_step_exec: "log_step t s a s' \<longleftrightarrow> log_exec t a s = Some s'"
  using log_exec_complete log_exec_sound by (cases s) blast

text \<open>A process: a step of one of its threads leaves the cells of the others.\<close>

type_synonym log_process = "log_globals \<times> (nat \<Rightarrow> log_thread)"

inductive process_step :: "log_process \<Rightarrow> nat \<times> log_action \<Rightarrow> log_process \<Rightarrow> bool" where
  thread_step: "log_step t (g, ths t) a (g', th') \<Longrightarrow> process_step (g, ths) (t, a) (g', ths(t := th'))"

inductive_cases process_step_cases: "process_step (g, ths) (t, a) p"

definition fresh_thread :: log_thread where
  "fresh_thread = \<lparr>init_point = Outside, debug_cell = False, resets = []\<rparr>"

definition fresh_globals :: log_globals where
  "fresh_globals = \<lparr>lock_holder = None, lock_poisoned = False, lock_value = False, global_logger = None,
     global_max_level = None, lines_sent = [], returned = []\<rparr>"

definition fresh_process :: log_process where
  "fresh_process = (fresh_globals, \<lambda>_. fresh_thread)"

fun run_exec :: "(nat \<times> log_action) list \<Rightarrow> log_process \<Rightarrow> log_process option" where
  "run_exec [] p = Some p"
| "run_exec ((t, a) # tr) (g, ths) =
     (case log_exec t a (g, ths t) of None \<Rightarrow> None | Some (g', th') \<Rightarrow> run_exec tr (g', ths(t := th')))"

lemma run_exec_sound: "run_exec tr p = Some p' \<Longrightarrow> run process_step p tr p'"
proof (induction tr p rule: run_exec.induct)
  case (2 t a tr g ths)
  then obtain g1 th1 where first: "log_exec t a (g, ths t) = Some (g1, th1)" and rest: "run_exec tr (g1, ths(t := th1)) = Some p'"
    by (auto split: option.splits)
  have "process_step (g, ths) (t, a) (g1, ths(t := th1))"
    using first by (intro thread_step) (simp add: log_step_exec)
  from run_cons [of process_step, OF this] 2(1) first rest show ?case by simp
qed (simp add: run_nil)

section \<open>The lock and the logger\<close>

fun in_section :: "init_point \<Rightarrow> bool" where
  "in_section Outside = False"
| "in_section (AtLock c) = False"
| "in_section _ = True"

text \<open>The state of the sequential model that the shared state stands for, seen from outside the lock.\<close>

definition abs_log :: "log_globals \<Rightarrow> log_state" where
  "abs_log g = \<lparr>log_lock = lock_value g, request_debug = False, installed_logger = global_logger g,
     max_level = global_max_level g, log_sent = []\<rparr>"

text \<open>The returned calls, one after the other, on the sequential model: they must give the results that they gave.\<close>

fun replay :: "(log_call \<times> unit result) list \<Rightarrow> log_state \<Rightarrow> log_state option" where
  "replay [] st = Some st"
| "replay (((os, service), r) # calls) st =
     (case init_logging os service st of (r', st') \<Rightarrow> if r' = r then replay calls st' else None)"

lemma replay_append:
  "replay (calls @ calls') st = (case replay calls st of None \<Rightarrow> None | Some st' \<Rightarrow> replay calls' st')"
  by (induction calls st rule: replay.induct) (auto split: prod.splits)

text \<open>The state before the logger is set up, and after.\<close>

definition log_unset :: "log_globals \<Rightarrow> bool" where
  "log_unset g \<longleftrightarrow> \<not> lock_value g \<and> global_logger g = None \<and> global_max_level g = None"

definition log_set :: "log_globals \<Rightarrow> bool" where
  "log_set g \<longleftrightarrow> lock_value g \<and> global_logger g \<noteq> None \<and> global_max_level g = Some LDebug"

definition opened :: "log_call \<Rightarrow> prefix_formatter \<Rightarrow> bool" where
  "opened c pf \<longleftrightarrow> pf = new_prefix_formatter (fst c) LOG_AUTHPRIV (snd c) \<and> os_syslog_unix (fst c) pf = Inr ()"

text \<open>The shared state while the holder of the lock is at a point; \<open>st\<close> is the state when it took the lock.\<close>

fun at_point :: "init_point \<Rightarrow> log_state \<Rightarrow> log_globals \<Rightarrow> bool" where
  "at_point (AtOpen c) st g \<longleftrightarrow> log_unset g \<and> st = abs_log g"
| "at_point (AtSetLogger c pf) st g \<longleftrightarrow> log_unset g \<and> st = abs_log g \<and> opened c pf"
| "at_point (AtSetMaxLevel c) st g \<longleftrightarrow> (\<exists>pf. opened c pf \<and> \<not> lock_value g \<and> global_logger g = Some pf \<and>
     global_max_level g = None \<and> st = abs_log (g\<lparr>global_logger := None\<rparr>))"
| "at_point (AtSetGuard c) st g \<longleftrightarrow> (\<exists>pf. opened c pf \<and> \<not> lock_value g \<and> global_logger g = Some pf \<and>
     global_max_level g = Some LDebug \<and> st = abs_log (g\<lparr>global_logger := None, global_max_level := None\<rparr>))"
| "at_point (Returning c r) st g \<longleftrightarrow> (log_unset g \<or> log_set g) \<and> init_logging (fst c) (snd c) st = (r, abs_log g)"
| "at_point _ st g \<longleftrightarrow> (log_unset g \<or> log_set g) \<and> st = abs_log g"

text \<open>
  The invariant: exactly the holder of the lock is between locking and unlocking, and the state is the one that the calls
  that have returned lead to, up to the progress of the holder.
\<close>

definition exclusive :: "log_process \<Rightarrow> bool" where
  "exclusive = (\<lambda>(g, ths). \<forall>t. in_section (init_point (ths t)) \<longleftrightarrow> lock_holder g = Some t)"

definition holder_point :: "log_process \<Rightarrow> init_point" where
  "holder_point = (\<lambda>(g, ths). case lock_holder g of None \<Rightarrow> Outside | Some t \<Rightarrow> init_point (ths t))"

definition simulates :: "log_process \<Rightarrow> bool" where
  "simulates = (\<lambda>(g, ths). \<exists>st. replay (returned g) fresh_log_state = Some st \<and> at_point (holder_point (g, ths)) st g)"

lemmas at_point_defs = log_unset_def log_set_def opened_def abs_log_def

lemma at_point_other [simp]:
  "at_point p st (g\<lparr>lock_holder := h\<rparr>) = at_point p st g"
  "at_point p st (g\<lparr>lock_poisoned := b\<rparr>) = at_point p st g"
  "at_point p st (g\<lparr>lines_sent := ls\<rparr>) = at_point p st g"
  "at_point p st (g\<lparr>returned := cs\<rparr>) = at_point p st g"
  by (cases p; simp add: at_point_defs)+

lemma at_point_free: "\<not> in_section p \<Longrightarrow> at_point p st g = at_point Outside st g"
  by (cases p) simp_all

text \<open>What a step does to the lock.\<close>

lemma log_step_lock:
  assumes "log_step t s a s'" and "in_section (init_point (snd s)) \<longleftrightarrow> lock_holder (fst s) = Some t"
  shows "(in_section (init_point (snd s')) \<longleftrightarrow> lock_holder (fst s') = Some t) \<and>
    (lock_holder (fst s') = lock_holder (fst s) \<or>
     lock_holder (fst s) = None \<and> lock_holder (fst s') = Some t \<or>
     lock_holder (fst s) = Some t \<and> lock_holder (fst s') = None)"
  using assms by (cases rule: log_step.cases) auto

lemma exclusive_step:
  assumes "exclusive (g, ths)" and "log_step t (g, ths t) a (g', th')"
  shows "exclusive (g', ths(t := th'))"
proof -
  have ex: "in_section (init_point (ths u)) \<longleftrightarrow> lock_holder g = Some u" for u
    using assms(1) by (simp add: exclusive_def)
  note lock = log_step_lock [OF assms(2)]
  have "in_section (init_point ((ths(t := th')) u)) \<longleftrightarrow> lock_holder g' = Some u" for u
    using lock ex [of t] ex [of u] by (cases "u = t") auto
  then show ?thesis by (simp add: exclusive_def)
qed

text \<open>A step of a thread outside the lock changes nothing that the simulation speaks of, except that it may take the lock.\<close>

lemma log_step_outside:
  assumes "log_step t s a s'" and "\<not> in_section (init_point (snd s))"
  shows "returned (fst s') = returned (fst s) \<and> at_point p st (fst s') = at_point p st (fst s) \<and>
    at_point (init_point (snd s')) st (fst s') = at_point Outside st (fst s) \<and>
    (in_section (init_point (snd s')) \<longrightarrow> lock_holder (fst s) = None)"
  using assms by (cases rule: log_step.cases) auto

text \<open>The steps of the holder.\<close>

lemma init_logging_opened:
  assumes "opened c pf" and "\<not> log_lock st" and "installed_logger st = None"
  shows "init_logging (fst c) (snd c) st =
    (Inr (), st\<lparr>installed_logger := Some pf, max_level := Some LDebug, log_lock := True\<rparr>)"
  using assms by (auto simp: opened_def init_logging_def init_impl_def Let_def)

lemma at_point_ready: "at_point p st g \<Longrightarrow> lock_value g \<Longrightarrow> log_set g"
  by (cases p) (auto simp: log_unset_def)

lemma log_step_inside:
  assumes "log_step t s a s'" and "in_section (init_point (snd s))"
    and "at_point (init_point (snd s)) st (fst s)" and "replay (returned (fst s)) st0 = Some st"
  shows "\<exists>st'. replay (returned (fst s')) st0 = Some st' \<and> at_point (init_point (snd s')) st' (fst s')"
  using assms
proof (cases rule: log_step.cases)
  case (already_ready th c g)
  then show ?thesis using assms by (auto simp: log_unset_def log_set_def abs_log_def init_logging_def)
next
  case (open_fails th c d g)
  then show ?thesis using assms by (auto simp: log_unset_def abs_log_def init_logging_def init_impl_def)
next
  case (opens th c pf g)
  then show ?thesis using assms by (auto simp: opened_def)
next
  case (install_logger th c pf g)
  then show ?thesis using assms by (auto simp: log_unset_def abs_log_def)
next
  case (set_max_level th c g)
  then show ?thesis using assms by (auto simp: abs_log_def)
next
  case (set_guard th c g)
  then show ?thesis using assms
    by (auto simp: log_set_def abs_log_def init_logging_opened)
next
  case (unlock th c r g)
  then show ?thesis using assms by (cases c) (auto simp: replay_append)
qed (auto simp: log_unset_def log_set_def abs_log_def)

lemma simulates_step:
  assumes "exclusive (g, ths)" and "simulates (g, ths)" and "log_step t (g, ths t) a (g', th')"
  shows "simulates (g', ths(t := th'))"
proof -
  have sec: "in_section (init_point (ths t)) \<longleftrightarrow> lock_holder g = Some t"
    using assms(1) by (simp add: exclusive_def)
  obtain st where st: "replay (returned g) fresh_log_state = Some st" "at_point (holder_point (g, ths)) st g"
    using assms(2) by (auto simp: simulates_def)
  note lock = log_step_lock [OF assms(3)]
  show ?thesis
  proof (cases "in_section (init_point (ths t))")
    case True
    with st sec have "at_point (init_point (ths t)) st g" by (simp add: holder_point_def)
    from log_step_inside [OF assms(3), of st fresh_log_state] True this st(1) lock sec show ?thesis
      by (auto simp: simulates_def holder_point_def at_point_free)
  next
    case False
    with log_step_outside [OF assms(3)] st lock sec show ?thesis
      by (auto simp: simulates_def holder_point_def split: option.splits)
  qed
qed

text \<open>The logger: it is installed once, its set-up never finds another one, and every line is formatted by it.\<close>

fun one_logger :: "(nat \<times> log_action) list \<Rightarrow> log_globals \<Rightarrow> bool" where
  "one_logger tr g \<longleftrightarrow>
     (\<forall>t. (t, LoggerRefused) \<notin> set tr) \<and>
     length (filter (\<lambda>(t, a). a = InstallLogger) tr) = (if global_logger g = None then 0 else 1) \<and>
     (\<forall>line\<in>set (lines_sent g). \<exists>os pf severity message.
        global_logger g = Some pf \<and> line = prefix_format os pf severity message)"

lemma one_logger_step:
  assumes "log_step t s a s'" and "one_logger tr (fst s)"
    and "in_section (init_point (snd s)) \<Longrightarrow> at_point (init_point (snd s)) st (fst s)"
  shows "one_logger (tr @ [(t, a)]) (fst s')"
  using assms by (cases rule: log_step.cases) (auto simp: log_unset_def)

section \<open>Every run keeps the invariant\<close>

definition log_invariant :: "(nat \<times> log_action) list \<Rightarrow> log_process \<Rightarrow> bool" where
  "log_invariant tr p \<longleftrightarrow> exclusive p \<and> simulates p \<and> one_logger tr (fst p)"

lemma log_invariant_step:
  assumes "log_invariant tr (g, ths)" and "log_step t (g, ths t) a (g', th')"
  shows "log_invariant (tr @ [(t, a)]) (g', ths(t := th'))"
proof -
  have ex: "exclusive (g, ths)" and sim: "simulates (g, ths)" and one: "one_logger tr g"
    using assms(1) by (simp_all add: log_invariant_def)
  obtain st where "at_point (holder_point (g, ths)) st g"
    using sim by (auto simp: simulates_def)
  then have "at_point (init_point (ths t)) st g" if "in_section (init_point (ths t))"
    using ex that by (simp add: exclusive_def holder_point_def)
  from one_logger_step [OF assms(2), of tr st] one this
  have "one_logger (tr @ [(t, a)]) g'" by simp
  then show ?thesis
    using exclusive_step [OF ex assms(2)] simulates_step [OF ex sim assms(2)] by (simp add: log_invariant_def)
qed

interpretation lock_protocol: kept_along process_step fresh_process log_invariant
proof
  show "log_invariant [] fresh_process"
    by (simp add: log_invariant_def exclusive_def simulates_def holder_point_def fresh_process_def fresh_globals_def
        fresh_thread_def fresh_log_state_def at_point_defs)
next
  fix tr p a p'
  assume "log_invariant tr p" and "process_step p a p'"
  from this(2,1) show "log_invariant (tr @ [a]) p'"
    by (cases rule: process_step.cases) (auto dest: log_invariant_step)
qed

text \<open>The state as a thread sees it.\<close>

definition thread_view :: "nat \<Rightarrow> log_process \<Rightarrow> log_state" where
  "thread_view t p = (abs_log (fst p))\<lparr>request_debug := debug_cell (snd p t)\<rparr>"

text \<open>The debug flag: the scopes that a thread is in, innermost first, from its own actions.\<close>

fun debug_scopes :: "log_action list \<Rightarrow> bool list \<Rightarrow> bool list" where
  "debug_scopes [] scopes = scopes"
| "debug_scopes (EnterDebug enabled # as) scopes = debug_scopes as (enabled # scopes)"
| "debug_scopes (LeaveDebug # as) scopes = debug_scopes as (tl scopes)"
| "debug_scopes (a # as) scopes = debug_scopes as scopes"

definition own_actions :: "nat \<Rightarrow> (nat \<times> log_action) list \<Rightarrow> log_action list" where
  "own_actions t tr = List.map snd (filter (\<lambda>x. fst x = t) tr)"

lemma debug_scopes_append: "debug_scopes (as @ bs) scopes = debug_scopes bs (debug_scopes as scopes)"
  by (induction as scopes rule: debug_scopes.induct) simp_all

definition cells_of_scopes :: "(nat \<times> log_action) list \<Rightarrow> log_process \<Rightarrow> bool" where
  "cells_of_scopes tr p \<longleftrightarrow>
     (\<forall>t. debug_cell (snd p t) # resets (snd p t) = debug_scopes (own_actions t tr) [] @ [False])"

lemma cells_step:
  assumes "log_step t s a s'" and "debug_cell (snd s) # resets (snd s) = scopes @ [False]"
  shows "debug_cell (snd s') # resets (snd s') = debug_scopes [a] scopes @ [False]"
  using assms by (cases rule: log_step.cases; cases scopes) auto

interpretation debug_cells: kept_along process_step fresh_process cells_of_scopes
proof
  show "cells_of_scopes [] fresh_process"
    by (simp add: cells_of_scopes_def own_actions_def fresh_process_def fresh_thread_def)
next
  fix tr p a p'
  assume "cells_of_scopes tr p" and "process_step p a p'"
  from this(2,1) show "cells_of_scopes (tr @ [a]) p'"
    by (cases rule: process_step.cases)
      (auto simp: cells_of_scopes_def own_actions_def debug_scopes_append dest: cells_step)
qed

section \<open>Progress\<close>

text \<open>How many steps a thread needs at most to leave \<open>init_logging\<close>, once it does not wait for the lock.\<close>

fun steps_left :: "init_point \<Rightarrow> nat" where
  "steps_left Outside = 0"
| "steps_left (AtLock _) = 7"
| "steps_left (AtTest _) = 6"
| "steps_left (AtOpen _) = 5"
| "steps_left (AtSetLogger _ _) = 4"
| "steps_left (AtSetMaxLevel _) = 3"
| "steps_left (AtSetGuard _) = 2"
| "steps_left (Returning _ _) = 1"
| "steps_left Unwinding = 1"

lemma holder_can_step:
  assumes "in_section (init_point th)"
  shows "\<exists>a g' th'. log_step t (g, th) a (g', th') \<and> a \<noteq> Panics"
proof (cases "init_point th")
  case (AtTest c)
  then show ?thesis
    using already_ready [of th c g t] not_ready [of th c g t] by (cases "lock_value g") fast+
next
  case (AtOpen c)
  then show ?thesis
    using open_fails [of th c _ t g] opens [of th c _ t g]
    by (cases "os_syslog_unix (fst c) (new_prefix_formatter (fst c) LOG_AUTHPRIV (snd c))") fastforce+
next
  case (AtSetLogger c pf)
  then show ?thesis
    using install_logger [of th c pf g t] logger_refused [of th c pf g t] by (cases "global_logger g = None") fast+
next
  case (AtSetMaxLevel c)
  from set_max_level [OF this] show ?thesis by fast
next
  case (AtSetGuard c)
  from set_guard [OF this] show ?thesis by fast
next
  case (Returning c r)
  from unlock [OF this] show ?thesis by fast
next
  case Unwinding
  from unlock_unwinding [OF this] show ?thesis by fast
qed (use assms in auto)

lemma step_closer:
  assumes "log_step t s a s'" and "init_point (snd s) \<noteq> Outside"
  shows "steps_left (init_point (snd s')) < steps_left (init_point (snd s))"
  using assms by (cases rule: log_step.cases) auto

lemma stays_inside:
  assumes "log_step t s a s'" and "in_section (init_point (snd s))"
  shows "in_section (init_point (snd s')) \<or> init_point (snd s') = Outside \<and> lock_holder (fst s') = None"
  using assms by (cases rule: log_step.cases) auto

lemma holder_leaves:
  assumes "in_section (init_point (ths t))"
  shows "\<exists>tr g' th'. run process_step (g, ths) tr (g', ths(t := th')) \<and> init_point th' = Outside \<and>
    lock_holder g' = None \<and> length tr \<le> steps_left (init_point (ths t)) \<and> set tr \<subseteq> {t} \<times> - {Panics}"
  using assms
proof (induction "steps_left (init_point (ths t))" arbitrary: g ths rule: less_induct)
  case less
  obtain a g1 th1 where step: "log_step t (g, ths t) a (g1, th1)" and calm: "a \<noteq> Panics"
    using holder_can_step [OF less.prems] by blast
  let ?ths1 = "ths(t := th1)"
  have first: "process_step (g, ths) (t, a) (g1, ?ths1)" using step by (rule thread_step)
  have closer: "steps_left (init_point th1) < steps_left (init_point (ths t))"
    using step_closer [OF step] less.prems by (cases "init_point (ths t)") auto
  show ?case
  proof (cases "in_section (init_point th1)")
    case True
    with closer less.hyps [of ?ths1 g1] obtain tr g' th' where rest: "run process_step (g1, ?ths1) tr (g', ?ths1(t := th'))"
      "init_point th' = Outside" "lock_holder g' = None" "length tr \<le> steps_left (init_point th1)" "set tr \<subseteq> {t} \<times> - {Panics}"
      by auto
    then show ?thesis
      using run_cons [of process_step, OF first rest(1)] closer calm by (intro exI [of _ "(t, a) # tr"] exI [of _ g'] exI [of _ th']) auto
  next
    case False
    with stays_inside [OF step] less.prems have "init_point th1 = Outside" "lock_holder g1 = None" by auto
    then show ?thesis
      using run_cons [of process_step, OF first run_nil] closer calm by (intro exI [of _ "[(t, a)]"] exI [of _ g1] exI [of _ th1]) auto
  qed
qed

lemma waiting_leaves:
  assumes "init_point (ths t) = AtLock c" and "lock_holder g = None"
  shows "\<exists>tr g' ths'. run process_step (g, ths) tr (g', ths') \<and> init_point (ths' t) = Outside \<and>
    length tr \<le> 7 \<and> set tr \<subseteq> {t} \<times> - {Panics}"
proof -
  let ?g = "g\<lparr>lock_holder := Some t\<rparr>" and ?ths = "ths(t := (ths t)\<lparr>init_point := AtTest c\<rparr>)"
  have first: "process_step (g, ths) (t, Lock) (?g, ?ths)"
    by (rule thread_step) (rule log_step.lock [OF assms])
  obtain tr g' th' where "run process_step (?g, ?ths) tr (g', ?ths(t := th'))" "init_point th' = Outside"
    "length tr \<le> 6" "set tr \<subseteq> {t} \<times> - {Panics}"
    using holder_leaves [of ?ths t ?g] by auto
  then show ?thesis
    using run_cons [of process_step "(g, ths)" "(t, Lock)" "(?g, ?ths)", OF first] by (intro exI [of _ "(t, Lock) # tr"] exI [of _ g'] exI [of _ "?ths(t := th')"]) auto
qed

section \<open>A run of two threads\<close>

text \<open>
  The thread 0 enters a debug scope and sets up the log for \<open>sudo\<close> while the thread 1 waits with a call for \<open>su\<close>, which then
  finds the work done; thread 1 writes a record.
\<close>

definition two_calls :: "(nat \<times> log_action) list" where
  "two_calls =
    [(0, EnterDebug True), (0, CallInit (example_log_os, ''sudo'')), (0, Lock), (1, CallInit (example_log_os, ''su'')), (0, NotReady),
     (0, Opens), (0, InstallLogger), (0, SetMaxLevel), (0, SetGuard), (0, Unlock), (1, Lock), (1, AlreadyReady), (1, Unlock),
     (1, LogRecord example_log_os LInfo ''hello''), (0, LeaveDebug), (1, EnterDebug True), (1, CallInit (example_log_os, ''login'')),
     (1, Lock)]"

abbreviation sudo_formatter :: prefix_formatter where
  "sudo_formatter \<equiv> new_prefix_formatter example_log_os LOG_AUTHPRIV ''sudo''"

definition two_calls_globals :: log_globals where
  "two_calls_globals = \<lparr>lock_holder = Some 1, lock_poisoned = False, lock_value = True, global_logger = Some sudo_formatter,
     global_max_level = Some LDebug, lines_sent = [prefix_format example_log_os sudo_formatter LOG_INFO ''hello''],
     returned = [((example_log_os, ''sudo''), Inr ()), ((example_log_os, ''su''), Inr ())]\<rparr>"

definition two_calls_threads :: "nat \<Rightarrow> log_thread" where
  "two_calls_threads = (\<lambda>_. fresh_thread)(0 := fresh_thread,
     1 := \<lparr>init_point = AtTest (example_log_os, ''login''), debug_cell = True, resets = [False]\<rparr>)"

lemma two_calls_run: "run process_step fresh_process two_calls (two_calls_globals, two_calls_threads)"
proof (rule run_exec_sound)
  have start: "fresh_process = (fresh_globals, (\<lambda>_. fresh_thread)(0 := fresh_thread, 1 := fresh_thread))"
    by (auto simp: fresh_process_def fun_eq_iff)
  note [simp del] = fun_upd_apply and [simp] = fun_upd_same fun_upd_other
  show "run_exec two_calls fresh_process = Some (two_calls_globals, two_calls_threads)"
    unfolding start two_calls_def fresh_globals_def fresh_thread_def two_calls_globals_def two_calls_threads_def
    by (simp add: Let_def example_log_os_def less_eq_log_level_def fun_upd_twist)
qed

section \<open>Properties\<close>

text \<open>
  C35: concurrent calls of \<open>init_logging\<close> behave as if they ran one after the other. In each run of any number of threads,
  the sequential model makes the calls that returned, in the order in which they released the lock, give the very results
  that they gave, and leads to the shared state whenever the lock is free. At any time the thread inside is the holder.
\<close>

theorem init_logging_linearizable:
  assumes "run process_step fresh_process tr (g, ths)"
  shows "\<exists>st. replay (returned g) fresh_log_state = Some st \<and> (lock_holder g = None \<longrightarrow> abs_log g = st) \<and>
    (\<forall>t. in_section (init_point (ths t)) \<longleftrightarrow> lock_holder g = Some t)"
  using lock_protocol.holds [OF assms]
  by (auto simp: log_invariant_def simulates_def holder_point_def exclusive_def)

lemma init_logging_linearizable_witness:
  "\<exists>st. replay (returned two_calls_globals) fresh_log_state = Some st \<and> in_section (init_point (two_calls_threads 1))"
  using init_logging_linearizable [OF two_calls_run] by (auto simp: two_calls_globals_def)

text \<open>
  C36: one logger for the process. However many threads call \<open>init_logging\<close>, setting the logger is never refused because there
  is one already, it happens at most once, the maximal level is set with it before the lock says so, and each line that any
  thread writes is formatted by this one logger.
\<close>

theorem logger_set_once:
  assumes "run process_step fresh_process tr (g, ths)"
  shows "(\<forall>t. (t, LoggerRefused) \<notin> set tr) \<and>
    length (filter (\<lambda>(t, a). a = InstallLogger) tr) \<le> 1 \<and>
    (lock_value g \<longrightarrow> global_logger g \<noteq> None \<and> global_max_level g = Some LDebug) \<and>
    (\<forall>line\<in>set (lines_sent g). \<exists>os pf severity message.
       global_logger g = Some pf \<and> line = prefix_format os pf severity message)"
proof -
  have inv: "simulates (g, ths)" "one_logger tr g"
    using lock_protocol.holds [OF assms] by (simp_all add: log_invariant_def)
  from inv(1) have "lock_value g \<longrightarrow> global_logger g \<noteq> None \<and> global_max_level g = Some LDebug"
    by (auto simp: simulates_def log_set_def dest: at_point_ready)
  with inv(2) show ?thesis by simp
qed

lemma logger_set_once_witness:
  "length (filter (\<lambda>(t, a). a = InstallLogger) two_calls) \<le> 1 \<and> global_logger two_calls_globals \<noteq> None \<and> lines_sent two_calls_globals \<noteq> []"
  using logger_set_once [OF two_calls_run] by (simp add: two_calls_globals_def)

text \<open>
  C37: the debug flag belongs to the thread. In each run, the flag of a thread and the values that its active calls of
  \<open>with_debug\<close> will restore are those of the scopes that this thread itself has entered and not left, innermost first, and
  \<open>False\<close> outside of all; no other thread changes them, and \<open>enabled\<close> answers by them.
\<close>

theorem debug_flag_own:
  assumes "run process_step fresh_process tr (g, ths)"
  shows "debug_cell (ths t) # resets (ths t) = debug_scopes (own_actions t tr) [] @ [False] \<and>
    (logger_enabled (thread_view t (g, ths)) level \<longleftrightarrow>
       level \<le> LInfo \<or> level = LDebug \<and> hd (debug_scopes (own_actions t tr) [] @ [False]))"
proof -
  have "debug_cell (ths t) # resets (ths t) = debug_scopes (own_actions t tr) [] @ [False]"
    using debug_cells.holds [OF assms] by (simp add: cells_of_scopes_def)
  from this this [symmetric] show ?thesis by (simp add: logger_enabled_def thread_view_def)
qed

lemma debug_flag_own_witness:
  "logger_enabled (thread_view 1 (two_calls_globals, two_calls_threads)) LDebug \<and> \<not> debug_cell (two_calls_threads 0)"
  using debug_flag_own [OF two_calls_run, of 1 LDebug] debug_flag_own [OF two_calls_run, of 0 LDebug]
  by (simp add: two_calls_def own_actions_def)

text \<open>
  C38: \<open>init_logging\<close> cannot block forever. From each state that a run reaches, at most 13 steps, of the thread and of the
  holder of the lock only and without a panic, bring the thread out of \<open>init_logging\<close>. In every other continuation each step
  of a thread that is inside brings it closer to the end, and no step of another thread sets it back.
\<close>

theorem init_logging_no_deadlock:
  assumes "run process_step fresh_process tr (g, ths)"
  shows "(\<exists>tr' g' ths'. run process_step (g, ths) tr' (g', ths') \<and> init_point (ths' t) = Outside \<and>
      length tr' \<le> 13 \<and> set tr' \<subseteq> ({t} \<union> set_option (lock_holder g)) \<times> - {Panics}) \<and>
    (\<forall>u a g' ths'. process_step (g, ths) (u, a) (g', ths') \<longrightarrow>
      (u \<noteq> t \<longrightarrow> ths' t = ths t) \<and>
      (u = t \<longrightarrow> init_point (ths t) \<noteq> Outside \<longrightarrow> steps_left (init_point (ths' t)) < steps_left (init_point (ths t))))"
proof -
  have ex: "in_section (init_point (ths u)) \<longleftrightarrow> lock_holder g = Some u" for u
    using lock_protocol.holds [OF assms] by (simp add: log_invariant_def exclusive_def)
  have bound: "steps_left p \<le> 6" if "in_section p" for p
    using that by (cases p) auto
  consider "init_point (ths t) = Outside" | c where "init_point (ths t) = AtLock c" | "in_section (init_point (ths t))"
    by (cases "init_point (ths t)") auto
  then have "\<exists>tr' g' ths'. run process_step (g, ths) tr' (g', ths') \<and> init_point (ths' t) = Outside \<and>
      length tr' \<le> 13 \<and> set tr' \<subseteq> ({t} \<union> set_option (lock_holder g)) \<times> - {Panics}"
  proof cases
    case 1
    then show ?thesis by (intro exI [of _ "[]"] exI [of _ g] exI [of _ ths]) (simp add: run_nil)
  next
    case (2 c)
    show ?thesis
    proof (cases "lock_holder g")
      case None
      from waiting_leaves [of ths t c g] 2 this show ?thesis by fastforce
    next
      case (Some u)
      with ex 2 have "u \<noteq> t" by (metis in_section.simps(2))
      from Some ex have inside: "in_section (init_point (ths u))" by simp
      obtain tr1 g1 th1 where run1: "run process_step (g, ths) tr1 (g1, ths(u := th1))" "lock_holder g1 = None"
        "length tr1 \<le> 6" "set tr1 \<subseteq> {u} \<times> - {Panics}"
        using holder_leaves [of ths u g] inside bound [OF inside] by (metis order_trans)
      obtain tr2 g2 ths2 where run2: "run process_step (g1, ths(u := th1)) tr2 (g2, ths2)"
        "init_point (ths2 t) = Outside" "length tr2 \<le> 7" "set tr2 \<subseteq> {t} \<times> - {Panics}"
        using waiting_leaves [of "ths(u := th1)" t c g1] 2 \<open>u \<noteq> t\<close> run1(2) by auto
      show ?thesis
        using run_append [of process_step, OF run2(1) run1(1)] run1 run2 Some
        by (intro exI [of _ "tr1 @ tr2"] exI [of _ g2] exI [of _ ths2]) auto
    qed
  next
    case 3
    from holder_leaves [of ths t g] 3 bound [OF 3] show ?thesis by fastforce
  qed
  moreover have "(u \<noteq> t \<longrightarrow> ths' t = ths t) \<and>
      (u = t \<longrightarrow> init_point (ths t) \<noteq> Outside \<longrightarrow> steps_left (init_point (ths' t)) < steps_left (init_point (ths t)))"
    if "process_step (g, ths) (u, a) (g', ths')" for u a g' ths'
    using that by (cases rule: process_step.cases) (auto dest: step_closer)
  ultimately show ?thesis by blast
qed

lemma init_logging_no_deadlock_witness:
  "\<exists>tr' g' ths'. run process_step (two_calls_globals, two_calls_threads) tr' (g', ths') \<and>
     init_point (ths' 1) = Outside \<and> length tr' \<le> 13"
  using init_logging_no_deadlock [OF two_calls_run, of 1] by blast

end
