(* ===== verification/PamConv.thy ===== *)
theory PamConv imports PamBindings begin

text \<open>
  \<open>conv.rs\<close> and \<open>secret.rs\<close> of \<open>vendor/pam-bindings\<close>: sending a message to the PAM client and
  taking ownership of its answer. The client allocates the response array and the response string
  with \<open>malloc\<close>, so the model has a C heap: the live cells by address, and the cells freed so far
  with the contents they had when they were freed. An access outside a live cell is undefined
  behaviour, the result \<open>None\<close>.
\<close>

section \<open>The C heap\<close>

datatype cell = Bytes string | ResponseCell "nat option"

record c_heap =
  cells :: "nat \<rightharpoonup> cell"
  freed :: "(nat \<times> cell) list"

definition c_free :: "nat \<Rightarrow> c_heap \<Rightarrow> c_heap option" where
  "c_free p hp = (case cells hp p of
     None \<Rightarrow> None
   | Some c \<Rightarrow> Some (hp\<lparr>cells := (cells hp)(p := None), freed := freed hp @ [(p, c)]\<rparr>))"

text \<open>\<open>CStr::from_ptr(p).to_bytes()\<close>: up to the terminator, which must be inside the buffer.\<close>

definition cstr_from_ptr :: "nat \<Rightarrow> c_heap \<Rightarrow> string option" where
  "cstr_from_ptr p hp = (case cells hp p of
     Some (Bytes buf) \<Rightarrow>
       (if CHR 0x00 \<in> set buf then Some (takeWhile (\<lambda>c. c \<noteq> CHR 0x00) buf) else None)
   | _ \<Rightarrow> None)"

definition zeroize_raw :: "nat \<Rightarrow> nat \<Rightarrow> c_heap \<Rightarrow> c_heap option" where
  "zeroize_raw p len hp = (case cells hp p of
     Some (Bytes buf) \<Rightarrow>
       (if len \<le> length buf
        then Some (hp\<lparr>cells := (cells hp)(p \<mapsto> Bytes (replicate len (CHR 0x00) @ drop len buf))\<rparr>)
        else None)
   | _ \<Rightarrow> None)"

section \<open>\<open>SecretBytes\<close>\<close>

datatype secret_bytes = SecretBytes string

fun secret_as_bytes :: "secret_bytes \<Rightarrow> string" where
  "secret_as_bytes (SecretBytes b) = b"

definition secret_as_str :: "secret_bytes \<Rightarrow> string result" where
  "secret_as_str s = from_utf8 (secret_as_bytes s)"

definition secret_len :: "secret_bytes \<Rightarrow> nat" where
  "secret_len s = length (secret_as_bytes s)"

definition secret_is_empty :: "secret_bytes \<Rightarrow> bool" where
  "secret_is_empty s = (secret_as_bytes s = [])"

text \<open>\<open>{:?}\<close> of a \<open>SecretBytes\<close>.\<close>

definition secret_debug :: "secret_bytes \<Rightarrow> string" where
  "secret_debug s = ''SecretBytes('' @ [CHR 0x22] @ ''[redacted]'' @ [CHR 0x22] @ '')''"

section \<open>\<open>Conv::send\<close>\<close>

type_synonym conv_fn = "int \<Rightarrow> string \<Rightarrow> nat option \<Rightarrow> c_heap \<Rightarrow> (int \<times> nat option) \<times> c_heap"

record conv_inner =
  conv_conv :: "conv_fn option"
  conv_appdata_ptr :: "nat option"

definition PAM_PROMPT_ECHO_OFF :: int where "PAM_PROMPT_ECHO_OFF = 1"
definition PAM_PROMPT_ECHO_ON :: int where "PAM_PROMPT_ECHO_ON = 2"
definition PAM_ERROR_MSG :: int where "PAM_ERROR_MSG = 3"
definition PAM_TEXT_INFO :: int where "PAM_TEXT_INFO = 4"
definition PAM_RADIO_TYPE :: int where "PAM_RADIO_TYPE = 5"

definition style_supported :: "platform \<Rightarrow> int \<Rightarrow> bool" where
  "style_supported os style =
     (style \<in> {PAM_PROMPT_ECHO_OFF, PAM_PROMPT_ECHO_ON, PAM_ERROR_MSG, PAM_TEXT_INFO} \<or>
      os \<noteq> MacOS \<and> style = PAM_RADIO_TYPE)"

text \<open>What \<open>send\<close> does with the response array that the client returned.\<close>

definition take_response :: "nat \<Rightarrow> c_heap \<Rightarrow> (secret_bytes option \<times> c_heap) option" where
  "take_response resp_ptr hp = (case cells hp resp_ptr of
     Some (ResponseCell resp_field) \<Rightarrow>
       (case resp_field of
          None \<Rightarrow> map_option (\<lambda>hp'. (None, hp')) (c_free resp_ptr hp)
        | Some p \<Rightarrow>
            Option.bind (cstr_from_ptr p hp) (\<lambda>bytes.
            Option.bind (zeroize_raw p (length bytes) hp) (\<lambda>hp1.
            Option.bind (c_free p hp1) (\<lambda>hp2.
            map_option (\<lambda>hp3. (Some (SecretBytes bytes), hp3)) (c_free resp_ptr hp2)))))
   | _ \<Rightarrow> None)"

definition conv_send :: "platform \<Rightarrow> conv_inner \<Rightarrow> int \<Rightarrow> string \<Rightarrow> c_heap
    \<Rightarrow> (secret_bytes option pam_result \<times> c_heap) option" where
  "conv_send os inner style msg hp =
     (if \<not> style_supported os style then Some (Inl PAM_CONV_ERR, hp)
      else case conv_conv inner of
        None \<Rightarrow> Some (Inl PAM_CONV_ERR, hp)
      | Some conv_f \<Rightarrow>
          (case cstring_new msg of
             None \<Rightarrow> Some (Inl PAM_BUF_ERR, hp)
           | Some msg_cstr \<Rightarrow>
               (let ((rc, resp_ptr), hp1) = conv_f style msg_cstr (conv_appdata_ptr inner) hp;
                    ret = from_raw os rc in
                if ret \<noteq> PAM_SUCCESS then Some (Inl ret, hp1)
                else case resp_ptr of
                  None \<Rightarrow> Some (Inl PAM_CONV_ERR, hp1)
                | Some r \<Rightarrow> map_option (\<lambda>(resp, hp2). (Inr resp, hp2)) (take_response r hp1))))"

section \<open>Lemmas\<close>

lemma cstr_from_ptr_terminated:
  assumes "cells hp p = Some (Bytes (s @ CHR 0x00 # rest))" and "CHR 0x00 \<notin> set s"
  shows "cstr_from_ptr p hp = Some s"
proof -
  have "takeWhile (\<lambda>c. c \<noteq> CHR 0x00) (s @ CHR 0x00 # rest) = s"
    using assms(2) by (intro takeWhile_append_stop) auto
  with assms(1) show ?thesis by (simp add: cstr_from_ptr_def)
qed

lemma take_response_input:
  assumes "cells hp r = Some (ResponseCell (Some p))" and "p \<noteq> r"
    and "cells hp p = Some (Bytes (s @ CHR 0x00 # rest))" and "CHR 0x00 \<notin> set s"
  shows "take_response r hp = Some (Some (SecretBytes s),
    hp\<lparr>cells := (cells hp)(p := None, r := None),
       freed := freed hp @ [(p, Bytes (replicate (length s) (CHR 0x00) @ CHR 0x00 # rest)),
                            (r, ResponseCell (Some p))]\<rparr>)"
proof -
  have "cstr_from_ptr p hp = Some s"
    using assms(3,4) by (rule cstr_from_ptr_terminated)
  with assms show ?thesis
    by (simp add: take_response_def zeroize_raw_def c_free_def fun_upd_twist)
qed

lemma take_response_no_input:
  assumes "cells hp r = Some (ResponseCell None)"
  shows "take_response r hp = Some (None,
    hp\<lparr>cells := (cells hp)(r := None), freed := freed hp @ [(r, ResponseCell None)]\<rparr>)"
  using assms by (simp add: take_response_def c_free_def)

section \<open>The reply is erased\<close>

text \<open>
  C40: no copy of a secret is left in freed memory. If \<open>send\<close> returns a reply then it is the text the client put in
  the response; that buffer and the response array were freed once each, and when the buffer was freed
  every byte of the reply in it had been overwritten with zero.
\<close>

theorem reply_erased_before_free:
  assumes "conv_send os inner style msg hp = Some (Inr (Some secret), hp')"
  shows "\<exists>conv_f rc r hp1 p rest.
    conv_conv inner = Some conv_f \<and> conv_f style msg (conv_appdata_ptr inner) hp = ((rc, Some r), hp1) \<and>
    cells hp1 r = Some (ResponseCell (Some p)) \<and>
    cells hp1 p = Some (Bytes (secret_as_bytes secret @ CHR 0x00 # rest)) \<and>
    CHR 0x00 \<notin> set (secret_as_bytes secret) \<and>
    cells hp' = (cells hp1)(p := None, r := None) \<and>
    freed hp' = freed hp1 @
      [(p, Bytes (replicate (length (secret_as_bytes secret)) (CHR 0x00) @ CHR 0x00 # rest)), (r, ResponseCell (Some p))]"
proof -
  obtain conv_f msg_cstr where conv: "conv_conv inner = Some conv_f" and cstr: "cstring_new msg = Some msg_cstr"
    and run: "(let ((rc, resp_ptr), hp1) = conv_f style msg_cstr (conv_appdata_ptr inner) hp; ret = from_raw os rc in
        if ret \<noteq> PAM_SUCCESS then Some (Inl ret, hp1)
        else case resp_ptr of None \<Rightarrow> Some (Inl PAM_CONV_ERR, hp1)
        | Some r \<Rightarrow> map_option (\<lambda>(resp, hp2). (Inr resp, hp2)) (take_response r hp1)) = Some (Inr (Some secret), hp')"
    using assms by (auto simp: conv_send_def split: if_splits option.splits)
  obtain rc resp hp1 where call: "conv_f style msg_cstr (conv_appdata_ptr inner) hp = ((rc, resp), hp1)"
    by (metis surj_pair)
  with run obtain r where r: "resp = Some r" and take: "take_response r hp1 = Some (Some secret, hp')"
    by (auto simp: Let_def split: if_splits option.splits)
  from take obtain p bytes hp2 hp3 where cell: "cells hp1 r = Some (ResponseCell (Some p))"
    and str: "cstr_from_ptr p hp1 = Some bytes" and secret: "secret = SecretBytes bytes"
    by (auto simp: take_response_def bind_eq_Some_conv split: option.splits cell.splits)
  from str obtain buf where buf: "cells hp1 p = Some (Bytes buf)" "CHR 0x00 \<in> set buf" "bytes = takeWhile (\<lambda>c. c \<noteq> CHR 0x00) buf"
    by (auto simp: cstr_from_ptr_def split: option.splits cell.splits if_splits)
  then obtain pre rest where split: "buf = pre @ CHR 0x00 # rest" "CHR 0x00 \<notin> set pre"
    using split_list_first [of "CHR 0x00" buf] by blast
  have "bytes = pre"
    unfolding buf(3) split(1) by (rule takeWhile_append_stop) (use split(2) in auto)
  with split(1) have "buf = bytes @ CHR 0x00 # rest" by simp
  with buf(1) have input: "cells hp1 p = Some (Bytes (bytes @ CHR 0x00 # rest))" by simp
  have free: "CHR 0x00 \<notin> set bytes" using split(2) by (simp add: \<open>bytes = pre\<close>)
  have "p \<noteq> r" using cell buf(1) by auto
  from take_response_input [OF cell this input free] take
  have "hp' = hp1\<lparr>cells := (cells hp1)(p := None, r := None),
       freed := freed hp1 @ [(p, Bytes (replicate (length bytes) (CHR 0x00) @ CHR 0x00 # rest)), (r, ResponseCell (Some p))]\<rparr>"
    by simp
  moreover have "msg_cstr = msg" using cstr by (auto simp: cstring_new_def split: if_splits)
  ultimately show ?thesis
    using conv call r cell input free secret
    by (intro exI [of _ conv_f] exI [of _ rc] exI [of _ r] exI [of _ hp1] exI [of _ p] exI [of _ rest]) simp
qed

text \<open>A client that answers \<open>pw\<close>.\<close>

lemma reply_erased_before_free_witness:
  "freed (snd (the (conv_send Linux \<lparr>conv_conv = Some (\<lambda>_ _ _ hp. ((0, Some 1),
       hp\<lparr>cells := [1 \<mapsto> ResponseCell (Some 2), 2 \<mapsto> Bytes [CHR ''p'', CHR ''w'', CHR 0x00]]\<rparr>)), conv_appdata_ptr = None\<rparr>
     1 ''Password: '' \<lparr>cells = Map.empty, freed = []\<rparr>))) =
   [(2, Bytes [CHR 0x00, CHR 0x00, CHR 0x00]), (1, ResponseCell (Some 2))]"
proof -
  let ?conv = "\<lparr>conv_conv = Some (\<lambda>_ _ _ hp. ((0, Some 1),
       hp\<lparr>cells := [1 \<mapsto> ResponseCell (Some 2), 2 \<mapsto> Bytes [CHR ''p'', CHR ''w'', CHR 0x00]]\<rparr>)), conv_appdata_ptr = None\<rparr>"
  obtain hp where send: "conv_send Linux ?conv 1 ''Password: '' \<lparr>cells = Map.empty, freed = []\<rparr> =
      Some (Inr (Some (SecretBytes ''pw'')), hp)"
    by (simp add: conv_send_def style_supported_def PAM_PROMPT_ECHO_OFF_def cstring_new_def from_raw_def linux_try_from_def
      linux_try_from_arms_def take_response_def cstr_from_ptr_def zeroize_raw_def c_free_def)
  from reply_erased_before_free [OF send] show ?thesis
    unfolding send by (auto simp: fun_eq_iff)
qed

end
