(* ===== verification/PamItems.thy ===== *)
theory PamItems imports PamConv begin

text \<open>
  The rest of \<open>vendor/pam-bindings\<close>: the wrappers of the items (\<open>items.rs\<close>, and \<open>Conv\<close> in \<open>conv.rs\<close>), the flags
  (\<open>linux_constants.rs\<close>, \<open>macos_constants.rs\<close>), and the macro \<open>pam_try!\<close>. A wrapper borrows a C string or the
  conversation from memory that libpam owns, so it is an address with what the memory held when it was borrowed.
\<close>

section \<open>Items\<close>

text \<open>A \<open>&CStr\<close>: where it is, and its bytes without the terminator.\<close>

record cstr =
  cstr_ptr :: nat
  cstr_bytes :: string

text \<open>The types that \<open>cstr_item!\<close> and \<open>secret_cstr_item!\<close> declare, and \<open>Conv\<close>.\<close>

datatype item =
    ServiceItem cstr | UserItem cstr | TtyItem cstr | RHostItem cstr | RUserItem cstr | UserPromptItem cstr
  | AuthTokItem cstr | OldAuthTokItem cstr
  | ConvItem nat

fun type_id :: "item \<Rightarrow> item_type" where
  "type_id (ServiceItem _) = Service"
| "type_id (UserItem _) = User"
| "type_id (TtyItem _) = Tty"
| "type_id (RHostItem _) = RHost"
| "type_id (RUserItem _) = RUser"
| "type_id (UserPromptItem _) = UserPrompt"
| "type_id (AuthTokItem _) = AuthTok"
| "type_id (OldAuthTokItem _) = OldAuthTok"
| "type_id (ConvItem _) = Conv"

text \<open>\<open>CStr::from_ptr\<close>, which must find a terminator; else the behaviour is undefined.\<close>

definition borrow_cstr :: "nat \<Rightarrow> c_heap \<Rightarrow> cstr option" where
  "borrow_cstr p hp = map_option (\<lambda>bytes. \<lparr>cstr_ptr = p, cstr_bytes = bytes\<rparr>) (cstr_from_ptr p hp)"

text \<open>\<open>T::from_raw\<close> for the type with the identifier \<open>ty\<close>. The variants without a wrapper have no such function.\<close>

definition item_from_raw :: "item_type \<Rightarrow> nat \<Rightarrow> c_heap \<Rightarrow> item option" where
  "item_from_raw ty p hp = (case ty of
     Service \<Rightarrow> map_option ServiceItem (borrow_cstr p hp)
   | User \<Rightarrow> map_option UserItem (borrow_cstr p hp)
   | Tty \<Rightarrow> map_option TtyItem (borrow_cstr p hp)
   | RHost \<Rightarrow> map_option RHostItem (borrow_cstr p hp)
   | RUser \<Rightarrow> map_option RUserItem (borrow_cstr p hp)
   | UserPrompt \<Rightarrow> map_option UserPromptItem (borrow_cstr p hp)
   | AuthTok \<Rightarrow> map_option AuthTokItem (borrow_cstr p hp)
   | OldAuthTok \<Rightarrow> map_option OldAuthTokItem (borrow_cstr p hp)
   | Conv \<Rightarrow> Some (ConvItem p)
   | _ \<Rightarrow> None)"

fun item_into_raw :: "item \<Rightarrow> nat" where
  "item_into_raw (ServiceItem c) = cstr_ptr c"
| "item_into_raw (UserItem c) = cstr_ptr c"
| "item_into_raw (TtyItem c) = cstr_ptr c"
| "item_into_raw (RHostItem c) = cstr_ptr c"
| "item_into_raw (RUserItem c) = cstr_ptr c"
| "item_into_raw (UserPromptItem c) = cstr_ptr c"
| "item_into_raw (AuthTokItem c) = cstr_ptr c"
| "item_into_raw (OldAuthTokItem c) = cstr_ptr c"
| "item_into_raw (ConvItem p) = p"

text \<open>\<open>as_bytes\<close>, \<open>to_owned_secret\<close> and \<open>{:?}\<close> of the two secret items, with the name of the type.\<close>

definition secret_item_as_bytes :: "cstr \<Rightarrow> string" where
  "secret_item_as_bytes c = cstr_bytes c"

definition secret_item_to_owned :: "cstr \<Rightarrow> secret_bytes" where
  "secret_item_to_owned c = SecretBytes (cstr_bytes c)"

definition secret_item_debug :: "string \<Rightarrow> cstr \<Rightarrow> string" where
  "secret_item_debug name c = name @ ''('' @ [CHR 0x22] @ ''[redacted]'' @ [CHR 0x22] @ '')''"

text \<open>What the heap holds at the address of an item is what the item says.\<close>

fun borrowed_from :: "c_heap \<Rightarrow> item \<Rightarrow> bool" where
  "borrowed_from hp (ConvItem p) = True"
| "borrowed_from hp (ServiceItem c) = (cstr_from_ptr (cstr_ptr c) hp = Some (cstr_bytes c))"
| "borrowed_from hp (UserItem c) = (cstr_from_ptr (cstr_ptr c) hp = Some (cstr_bytes c))"
| "borrowed_from hp (TtyItem c) = (cstr_from_ptr (cstr_ptr c) hp = Some (cstr_bytes c))"
| "borrowed_from hp (RHostItem c) = (cstr_from_ptr (cstr_ptr c) hp = Some (cstr_bytes c))"
| "borrowed_from hp (RUserItem c) = (cstr_from_ptr (cstr_ptr c) hp = Some (cstr_bytes c))"
| "borrowed_from hp (UserPromptItem c) = (cstr_from_ptr (cstr_ptr c) hp = Some (cstr_bytes c))"
| "borrowed_from hp (AuthTokItem c) = (cstr_from_ptr (cstr_ptr c) hp = Some (cstr_bytes c))"
| "borrowed_from hp (OldAuthTokItem c) = (cstr_from_ptr (cstr_ptr c) hp = Some (cstr_bytes c))"

lemma item_into_from_raw:
  "borrowed_from hp it \<Longrightarrow> item_from_raw (type_id it) (item_into_raw it) hp = Some it"
  by (cases it) (simp_all add: item_from_raw_def borrow_cstr_def)

lemma item_from_into_raw:
  "item_from_raw ty p hp = Some it \<Longrightarrow> type_id it = ty \<and> item_into_raw it = p \<and> borrowed_from hp it"
  by (cases ty) (auto simp: item_from_raw_def borrow_cstr_def)

text \<open>So the two conversions are inverse to each other, exactly.\<close>

lemma item_raw_exact:
  "item_from_raw ty p hp = Some it \<longleftrightarrow> type_id it = ty \<and> item_into_raw it = p \<and> borrowed_from hp it"
  using item_into_from_raw item_from_into_raw by blast

text \<open>Each wrapped item is one that both platforms know.\<close>

lemma type_id_compiled: "type_id it \<in> set (compiled_items os)"
  by (cases it) (simp_all add: compiled_items_def)

lemma type_id_code: "item_code (type_id a) = item_code (type_id b) \<longleftrightarrow> type_id a = type_id b"
  by (cases a; cases b) simp_all

section \<open>Flags\<close>

datatype pam_flag = PAM_SILENT | PAM_DISALLOW_NULL_AUTHTOK | PAM_ESTABLISH_CRED | PAM_DELETE_CRED | PAM_REINITIALIZE_CRED
  | PAM_REFRESH_CRED | PAM_CHANGE_EXPIRED_AUTHTOK | PAM_PRELIM_CHECK | PAM_UPDATE_AUTHTOK

definition linux_flags :: "(pam_flag \<times> 32 word) list" where
  "linux_flags = [(PAM_SILENT, 0x8000), (PAM_DISALLOW_NULL_AUTHTOK, 0x0001), (PAM_ESTABLISH_CRED, 0x0002),
     (PAM_DELETE_CRED, 0x0004), (PAM_REINITIALIZE_CRED, 0x0008), (PAM_REFRESH_CRED, 0x0010),
     (PAM_CHANGE_EXPIRED_AUTHTOK, 0x0020)]"

definition macos_flags :: "(pam_flag \<times> 32 word) list" where
  "macos_flags = [(PAM_SILENT, 0x80000000), (PAM_DISALLOW_NULL_AUTHTOK, 0x1), (PAM_ESTABLISH_CRED, 0x1),
     (PAM_DELETE_CRED, 0x2), (PAM_REINITIALIZE_CRED, 0x4), (PAM_REFRESH_CRED, 0x8), (PAM_PRELIM_CHECK, 0x1),
     (PAM_UPDATE_AUTHTOK, 0x2), (PAM_CHANGE_EXPIRED_AUTHTOK, 0x4)]"

text \<open>On Linux the flags are bits of their own; on macOS a flag has a meaning only with the function that gets it.\<close>

lemma linux_flags_disjoint:
  "(a, v) \<in> set linux_flags \<Longrightarrow> (b, w) \<in> set linux_flags \<Longrightarrow> a \<noteq> b \<Longrightarrow> v AND w = 0"
  by (auto simp: linux_flags_def)

lemma macos_flags_shared:
  "map_of macos_flags PAM_ESTABLISH_CRED = map_of macos_flags PAM_DISALLOW_NULL_AUTHTOK"
  by (simp add: macos_flags_def)

section \<open>\<open>pam_try!\<close>\<close>

text \<open>The rest of the function is the continuation; \<open>return\<close> skips it. With a second argument that is what is returned.\<close>

definition pam_try :: "'e + 't \<Rightarrow> ('t \<Rightarrow> 'e) \<Rightarrow> 'e" where
  "pam_try r rest = (case r of Inr t \<Rightarrow> rest t | Inl e \<Rightarrow> e)"

definition pam_try_or :: "'e + 't \<Rightarrow> 'r \<Rightarrow> ('t \<Rightarrow> 'r) \<Rightarrow> 'r" where
  "pam_try_or r e rest = (case r of Inr t \<Rightarrow> rest t | Inl _ \<Rightarrow> e)"

end
