(* ===== verification/UnitTests.thy ===== *)
theory UnitTests imports Requests begin

text \<open>
  The repository's unit tests of the pure functions, replayed on the model: each test is a truth value
  made of its assertions, and a lemma evaluates it. They check the translation, and are no part of the
  contract. An \<open>assert_eq!\<close> on a message compares the format and its arguments, as the model keeps them; an
  assertion inside a closure is an error of that closure; a test double that panics when it is asked
  is an error \<open>panic\<close>, which none of the tests expects. What the SSH crate makes of the key and certificate files of the
  test data is a hypothesis of the test's lemma.
\<close>

section \<open>Test doubles\<close>

definition panic :: "'a result" where "panic = Inl (Anyhow ''panic'' [])"

definition dummy_env :: environment where
  "dummy_env = \<lparr>env_get_homedir = (\<lambda>_. panic), env_get_hostname = panic, env_get_fqdn = panic,
     env_get_uid = (\<lambda>_. panic), env_get_env = (\<lambda>_. None)\<rparr>"

definition dummy_handle :: pam_handle_ext where
  "dummy_handle = \<lparr>ext_calling_user = panic, ext_service = panic\<rparr>"

text \<open>\<open>CannedHandler::new(vec![user])\<close>, asked for one user; \<open>CannedEnv::new(vec![home, name])\<close>, asked for both in turn.\<close>

definition canned_handler :: "string \<Rightarrow> pam_handle_ext" where
  "canned_handler user = \<lparr>ext_calling_user = Inr user, ext_service = panic\<rparr>"

definition canned_env :: "string \<Rightarrow> string \<Rightarrow> environment" where
  "canned_env home name = dummy_env\<lparr>env_get_homedir := (\<lambda>_. Inr home), env_get_hostname := Inr name\<rparr>"

text \<open>\<open>assert!(error.to_string().contains(text))\<close> and \<open>assert!(r.is_err())\<close>.\<close>

fun error_contains :: "string \<Rightarrow> 'a result \<Rightarrow> bool" where
  "error_contains text (Inl (Anyhow format _)) = contains text format"
| "error_contains text _ = False"

fun is_err :: "'a result \<Rightarrow> bool" where
  "is_err (Inl _) = True"
| "is_err (Inr _) = False"

section \<open>\<open>args.rs\<close>\<close>

definition test_parse_legacy :: bool where
  "test_parse_legacy \<longleftrightarrow>
     args_parse [] dummy_env dummy_handle = Inr default_args \<and>
     args_parse [''debug''] dummy_env dummy_handle = Inr (default_args\<lparr>args_debug := True\<rparr>) \<and>
     args_parse [''debug'', ''file=/dev/null''] dummy_env dummy_handle =
       Inr (default_args\<lparr>args_debug := True, args_file := ''/dev/null''\<rparr>) \<and>
     args_parse [''default_ssh_auth_sock=/var/run/ssh_agent.sock''] dummy_env dummy_handle =
       Inr (default_args\<lparr>args_default_ssh_auth_sock := Some ''/var/run/ssh_agent.sock''\<rparr>) \<and>
     args_parse [''authorized_keys_command=/usr/bin/sss_ssh_authorizedkeys'', ''authorized_keys_command_user=nobody'']
         dummy_env dummy_handle =
       Inr (default_args\<lparr>args_authorized_keys_command := Some ''/usr/bin/sss_ssh_authorizedkeys'',
         args_authorized_keys_command_user := Some ''nobody''\<rparr>) \<and>
     args_parse [''unknown''] dummy_env dummy_handle =
       Inl (Anyhow (''Could not split '{any}' using '='' @ [CHR 0x27]) [Str ''unknown'']) \<and>
     args_parse [''bad_key=value''] dummy_env dummy_handle =
       Inl (Anyhow (''Unknown parameter key '{key}'' @ [CHR 0x27]) [Str ''bad_key'']) \<and>
     args_parse [[CHR 0x80]] dummy_env dummy_handle = Inl Utf8Error"

definition test_parse_strict :: bool where
  "test_parse_strict \<longleftrightarrow>
     (case args_parse [''strict'', ''file=/etc/security/pam-ssh-agent/%u'', ''agent_timeout=12''] dummy_env
         (canned_handler ''jla'') of Inl _ \<Rightarrow> False
      | Inr a \<Rightarrow> args_strict a \<and> \<not> args_sshd_shortcut a \<and> args_file a = ''/etc/security/pam-ssh-agent/jla'' \<and>
          args_agent_timeout a = Some 12) \<and>
     (case args_parse [''strict'', ''sshd_shortcut'', ''file=/etc/security/pam-ssh-agent/%u''] dummy_env
         (canned_handler ''jla'') of Inl _ \<Rightarrow> False | Inr a \<Rightarrow> args_sshd_shortcut a) \<and>
     list_all (\<lambda>argument. error_contains ''home-expanded trust source''
         (args_parse [''strict'', argument] dummy_env dummy_handle))
       [''file=~/.ssh/authorized_keys'', ''ca_keys_file=%h/ca_keys'', ''authorized_keys_command=~/bin/keys''] \<and>
     error_contains ''requires file= to contain %u''
       (args_parse [''strict'', ''file=/etc/security/authorized_keys''] dummy_env dummy_handle)"

definition test_parse_strict_values :: bool where
  "test_parse_strict_values \<longleftrightarrow>
     list_all (\<lambda>command. error_contains ''expanded helper paths''
         (args_parse [''strict'', ''file=/etc/security/pam-ssh-agent/%u'', command] dummy_env (canned_handler ''jla'')))
       [''authorized_keys_command=/usr/libexec/key-%u'', ''authorized_keys_command=/usr/libexec/key-%U'',
        ''authorized_keys_command=/usr/libexec/key-%H'', ''authorized_keys_command=/usr/libexec/key-%f''] \<and>
     list_all (\<lambda>argument. is_err
         (args_parse [''strict'', ''file=/etc/security/pam-ssh-agent/%u'', argument] dummy_env (canned_handler ''jla'')))
       [''authorized_keys_command=relative-helper'', ''agent_timeout=0'', ''agent_timeout=301'']"

lemma test_parse_legacy: test_parse_legacy by code_simp

lemma test_parse_strict: test_parse_strict by code_simp

lemma test_parse_strict_values: test_parse_strict_values by code_simp

section \<open>\<open>expansions.rs\<close>\<close>

definition asserting :: "string \<Rightarrow> string \<Rightarrow> string \<Rightarrow> string result" where
  "asserting expected value s = (if s = expected then Inr value else panic)"

definition test_find_homedir :: bool where
  "test_find_homedir \<longleftrightarrow>
     expand_homedir ''/foo/bar'' (asserting '''' ''/tmp/noa'') = Inr ''/foo/bar'' \<and>
     expand_homedir ''~/.file'' (asserting '''' ''/tmp/noa'') = Inr ''/tmp/noa/.file'' \<and>
     expand_homedir ''~bob/.file'' (asserting ''bob'' ''/another/bob'') = Inr ''/another/bob/.file'' \<and>
     expand_homedir ''~bob'' (asserting ''bob'' ''/another/bob'') = Inr ''/another/bob''"

definition test_expand_var :: bool where
  "test_expand_var \<longleftrightarrow> expand_var ''/etc/%H/file'' ''%H'' (Inr ''hostname'') = Inr ''/etc/hostname/file''"

definition test_expand_var_uid :: bool where
  "test_expand_var_uid \<longleftrightarrow> expand_var ''/etc/%d/file'' ''%d'' (Inr ''401'') = Inr ''/etc/401/file''"

definition test_expand_vars :: bool where
  "test_expand_vars \<longleftrightarrow>
     expand_vars ''~bob/.foo/%H/%u/file'' (canned_env ''/another/bob'' ''host'') (canned_handler ''user'') =
       Inr ''/another/bob/.foo/host/user/file''"

definition test_get_username :: bool where
  "test_get_username \<longleftrightarrow>
     get_username ''~alice/foo'' 0 = ''alice'' \<and> get_username ''~/foo'' 0 = '''' \<and> get_username ''~bob'' 0 = ''bob''"

lemma test_find_homedir: test_find_homedir by code_simp

lemma test_expand_var: test_expand_var by code_simp

lemma test_expand_var_uid: test_expand_var_uid by code_simp

lemma test_expand_vars: test_expand_vars by code_simp

lemma test_get_username: test_get_username by code_simp

section \<open>\<open>logging.rs\<close>\<close>

definition escape_log_value_removes_control_characters :: bool where
  "escape_log_value_removes_control_characters \<longleftrightarrow>
     escape_log_value (''service'' @ [CHR 0x0D, CHR 0x0A] @ ''user'' @ [CHR 0x09, CHR 0x07, CHR 0x5C] @ ''key'') =
       ''service'' @ [CHR 0x5C] @ ''r'' @ [CHR 0x5C] @ ''nuser'' @ [CHR 0x5C] @ ''t'' @ [CHR 0x5C] @ ''u{7}'' @
       [CHR 0x5C, CHR 0x5C] @ ''key''"

lemma escape_log_value_removes_control_characters: escape_log_value_removes_control_characters by code_simp

section \<open>\<open>auth.rs\<close>\<close>

text \<open>The key of the test file is any security key that the crate knows as Ed25519.\<close>

definition strict_security_key_requires_presence_and_verification :: "('k, 'c) ssh_key \<Rightarrow> 'k \<Rightarrow> bool" where
  "strict_security_key_requires_presence_and_verification lib key \<longleftrightarrow>
     list_all (\<lambda>(flags, accepted).
         (\<not> is_err (validate_sk_signature lib (PublicKey key)
            \<lparr>sig_algorithm = SkEd25519, sig_bytes = (replicate 69 0)[64 := flags]\<rparr>)) = accepted)
       [(0x00, False), (0x01, False), (0x04, False), (0x05, True)] \<and>
     is_err (validate_sk_signature lib (PublicKey key) \<lparr>sig_algorithm = Ed25519, sig_bytes = replicate 64 0\<rparr>)"

lemma strict_security_key_requires_presence_and_verification:
  "is_sk_ed25519 lib key \<Longrightarrow> strict_security_key_requires_presence_and_verification lib key"
  by (simp add: strict_security_key_requires_presence_and_verification_def validate_sk_signature_def identity_key_def Let_def)

definition test_validate_cert_rejects_time_before_epoch :: "('k, 'c) ssh_key \<Rightarrow> 'c \<Rightarrow> bool" where
  "test_validate_cert_rejects_time_before_epoch lib cert \<longleftrightarrow> \<not> validate_cert lib cert (0 - 1) ''principal''"

lemma test_validate_cert_rejects_time_before_epoch: "test_validate_cert_rejects_time_before_epoch lib cert"
  by (simp add: test_validate_cert_rejects_time_before_epoch_def validate_cert_def Let_def)

text \<open>
  The certificate of the test data, as the crate validates it: for the principal alone, within its validity; and the same with
  one byte of its text changed, which no longer verifies.
\<close>

definition test_validate_cert :: "('k, 'c) ssh_key \<Rightarrow> 'c \<Rightarrow> 'c \<Rightarrow> bool" where
  "test_validate_cert lib cert scrambled \<longleftrightarrow>
     validate_cert lib cert 1752577200 ''principal'' \<and>
     \<not> validate_cert lib cert 1752577200 ''another'' \<and>
     \<not> validate_cert lib cert 1749985200 ''principal'' \<and>
     \<not> validate_cert lib cert 1755255600 ''principal'' \<and>
     \<not> validate_cert lib scrambled 1752577200 ''principal''"

lemma test_validate_cert:
  assumes "cert_is_user lib cert" and "cert_valid_principals lib cert = [''principal'']" and "cert_critical_options lib cert = []"
    and "\<And>t. cert_validate_at lib cert t [fingerprint_sha256 lib (cert_signature_key lib cert)] \<longleftrightarrow> 1749985200 < t \<and> t < 1755255600"
    and "\<And>t fps. \<not> cert_validate_at lib scrambled t fps"
  shows "test_validate_cert lib cert scrambled"
  using assms by (simp add: test_validate_cert_def validate_cert_def Let_def)

definition test_validate_cert_rejects_host_cert :: "('k, 'c) ssh_key \<Rightarrow> 'c \<Rightarrow> bool" where
  "test_validate_cert_rejects_host_cert lib cert \<longleftrightarrow> \<not> validate_cert lib cert 1752577200 ''principal''"

lemma test_validate_cert_rejects_host_cert:
  "\<not> cert_is_user lib cert \<Longrightarrow> test_validate_cert_rejects_host_cert lib cert"
  by (simp add: test_validate_cert_rejects_host_cert_def validate_cert_def Let_def)

definition test_unknown_critical_field_in_cert :: "('k, 'c) ssh_key \<Rightarrow> 'c \<Rightarrow> bool" where
  "test_unknown_critical_field_in_cert lib cert \<longleftrightarrow> \<not> validate_cert lib cert 934714800 ''user''"

lemma test_unknown_critical_field_in_cert:
  "cert_critical_options lib cert \<noteq> [] \<Longrightarrow> test_unknown_critical_field_in_cert lib cert"
  by (simp add: test_unknown_critical_field_in_cert_def validate_cert_def Let_def)

section \<open>\<open>filter.rs\<close>\<close>

text \<open>The lines of the test's policies, as the crate parses them; \<open>key\<close> is the key of the test file.\<close>

definition strict_policy_rejects_options_and_malformed_lines :: "('k, 'c) ssh_key \<Rightarrow> string \<Rightarrow> bool" where
  "strict_policy_rejects_options_and_malformed_lines lib key \<longleftrightarrow>
     (case from_str_strict lib key ''test'' False of Inl _ \<Rightarrow> False | Inr as \<Rightarrow> length as = 1) \<and>
     (case from_str_strict lib (''cert-authority '' @ key) ''test'' False of Inl _ \<Rightarrow> False | Inr as \<Rightarrow> length as = 1) \<and>
     is_err (from_str_strict lib (''restrict '' @ key) ''test'' False) \<and>
     is_err (from_str_strict lib (''command='' @ [CHR 0x22] @ ''/bin/true'' @ [CHR 0x22] @ '' '' @ key) ''test'' False) \<and>
     is_err (from_str_strict lib ''not a public key'' ''test'' False) \<and>
     \<not> is_err (parse_policy lib key ''test'' False Strict)"

lemma strict_policy_rejects_options_and_malformed_lines:
  assumes "authorized_keys lib key = [Inr \<lparr>entry_key = k, entry_opts = []\<rparr>]"
    and "authorized_keys lib (''cert-authority '' @ key) = [Inr \<lparr>entry_key = k, entry_opts = [''cert-authority'']\<rparr>]"
    and "authorized_keys lib (''restrict '' @ key) = [Inr \<lparr>entry_key = k, entry_opts = [''restrict'']\<rparr>]"
    and "authorized_keys lib (''command='' @ [CHR 0x22] @ ''/bin/true'' @ [CHR 0x22] @ '' '' @ key) =
      [Inr \<lparr>entry_key = k, entry_opts = [''command='' @ [CHR 0x22] @ ''/bin/true'' @ [CHR 0x22]]\<rparr>]"
    and "authorized_keys lib ''not a public key'' = [Inl e]"
  shows "strict_policy_rejects_options_and_malformed_lines lib key"
  using assms unfolding strict_policy_rejects_options_and_malformed_lines_def
  by (simp add: from_str_strict_def parse_policy_def cert_authority_def MAX_POLICY_ENTRIES_def Let_def)

definition strict_policy_requires_normalized_absolute_paths :: "fs_os \<Rightarrow> trace \<Rightarrow> bool" where
  "strict_policy_requires_normalized_absolute_paths fs tr \<longleftrightarrow>
     (case validate_trust_path fs ''relative'' 0 tr of None \<Rightarrow> False | Some (r, _) \<Rightarrow> is_err r) \<and>
     (case validate_trust_path fs ''/usr/bin/../bin/true'' 0 tr of None \<Rightarrow> False | Some (r, _) \<Rightarrow> is_err r)"

lemma strict_policy_requires_normalized_absolute_paths: "strict_policy_requires_normalized_absolute_paths fs tr"
proof -
  have "\<not> is_absolute ''relative''" by code_simp
  moreover have "list_ex (\<lambda>c. c = CurDir \<or> c = ParentDir) (components ''/usr/bin/../bin/true'')" by code_simp
  ultimately show ?thesis
    by (simp add: strict_policy_requires_normalized_absolute_paths_def validate_trust_path_def io_throw_def)
qed

text \<open>
  The files of the test data are the texts that the file system returns for their paths; the certificate was signed by the
  key \<open>ca\<close>, which the one file names as an authority and the other as a plain key.
\<close>

definition trusts :: "('k, 'c) ssh_key \<Rightarrow> 'k identity_filter io \<Rightarrow> trace \<Rightarrow> 'c \<Rightarrow> bool" where
  "trusts lib run tr cert = (case run tr of Some (Inr flt, _) \<Rightarrow> identity_trusted lib flt (Certificate cert) | _ \<Rightarrow> False)"

definition test_read_public_keys :: "('k, 'c) ssh_key \<Rightarrow> host \<Rightarrow> fs_os \<Rightarrow> proc_os \<Rightarrow> string \<Rightarrow> string \<Rightarrow> 'c \<Rightarrow> trace \<Rightarrow> bool" where
  "test_read_public_keys lib hst fs proc authorized_keys_path ca_key_path cert tr \<longleftrightarrow>
     trusts lib (from_authorized_file lib hst fs proc authorized_keys_path) tr cert \<and>
     trusts lib (filter_new lib hst fs proc ''/dev/null'' (Some ca_key_path) None None []) tr cert \<and>
     trusts lib (filter_new lib hst fs proc ''/does/not/exist'' (Some ca_key_path) None None []) tr cert"

lemma test_read_public_keys:
  assumes "utf8_valid authorized_keys_path" and "utf8_valid ca_key_path"
    and files: "\<And>t. os_read_path fs authorized_keys_path t = Inr keys" "\<And>t. os_read_path fs ca_key_path t = Inr ca_text"
      "\<And>t. os_read_path fs ''/dev/null'' t = Inr []" "\<And>t. os_read_path fs ''/does/not/exist'' t = Inl (OsError ENOENT)"
    and "utf8_valid keys" and "utf8_valid ca_text"
    and "Inr \<lparr>entry_key = cert_signature_key lib cert, entry_opts = [''cert-authority'']\<rparr> \<in> set (authorized_keys lib keys)"
    and "authorized_keys lib ca_text = [Inr \<lparr>entry_key = cert_signature_key lib cert, entry_opts = []\<rparr>]"
  shows "test_read_public_keys lib hst fs proc authorized_keys_path ca_key_path cert tr"
proof -
  have plain: "utf8_valid ''/dev/null''" "utf8_valid ''/does/not/exist''" "utf8_valid []"
    by (rule ascii_utf8_valid, simp add: ascii_def)+
  have new: "trusts lib (filter_new lib hst fs proc f ca None None []) tr cert"
    if "configured hst f ca None None [] srcs" "loads fs proc Legacy [] srcs tr texts t"
      "named_by lib texts (Certificate cert)" for f ca srcs texts t
  proof -
    have "texts_ok lib Legacy texts" by (simp add: policy_ok_def list_all_iff split_beta)
    then have "filter_new lib hst fs proc f ca None None [] tr = Some (Inr (policy_filter lib Legacy texts), t)"
      using that(1,2) unfolding filter_new_def new_with_mode_exact by blast
    then show ?thesis using that(3) by (simp add: trusts_def policy_filter_trusts del: identity_trusted.simps)
  qed
  have missing: "io_kind_of (OsError ENOENT) = KNotFound" by simp
  have "trusts lib (from_authorized_file lib hst fs proc authorized_keys_path) tr cert"
    unfolding from_authorized_file_def
    by (rule new [where srcs = "[KeyFile authorized_keys_path]" and texts = "[(False, keys)]"
          and t = "tr @ [Fs (ReadToString authorized_keys_path)]"])
      (use assms in \<open>force simp: configured_def loads_simps reads_text_def named_by_def cert_authority_def\<close>)+
  moreover have "trusts lib (filter_new lib hst fs proc ''/dev/null'' (Some ca_key_path) None None []) tr cert"
    by (rule new [where srcs = "[KeyFile ''/dev/null'', AuthorityFile ca_key_path]" and texts = "[(False, []), (True, ca_text)]"
          and t = "tr @ [Fs (ReadToString ''/dev/null''), Fs (ReadToString ca_key_path)]"])
      (use assms plain in \<open>force simp: configured_def loads_simps reads_text_def named_by_def\<close>)+
  moreover have "trusts lib (filter_new lib hst fs proc ''/does/not/exist'' (Some ca_key_path) None None []) tr cert"
    by (rule new [where srcs = "[KeyFile ''/does/not/exist'', AuthorityFile ca_key_path]" and texts = "[(True, ca_text)]"
          and t = "tr @ [Fs (ReadToString ''/does/not/exist''), Fs (ReadToString ca_key_path)]"])
      (use assms missing in \<open>force simp: configured_def loads_simps reads_text_def named_by_def\<close>)+
  ultimately show ?thesis by (simp add: test_read_public_keys_def)
qed

text \<open>The policy with 1025 copies of one line, each of which parses to the key; and a file of one byte too many.\<close>

definition strict_policy_limits_entries_and_bytes :: "('k, 'c) ssh_key \<Rightarrow> fs_os \<Rightarrow> nat \<Rightarrow> string \<Rightarrow> trace \<Rightarrow> bool" where
  "strict_policy_limits_entries_and_bytes lib fs fd policy tr \<longleftrightarrow>
     is_err (from_str_strict lib policy ''test'' False) \<and>
     (case read_bounded fs fd tr of None \<Rightarrow> False | Some (r, _) \<Rightarrow> is_err r)"

lemma is_err_iff: "is_err r \<longleftrightarrow> (\<nexists>x. r = Inr x)"
  by (cases r) auto

lemma strict_policy_limits_entries_and_bytes:
  assumes "authorized_keys lib policy = replicate (MAX_POLICY_ENTRIES + 1) (Inr \<lparr>entry_key = k, entry_opts = []\<rparr>)"
    and "os_read_to_end fs fd tr = Inr (replicate (MAX_POLICY_BYTES + 1) (CHR ''x''))"
  shows "strict_policy_limits_entries_and_bytes lib fs fd policy tr"
proof -
  have "is_err (from_str_strict lib policy ''test'' False)"
    unfolding is_err_iff from_str_strict_def assms(1) strict_entries_ok by simp
  moreover have "\<exists>e tr'. read_bounded fs fd tr = Some (Inl e, tr')"
    using assms(2) by (simp add: read_bounded_def io_step Let_def io_throw_def)
  ultimately show ?thesis by (auto simp: strict_policy_limits_entries_and_bytes_def)
qed

section \<open>\<open>agent_connection.rs\<close>\<close>

definition rejects_invalid_socket_path ::
    "platform \<Rightarrow> ('k, 'c) client_lib \<Rightarrow> sock_os \<Rightarrow> nat \<Rightarrow> trace \<Rightarrow> bool" where
  "rejects_invalid_socket_path pf cl os secs tr \<longleftrightarrow>
     (case agent_connect pf cl os '''' (Some secs) tr of
        Some (Inl e, _) \<Rightarrow> e = Io (IoNew KInvalidInput ''invalid Unix socket path'')
      | _ \<Rightarrow> False)"

lemma rejects_invalid_socket_path: "rejects_invalid_socket_path pf cl os secs tr"
  by (simp add: rejects_invalid_socket_path_def agent_connect_def connect_unix_def instant_now_def io_bind_def io_ask_def io_call_def
      io_throw_def Let_def)

section \<open>\<open>lib.rs\<close>\<close>

text \<open>\<open>CannedEnv::new(vec![value])\<close>, asked for one variable. \<open>DummyEnv\<close> panics when it is asked; here it has no variable.\<close>

definition canned_var :: "string \<Rightarrow> environment" where
  "canned_var v = dummy_env\<lparr>env_get_env := (\<lambda>_. Some v)\<rparr>"

definition test_check_sshd_special_case :: "('k, 'c) ssh_key \<Rightarrow> 'k identity_filter \<Rightarrow> string \<Rightarrow> string \<Rightarrow> bool" where
  "test_check_sshd_special_case lib flt key_text ca_text \<longleftrightarrow>
     check_sshd_special_case lib (Some ''sshd'') flt (canned_var key_text) = Inr True \<and>
     check_sshd_special_case lib (Some ''sshd'') flt (canned_var ca_text) = Inr False \<and>
     check_sshd_special_case lib None flt dummy_env = Inr False \<and>
     check_sshd_special_case lib (Some ''something'') flt dummy_env = Inr False \<and>
     is_err (check_sshd_special_case lib (Some ''sshd'') flt (canned_var ''invalid''))"

lemma test_check_sshd_special_case:
  assumes "from_authorized_file lib hst fs proc path tr = Some (Inr flt, tr')"
    and "os_read_path fs path tr = Inr key_text"
    and "authorized_keys lib key_text = [Inr \<lparr>entry_key = k, entry_opts = []\<rparr>]"
    and "from_openssh lib key_text = Inr k" and "from_openssh lib ca_text = Inr c" and "c \<noteq> k"
    and "from_openssh lib ''invalid'' = Inl e"
  shows "test_check_sshd_special_case lib flt key_text ca_text"
proof -
  have "\<exists>texts t. loads fs proc Legacy [] [KeyFile path] tr texts t \<and> flt = policy_filter lib Legacy texts"
    using assms(1) unfolding from_authorized_file_def filter_new_def new_with_mode_exact by (auto simp: configured_def)
  then have "flt = policy_filter lib Legacy [(False, key_text)]"
    using assms(2) by (auto simp: loads_simps reads_text_def)
  then have "flt_keys flt = {k}"
    using assms(3) by (auto simp: policy_filter_def authorizes_def cert_authority_def)
  then show ?thesis
    using assms(4-7) by (simp add: test_check_sshd_special_case_def check_sshd_special_case_def canned_var_def)
qed

text \<open>The last name of the list holds an e with an acute accent; the current user has a plain name.\<close>

definition strict_user_is_local_and_path_safe :: "host \<Rightarrow> string \<Rightarrow> bool" where
  "strict_user_is_local_and_path_safe hst current \<longleftrightarrow>
     list_all (\<lambda>name. is_err (validate_strict_user hst name))
       [[], ''../root'', ''user/name'', ''user'' @ [CHR 0x0A] @ ''name'', ''.'', ''us'' @ [CHR 0xC3, CHR 0xA9] @ ''r''] \<and>
     is_err (validate_strict_user hst ''codex-account-that-does-not-exist'') \<and>
     \<not> is_err (validate_strict_user hst current)"

lemma strict_user_is_local_and_path_safe:
  assumes "get_user_by_name hst ''codex-account-that-does-not-exist'' = None"
    and "get_user_by_name hst current = Some u" and "to_string_lossy (user_name u) = current" and "plain_user_name current"
  shows "strict_user_is_local_and_path_safe hst current"
proof -
  have "\<not> plain_user_name name"
    if "name \<in> {[], ''../root'', ''user/name'', ''user'' @ [CHR 0x0A] @ ''name'', ''.'', ''us'' @ [CHR 0xC3, CHR 0xA9] @ ''r''}" for name
    using that by (auto simp: plain_user_name_def is_ascii_alphanumeric_def)
  then show ?thesis
    using assms by (simp add: strict_user_is_local_and_path_safe_def is_err_iff validate_strict_user_ok local_account_def)
qed

section \<open>\<open>macros.rs\<close> and \<open>module.rs\<close> of the bindings\<close>

definition panic_returns_error_code :: bool where
  "panic_returns_error_code \<longleftrightarrow> panic_guard (Unwinds (Payload None)) = Returns PAM_ABORT"

lemma panic_returns_error_code: panic_returns_error_code
  by (simp add: panic_returns_error_code_def panic_guard_def)

definition hook_success :: "(unit, pam_result_code) hook" where
  "hook_success = (\<lambda>_ _ tr. Some (Returns PAM_SUCCESS, tr))"

definition hook_panic :: "(unit, pam_result_code) hook" where
  "hook_panic = (\<lambda>_ _ tr. Some (Unwinds (Payload None), tr))"

definition invoke_hook_validation :: bool where
  "invoke_hook_validation \<longleftrightarrow> list_all (\<lambda>(pamh, argc, argv, hook, expected).
     map_option fst (invoke_hook pamh argc argv hook []) = Some (Returns expected))
     [(None, 0, None, hook_success, PAM_ABORT),
      (Some (), -1, None, hook_success, PAM_ABORT),
      (Some (), 1, None, hook_success, PAM_ABORT),
      (Some (), 1, Some [None], hook_success, PAM_ABORT),
      (Some (), 0, None, hook_panic, PAM_ABORT),
      (Some (), 2, Some [Some ''first'', Some ''second''], hook_success, PAM_SUCCESS)]"

lemma invoke_hook_validation: invoke_hook_validation
  by (simp add: invoke_hook_validation_def invoke_hook_def hook_success_def hook_panic_def panic_guard_def)

definition test_extract_argv :: bool where
  "test_extract_argv \<longleftrightarrow>
     extract_argv [Some ''first'', None] = Inl PAM_ABORT \<and> extract_argv [] = Inr [] \<and>
     extract_argv [Some ''first'', Some ''second''] = Inr [''first'', ''second'']"

lemma test_extract_argv: test_extract_argv
  by (simp add: test_extract_argv_def)

text \<open>Null data; a drop that panics; and one whose payload panics when it is dropped, as does the next payload.\<close>

definition cleanup_disaster_scenarios :: bool where
  "cleanup_disaster_scenarios \<longleftrightarrow>
     fst (cleanup (\<lambda>_. Returns ()) None {}) = Returns () \<and>
     fst (cleanup (\<lambda>_. Unwinds (Payload None)) (Some 1) {1}) = Returns () \<and>
     fst (cleanup (\<lambda>_. Unwinds (Payload (Some (Payload (Some (Payload None)))))) (Some 1) {1}) = Returns ()"

lemma cleanup_disaster_scenarios: cleanup_disaster_scenarios
  by (simp add: cleanup_disaster_scenarios_def cleanup_def)

end
